(* ===== verification/Prelude.thy ===== *)
theory Prelude
  imports Main "HOL-Library.Word" "HOL-Library.AList" "HOL-Library.Product_Lexorder"
    "HOL-Library.List_Lexorder" "HOL-Library.Char_ord"
begin

text \<open>
  Shared vocabulary of the development: the C++ integer types as machine words, the scalar type
  names of \<open>include/bluzelle.hpp\<close>, exceptions as values of a sum type with its bind, the
  ordered containers (\<open>std::map\<close>, \<open>std::set\<close>) as strictly sorted lists and the
  hashed ones (\<open>std::unordered_map\<close>) as association lists with distinct keys, and the decimal
  conversions \<open>std::to_string\<close> and \<open>boost::lexical_cast<uint64_t>\<close>.

  The collections \<open>smap_simps\<close>, \<open>res_simps\<close> carry the component proofs.
\<close>

section \<open>Scalar types\<close>

type_synonym u8 = "8 word"
type_synonym u16 = "16 word"
type_synonym u32 = "32 word"
type_synonym u64 = "64 word"

type_synonym uuid_t = string
type_synonym key_t = string
type_synonym value_t = string
type_synonym hash_t = string
type_synonym session_id = u64
type_synonym endpoint = "string \<times> u16"

named_theorems smap_simps "lookup, key and order facts of the ordered containers"
named_theorems res_simps "unfolding of the exception bind"

section \<open>Exceptions as values\<close>

text \<open>
  \<open>Runtime_error\<close> is \<open>throw std::runtime_error(what)\<close>, \<open>Out_of_range\<close> the exception of
  \<open>vector::at\<close>, and \<open>Undefined_behaviour\<close> marks a path on which the C++ program has no
  defined meaning (an out-of-range \<open>operator[]\<close>, a division by zero, \<open>front()\<close> of an
  empty list): the models return it instead of choosing a value.
\<close>

datatype exn = Runtime_error string | Out_of_range | Undefined_behaviour string

type_synonym 'a res = "exn + 'a"

definition bindE :: "'a res \<Rightarrow> ('a \<Rightarrow> 'b res) \<Rightarrow> 'b res" where
  "bindE m f = (case m of Inl e \<Rightarrow> Inl e | Inr x \<Rightarrow> f x)"

lemma bindE_simps [simp, res_simps]: "bindE (Inl e) f = Inl e" "bindE (Inr x) f = f x"
  by (simp_all add: bindE_def)

lemma bindE_Inr_iff [res_simps]: "bindE m f = Inr y \<longleftrightarrow> (\<exists>x. m = Inr x \<and> f x = Inr y)"
  by (cases m) auto

lemma bindE_InrE [elim!]:
  assumes "bindE m f = Inr y"
  obtains x where "m = Inr x" and "f x = Inr y"
  using assms by (auto simp: bindE_Inr_iff)

lemma bindE_cong [fundef_cong]:
  "m = m' \<Longrightarrow> (\<And>x. m' = Inr x \<Longrightarrow> f x = g x) \<Longrightarrow> bindE m f = bindE m' g"
  by (cases m') auto

section \<open>Ordered maps: \<open>std::map\<close>\<close>

text \<open>
  An ordered map is the list of its pairs in strictly increasing key order, the order in which
  the C++ iterators visit it; \<open>begin()\<close> is the head of the list and \<open>find\<close> is \<open>map_of\<close>.
\<close>

type_synonym ('k, 'v) smap = "('k \<times> 'v) list"

fun smap_set :: "'k::linorder \<Rightarrow> 'v \<Rightarrow> ('k, 'v) smap \<Rightarrow> ('k, 'v) smap" where
  "smap_set k v [] = [(k, v)]"
| "smap_set k v (e # m) =
     (if fst e < k then e # smap_set k v m
      else if fst e = k then (k, v) # m
      else (k, v) # e # m)"

definition smap_ok :: "('k::linorder, 'v) smap \<Rightarrow> bool" where
  "smap_ok m \<longleftrightarrow> sorted_wrt (<) (map fst m)"

lemma map_of_smap_set [simp, smap_simps]: "map_of (smap_set k v m) = (map_of m)(k \<mapsto> v)"
  by (induction m) (auto simp: fun_eq_iff)

lemma keys_smap_set [simp, smap_simps]: "fst ` set (smap_set k v m) = insert k (fst ` set m)"
  by (induction m) auto

lemma set_smap_set_subset: "set (smap_set k v m) \<subseteq> insert (k, v) (set m)"
  by (induction m) auto

lemma smap_ok_Nil [simp]: "smap_ok []"
  by (simp add: smap_ok_def)

lemma smap_ok_Cons: "smap_ok (e # m) \<longleftrightarrow> (\<forall>x \<in> set m. fst e < fst x) \<and> smap_ok m"
  by (auto simp: smap_ok_def)

lemma smap_ok_set [simp, intro]: "smap_ok m \<Longrightarrow> smap_ok (smap_set k v m)"
proof (induction m)
  case (Cons e m)
  have "\<forall>x \<in> set (smap_set k v m). fst e < fst x" if "fst e < k"
    using Cons.prems that set_smap_set_subset [of k v m] by (auto simp: smap_ok_Cons)
  with Cons show ?case by (auto simp: smap_ok_Cons)
qed (simp add: smap_ok_Cons)

lemma smap_ok_filter [simp, intro]: "smap_ok m \<Longrightarrow> smap_ok (filter P m)"
  by (simp add: smap_ok_def sorted_wrt_map sorted_wrt_filter)

lemma smap_ok_map_snd [simp]: "smap_ok (map (\<lambda>(k, v). (k, f k v)) m) \<longleftrightarrow> smap_ok m"
  by (simp add: smap_ok_def comp_def case_prod_beta)

lemma smap_ok_distinct [smap_simps]: "smap_ok m \<Longrightarrow> distinct (map fst m)"
  unfolding smap_ok_def by (metis strict_sorted_iff)

lemma map_of_filter_distinct:
  assumes "distinct (map fst m)"
  shows "map_of (filter P m) k
    = (case map_of m k of None \<Rightarrow> None | Some v \<Rightarrow> if P (k, v) then Some v else None)"
  using assms
proof (induction m)
  case (Cons e m)
  then have "map_of m (fst e) = None" by (simp add: map_of_eq_None_iff)
  with Cons show ?case by (cases e) (auto split: option.splits)
qed simp

lemma map_of_filter_smap:
  "smap_ok m \<Longrightarrow> map_of (filter P m) k
    = (case map_of m k of None \<Rightarrow> None | Some v \<Rightarrow> if P (k, v) then Some v else None)"
  by (rule map_of_filter_distinct) (rule smap_ok_distinct)

lemma map_of_filter_keys:
  "map_of (filter (\<lambda>e. P (fst e)) m) k = (if P k then map_of m k else None)"
  by (induction m) auto

lemma length_smap_set:
  "smap_ok m \<Longrightarrow> length (smap_set k v m) = (if k \<in> fst ` set m then length m else Suc (length m))"
proof (induction m)
  case (Cons e m)
  then show ?case by (force simp: smap_ok_Cons)
qed simp

section \<open>Ordered sets: \<open>std::set\<close> with \<open>upper_bound\<close>\<close>

fun sset_insert :: "'a::linorder \<Rightarrow> 'a list \<Rightarrow> 'a list" where
  "sset_insert x [] = [x]"
| "sset_insert x (y # ys) =
     (if y < x then y # sset_insert x ys else if y = x then y # ys else x # y # ys)"

definition sset_ok :: "'a::linorder list \<Rightarrow> bool" where
  "sset_ok xs \<longleftrightarrow> sorted_wrt (<) xs"

lemma set_sset_insert [simp, smap_simps]: "set (sset_insert x xs) = insert x (set xs)"
  by (induction xs) auto

lemma sset_ok_Nil [simp]: "sset_ok []"
  by (simp add: sset_ok_def)

lemma sset_ok_insert [simp, intro]: "sset_ok xs \<Longrightarrow> sset_ok (sset_insert x xs)"
  unfolding sset_ok_def by (induction xs) auto

lemma sset_ok_filter [simp, intro]: "sset_ok xs \<Longrightarrow> sset_ok (filter P xs)"
  by (simp add: sset_ok_def sorted_wrt_filter)

text \<open>
  \<open>erase(begin(), upper_bound(b))\<close> keeps what is past the bound. On a sorted container the
  prefix that goes is exactly the set of elements at or below it.
\<close>

definition erase_until :: "('a \<Rightarrow> 'b::linorder) \<Rightarrow> 'b \<Rightarrow> 'a list \<Rightarrow> 'a list" where
  "erase_until f b xs = dropWhile (\<lambda>x. f x \<le> b) xs"

lemma erase_until_filter:
  assumes "sorted_wrt (<) (map f xs)"
  shows "erase_until f b xs = filter (\<lambda>x. b < f x) xs"
  using assms
proof (induction xs)
  case (Cons x xs)
  show ?case
  proof (cases "f x \<le> b")
    case False
    with Cons.prems have "\<forall>y \<in> set xs. b < f y" by fastforce
    with False show ?thesis by (auto simp: erase_until_def)
  qed (use Cons in \<open>auto simp: erase_until_def\<close>)
qed (simp add: erase_until_def)

section \<open>Hashed maps: \<open>std::unordered_map\<close>\<close>

text \<open>
  A hashed map is an association list with distinct keys. Its list order stands for the iteration
  order, which C++ leaves open; the operations are those of \<open>HOL-Library.AList\<close>.
\<close>

type_synonym ('k, 'v) umap = "('k \<times> 'v) list"

definition umap_ok :: "('k, 'v) umap \<Rightarrow> bool" where
  "umap_ok m \<longleftrightarrow> distinct (map fst m)"

lemma umap_ok_Nil [simp]: "umap_ok []"
  by (simp add: umap_ok_def)

lemma umap_ok_update [simp, intro]: "umap_ok m \<Longrightarrow> umap_ok (AList.update k v m)"
  by (simp add: umap_ok_def distinct_update)

lemma umap_ok_delete [simp, intro]: "umap_ok m \<Longrightarrow> umap_ok (AList.delete k m)"
  by (simp add: umap_ok_def distinct_delete)

lemma map_of_update [simp]: "map_of (AList.update k v m) = (map_of m)(k \<mapsto> v)"
  by (rule update_conv')

lemma map_of_delete [simp]: "map_of (AList.delete k m) = (map_of m)(k := None)"
  by (rule delete_conv')

lemma length_delete_mem: "k \<in> fst ` set m \<Longrightarrow> length (AList.delete k m) < length m"
proof (induction m)
  case (Cons e m)
  then show ?case using length_delete_le [of k m] by (cases "fst e = k") auto
qed simp

lemma umap_size: "umap_ok m \<Longrightarrow> length m = card (fst ` set m)"
  unfolding umap_ok_def by (metis distinct_card length_map list.set_map)

section \<open>Decimal numerals\<close>

text \<open>\<open>std::to_string\<close> of an unsigned integer: its digits, most significant first.\<close>

definition digit_char :: "nat \<Rightarrow> char" where
  "digit_char d = char_of (48 + d)"

function (sequential) show_nat :: "nat \<Rightarrow> string" where
  "show_nat n = (if n < 10 then [digit_char n] else show_nat (n div 10) @ [digit_char (n mod 10)])"
  by pat_completeness auto
termination
  by (relation "measure id") auto

declare show_nat.simps [simp del]

definition to_string :: "u64 \<Rightarrow> string" where
  "to_string w = show_nat (unat w)"

definition digit_val :: "char \<Rightarrow> nat option" where
  "digit_val c = (if 48 \<le> (of_char c :: nat) \<and> (of_char c :: nat) \<le> 57
     then Some (of_char c - 48) else None)"

fun read_digits :: "nat \<Rightarrow> string \<Rightarrow> nat option" where
  "read_digits acc [] = Some acc"
| "read_digits acc (c # cs) =
     (case digit_val c of None \<Rightarrow> None | Some d \<Rightarrow> read_digits (10 * acc + d) cs)"

text \<open>
  \<open>boost::lexical_cast<uint64_t>\<close> on a digit string with an optional sign: the value, negated in
  64 bits after a minus, or the conversion error on no digits, on another character or on a value
  of more than 64 bits.
\<close>

definition cast_digits_u64 :: "string \<Rightarrow> u64 res" where
  "cast_digits_u64 s =
     (if s = [] then Inl (Runtime_error ''bad_lexical_cast'')
      else case read_digits 0 s of
        None \<Rightarrow> Inl (Runtime_error ''bad_lexical_cast'')
      | Some n \<Rightarrow> if n < 2 ^ 64 then Inr (word_of_nat n) else Inl (Runtime_error ''bad_lexical_cast''))"

definition lexical_cast_u64 :: "string \<Rightarrow> u64 res" where
  "lexical_cast_u64 s =
     (case s of
        [] \<Rightarrow> Inl (Runtime_error ''bad_lexical_cast'')
      | c # t \<Rightarrow>
          if c = CHR ''-'' then bindE (cast_digits_u64 t) (\<lambda>w. Inr (- w))
          else if c = CHR ''+'' then cast_digits_u64 t
          else cast_digits_u64 s)"

lemma digit_val_char [simp]: "d < 10 \<Longrightarrow> digit_val (digit_char d) = Some d"
  by (simp add: digit_val_def digit_char_def)

lemma read_digits_snoc:
  "read_digits acc (s @ [c])
    = (case read_digits acc s of None \<Rightarrow> None
       | Some n \<Rightarrow> (case digit_val c of None \<Rightarrow> None | Some d \<Rightarrow> Some (10 * n + d)))"
  by (induction s arbitrary: acc) (auto split: option.splits)

lemma read_show_nat [simp]: "read_digits 0 (show_nat n) = Some n"
proof (induction n rule: show_nat.induct)
  case (1 n)
  show ?case
  proof (cases "n < 10")
    case True
    then show ?thesis by (subst show_nat.simps) simp
  next
    case False
    with 1 show ?thesis by (subst show_nat.simps) (simp add: read_digits_snoc)
  qed
qed

lemma show_nat_nonempty [simp]: "show_nat n \<noteq> []"
  by (subst show_nat.simps) simp

lemma show_nat_inject [simp]: "show_nat m = show_nat n \<longleftrightarrow> m = n"
  by (metis option.inject read_show_nat)

lemma to_string_inject [simp]: "to_string v = to_string w \<longleftrightarrow> v = w"
  by (simp add: to_string_def word_unat_eq_iff)

text \<open>Every character of a printed number is a digit.\<close>

lemma digit_val_show_nat: "c \<in> set (show_nat n) \<Longrightarrow> digit_val c \<noteq> None"
proof (induction n rule: show_nat.induct)
  case (1 n)
  show ?case
  proof (cases "n < 10")
    case True
    with "1.prems" show ?thesis by (simp add: show_nat.simps [of n])
  next
    case False
    with 1 show ?thesis by (auto simp: show_nat.simps [of n])
  qed
qed

lemma lexical_cast_to_string [simp]: "lexical_cast_u64 (to_string w) = Inr w"
proof -
  have "cast_digits_u64 (show_nat (unat w)) = Inr w"
    using unsigned_less [of w] by (simp add: cast_digits_u64_def)
  moreover obtain c t where s: "show_nat (unat w) = c # t"
    using show_nat_nonempty by (meson list.exhaust)
  moreover have "digit_val c \<noteq> None" using digit_val_show_nat s by (metis list.set_intros(1))
  then have "c \<noteq> CHR ''-''" "c \<noteq> CHR ''+''" by (auto simp: digit_val_def)
  ultimately show ?thesis by (simp add: lexical_cast_u64_def to_string_def)
qed

section \<open>Words\<close>

lemma word_less_Suc_ne: "(k::u64) < n \<Longrightarrow> n + 1 \<noteq> 0 \<Longrightarrow> k < n + 1"
  by uint_arith

lemma u64_bound: "unat (n :: u64) < 2 ^ 64"
proof -
  have "unat n < 2 ^ LENGTH(64)" by (rule unsigned_less)
  then show ?thesis by simp
qed

lemma unat_of_nat_u64: "n < 2 ^ 64 \<Longrightarrow> unat (word_of_nat n :: u64) = n"
  by (simp add: unat_of_nat)

lemma of_nat_u64_inject:
  assumes "m < 2 ^ 64" "n < 2 ^ 64"
  shows "(word_of_nat m :: u64) = word_of_nat n \<longleftrightarrow> m = n"
proof -
  have "unat (word_of_nat m :: u64) = m" "unat (word_of_nat n :: u64) = n"
    using assms by (simp_all add: unat_of_nat)
  then show ?thesis by metis
qed

lemma word_less_plus_one: "(n::u64) + 1 \<noteq> 0 \<Longrightarrow> n < n + 1"
  by uint_arith

lemma unat_plus_one_less: "(w::u32) < b \<Longrightarrow> unat (w + 1) = Suc (unat w)"
  by unat_arith

lemma ucast_u16_u32 [simp]: "(ucast (ucast (w::u16) :: u32) :: u16) = w"
  by (simp add: ucast_up_ucast_id is_up)

end
