(* ===== verification/Messages.thy ===== *)
theory Messages
  imports Prelude
begin

text \<open>
  The messages the components exchange: the protobuf types of \<open>proto/database.proto\<close>,
  \<open>proto/pbft.proto\<close>, \<open>proto/audit.proto\<close> and \<open>proto/bluzelle.proto\<close>, and the peer address of
  \<open>bootstrap/peer_address.hpp\<close>. A protobuf \<open>oneof\<close> is a datatype whose first constructor is the
  case "not set"; an optional submessage is an \<open>option\<close>, and reading an absent one yields the
  default instance, as the generated accessors do.
\<close>

section \<open>Peers\<close>

record peer_address_t =
  pa_host :: string
  pa_port :: u16
  pa_http_port :: u16
  pa_name :: string
  pa_uuid :: uuid_t

text \<open>\<open>peer_address_t::operator==\<close>: the name is not compared.\<close>

definition peer_eq :: "peer_address_t \<Rightarrow> peer_address_t \<Rightarrow> bool" where
  "peer_eq p q \<longleftrightarrow> pa_host p = pa_host q \<and> pa_port p = pa_port q
     \<and> pa_http_port p = pa_http_port q \<and> pa_uuid p = pa_uuid q"

text \<open>\<open>bzn::make_endpoint\<close>: the address and port a message to a peer is sent to.\<close>

definition make_endpoint :: "peer_address_t \<Rightarrow> endpoint" where
  "make_endpoint p = (pa_host p, pa_port p)"

text \<open>
  \<open>std::unordered_set<peer_address_t>::emplace\<close>: an element equal to one already there is not
  inserted.
\<close>

definition peers_insert :: "peer_address_t \<Rightarrow> peer_address_t list \<Rightarrow> peer_address_t list" where
  "peers_insert p ps = (if \<exists>q \<in> set ps. peer_eq q p then ps else ps @ [p])"

lemma peer_eq_refl [simp]: "peer_eq p p"
  by (simp add: peer_eq_def)

lemma peer_eq_sym: "peer_eq p q \<Longrightarrow> peer_eq q p"
  by (simp add: peer_eq_def)

lemma peer_eq_trans: "peer_eq p q \<Longrightarrow> peer_eq q r \<Longrightarrow> peer_eq p r"
  by (simp add: peer_eq_def)

section \<open>Database requests and responses\<close>

record database_header =
  db_uuid :: uuid_t
  transaction_id :: u64

datatype database_body =
    Db_not_set
  | Db_create key_t value_t
  | Db_read key_t
  | Db_update key_t value_t
  | Db_delete key_t
  | Db_has key_t
  | Db_keys
  | Db_size
  | Db_subscribe key_t
  | Db_unsubscribe key_t u64

record database_msg =
  db_header :: database_header
  db_body :: database_body

datatype subscription_operation = UPDATE | DELETE

datatype response_body =
    Resp_not_set
  | Resp_redirect peer_address_t
  | Resp_subscription_update key_t value_t subscription_operation
  | Resp_read key_t value_t
  | Resp_has key_t bool
  | Resp_keys "key_t list"
  | Resp_size u32 u32 \<comment> \<open>bytes, keys\<close>
  | Resp_error string

record database_response =
  resp_header :: database_header
  resp_body :: response_body

definition default_header :: database_header where
  "default_header = \<lparr>db_uuid = '''', transaction_id = 0\<rparr>"

definition default_database_msg :: database_msg where
  "default_database_msg = \<lparr>db_header = default_header, db_body = Db_not_set\<rparr>"

definition default_response :: database_response where
  "default_response = \<lparr>resp_header = default_header, resp_body = Resp_not_set\<rparr>"

text \<open>\<open>bzn_msg\<close>, the wrapper that the Raft side of the program still uses, and its accessor \<open>db()\<close>.\<close>

datatype bzn_msg = Bzn_not_set | Bzn_db database_msg | Bzn_json string

definition bzn_db :: "bzn_msg \<Rightarrow> database_msg" where
  "bzn_db m = (case m of Bzn_db d \<Rightarrow> d | _ \<Rightarrow> default_database_msg)"

text \<open>The answer of both stacks to a message that cannot be read.\<close>

definition MSG_INVALID_CRUD_COMMAND :: string where
  "MSG_INVALID_CRUD_COMMAND = ''INVALID_CRUD''"

section \<open>PBFT messages\<close>

datatype pbft_request_type = PBFT_REQ_UNDEFINED | PBFT_REQ_DATABASE | PBFT_REQ_NEW_CONFIG

datatype request_body = Req_not_set | Req_operation database_msg | Req_config string

record pbft_request =
  req_type :: pbft_request_type
  req_body :: request_body
  req_timestamp :: u64
  req_client :: string

definition default_request :: pbft_request where
  "default_request = \<lparr>req_type = PBFT_REQ_UNDEFINED, req_body = Req_not_set, req_timestamp = 0,
     req_client = ''''\<rparr>"

text \<open>\<open>request.operation()\<close>, \<open>request.has_config()\<close> and \<open>request.config().configuration()\<close>.\<close>

definition req_operation :: "pbft_request \<Rightarrow> database_msg" where
  "req_operation r = (case req_body r of Req_operation m \<Rightarrow> m | _ \<Rightarrow> default_database_msg)"

definition req_has_config :: "pbft_request \<Rightarrow> bool" where
  "req_has_config r = (case req_body r of Req_config _ \<Rightarrow> True | _ \<Rightarrow> False)"

definition req_configuration :: "pbft_request \<Rightarrow> string" where
  "req_configuration r = (case req_body r of Req_config c \<Rightarrow> c | _ \<Rightarrow> '''')"

datatype pbft_msg_type =
  PBFT_MSG_UNDEFINED | PBFT_MSG_PREPREPARE | PBFT_MSG_PREPARE | PBFT_MSG_COMMIT | PBFT_MSG_CHECKPOINT

record pbft_msg =
  m_type :: pbft_msg_type
  m_view :: u64
  m_sequence :: u64
  m_request :: "pbft_request option"
  m_state_hash :: string

text \<open>\<open>msg.request()\<close>.\<close>

definition msg_request :: "pbft_msg \<Rightarrow> pbft_request" where
  "msg_request m = (case m_request m of None \<Rightarrow> default_request | Some r \<Rightarrow> r)"

datatype pbft_membership_msg_type = PBFT_MMSG_UNDEFINED | PBFT_MMSG_JOIN | PBFT_MMSG_LEAVE

text \<open>\<open>pbft_peer_info\<close> carries its ports as 32 bit fields.\<close>

record pbft_peer_info =
  pi_host :: string
  pi_port :: u32
  pi_http_port :: u32
  pi_name :: string
  pi_uuid :: uuid_t

record pbft_membership_msg =
  mm_type :: pbft_membership_msg_type
  mm_peer_info :: "pbft_peer_info option"

section \<open>Audit messages\<close>

record leader_status =
  ls_term :: u64
  ls_leader :: uuid_t
  ls_current_log_index :: u64
  ls_current_commit_index :: u64

record raft_commit_notification =
  rc_log_index :: u64
  rc_operation :: string

record primary_status =
  ps_view :: u64
  ps_primary :: uuid_t

record pbft_commit_notification =
  pc_sender_uuid :: uuid_t
  pc_sequence_number :: u64
  pc_operation :: string

datatype audit_message =
    Audit_not_set
  | Audit_raft_commit raft_commit_notification
  | Audit_leader_status leader_status
  | Audit_pbft_commit pbft_commit_notification
  | Audit_primary_status primary_status
  | Audit_failure_detected uuid_t

end
