(* ===== verification/Quorum.thy ===== *)
theory Quorum
  imports Prelude
begin

text \<open>
  Quorum arithmetic shared by the two consensus protocols. The locale \<open>quorum_size\<close> states what a
  protocol needs of the number of votes it waits for: with \<open>n\<close> members of which at most \<open>bound n\<close>
  are faulty, two quorums of \<open>q n\<close> votes share more than \<open>bound n\<close> members, so at least one correct
  one. \<open>ok\<close> holds of the group sizes for which the promise is made. The instances are in the
  theories that define the thresholds.
\<close>

section \<open>Counting\<close>

lemma card_inter_lower:
  assumes "finite P" and "A \<subseteq> P" and "B \<subseteq> P"
  shows "card A + card B \<le> card P + card (A \<inter> B)"
proof -
  have "finite A" "finite B" using assms finite_subset by blast+
  then have "card A + card B = card (A \<union> B) + card (A \<inter> B)" by (rule card_Un_Int)
  also have "card (A \<union> B) \<le> card P" using assms by (intro card_mono) auto
  finally show ?thesis by simp
qed

lemma card_gt_exists_outside:
  assumes "finite F" and "card F < card A"
  shows "\<exists>x \<in> A. x \<notin> F"
proof (rule ccontr)
  assume "\<not> ?thesis"
  then have "A \<subseteq> F" by blast
  with assms have "card A \<le> card F" by (intro card_mono)
  with assms(2) show False by simp
qed

section \<open>Thresholds\<close>

locale quorum_size =
  fixes bound :: "nat \<Rightarrow> nat"
    and q :: "nat \<Rightarrow> nat"
    and ok :: "nat \<Rightarrow> bool"
  assumes overlap: "ok n \<Longrightarrow> n + bound n < 2 * q n"
begin

lemma quorums_share_correct:
  assumes n: "finite P" "ok (card P)"
    and F: "finite F" "card F \<le> bound (card P)"
    and A: "A \<subseteq> P" "q (card P) \<le> card A"
    and B: "B \<subseteq> P" "q (card P) \<le> card B"
  obtains x where "x \<in> A" "x \<in> B" "x \<notin> F"
proof -
  have "card A + card B \<le> card P + card (A \<inter> B)"
    using n(1) A(1) B(1) by (rule card_inter_lower)
  moreover have "card P + bound (card P) < 2 * q (card P)"
    using n(2) by (rule overlap)
  ultimately have "card F < card (A \<inter> B)" using F(2) A(2) B(2) by linarith
  with F(1) obtain x where "x \<in> A \<inter> B" "x \<notin> F" by (metis card_gt_exists_outside)
  with that show thesis by blast
qed

end

text \<open>A quorum that the correct members can reach alone: progress needs it beside the overlap.\<close>

locale live_quorum_size = quorum_size +
  assumes reachable: "ok n \<Longrightarrow> q n + bound n \<le> n"
begin

lemma correct_members_suffice:
  assumes "finite P" "ok (card P)" "F \<subseteq> P" "card F \<le> bound (card P)"
  shows "q (card P) \<le> card (P - F)"
proof -
  have "finite F" using assms finite_subset by blast
  then have "card (P - F) = card P - card F" using assms by (simp add: card_Diff_subset)
  with assms reachable [of "card P"] show ?thesis by simp
qed

end

end
