(* ===== verification/Pbft_Operation.thy ===== *)
theory Pbft_Operation
  imports Messages Quorum
begin

text \<open>
  A single PBFT operation, \<open>pbft/pbft_operation.cpp\<close>: the record of the votes seen for one request
  at one view and sequence number, and its three phases. The hash of a request is its protobuf
  \<open>ShortDebugString\<close>, a parameter \<open>sds\<close> of every definition that needs it.

  The phase machine is the relation \<open>op_step\<close>; its invariant is that an operation past the prepare
  phase holds the certificates that justify it. The thresholds are instances of \<open>live_quorum_size\<close>.
\<close>

section \<open>State\<close>

type_synonym operation_key_t = "u64 \<times> u64 \<times> hash_t"
type_synonym log_key_t = "u64 \<times> u64"

datatype pbft_operation_state = Op_prepare | Op_commit | Op_committed

record pbft_operation =
  op_view :: u64
  op_sequence :: u64
  op_request :: pbft_request
  op_peers :: "peer_address_t list"
  op_state :: pbft_operation_state
  preprepare_seen :: bool
  prepares_seen :: "uuid_t set"
  commits_seen :: "uuid_t set"
  listener_session :: "session_id option"

section \<open>Operations\<close>

definition new_operation :: "u64 \<Rightarrow> u64 \<Rightarrow> pbft_request \<Rightarrow> peer_address_t list \<Rightarrow> pbft_operation" where
  "new_operation view sequence request peers =
     \<lparr>op_view = view, op_sequence = sequence, op_request = request, op_peers = peers,
      op_state = Op_prepare, preprepare_seen = False, prepares_seen = {}, commits_seen = {},
      listener_session = None\<rparr>"

definition request_hash :: "(pbft_request \<Rightarrow> string) \<Rightarrow> pbft_request \<Rightarrow> hash_t" where
  "request_hash sds req = sds req"

definition get_operation_key :: "(pbft_request \<Rightarrow> string) \<Rightarrow> pbft_operation \<Rightarrow> operation_key_t" where
  "get_operation_key sds op = (op_view op, op_sequence op, request_hash sds (op_request op))"

definition record_preprepare :: "pbft_operation \<Rightarrow> pbft_operation" where
  "record_preprepare op = op\<lparr>preprepare_seen := True\<rparr>"

definition record_prepare :: "uuid_t \<Rightarrow> pbft_operation \<Rightarrow> pbft_operation" where
  "record_prepare sender op = op\<lparr>prepares_seen := insert sender (prepares_seen op)\<rparr>"

definition record_commit :: "uuid_t \<Rightarrow> pbft_operation \<Rightarrow> pbft_operation" where
  "record_commit sender op = op\<lparr>commits_seen := insert sender (commits_seen op)\<rparr>"

definition set_session :: "session_id option \<Rightarrow> pbft_operation \<Rightarrow> pbft_operation" where
  "set_session session op = op\<lparr>listener_session := session\<rparr>"

text \<open>\<open>(this->peers->size() - 1) / 3\<close> in \<open>size_t\<close>: an empty peer list wraps around.\<close>

definition faulty_nodes_bound :: "pbft_operation \<Rightarrow> u64" where
  "faulty_nodes_bound op = (word_of_nat (length (op_peers op)) - 1) div 3"

definition is_prepared :: "pbft_operation \<Rightarrow> bool" where
  "is_prepared op \<longleftrightarrow> preprepare_seen op
     \<and> unat (2 * faulty_nodes_bound op) < card (prepares_seen op)"

definition is_committed :: "pbft_operation \<Rightarrow> bool" where
  "is_committed op \<longleftrightarrow> is_prepared op
     \<and> unat (2 * faulty_nodes_bound op) < card (commits_seen op)"

definition begin_commit_phase :: "pbft_operation \<Rightarrow> pbft_operation res" where
  "begin_commit_phase op =
     (if \<not> is_prepared op \<or> op_state op \<noteq> Op_prepare
      then Inl (Runtime_error ''Illegaly tried to move to commit phase'')
      else Inr (op\<lparr>op_state := Op_commit\<rparr>))"

definition end_commit_phase :: "pbft_operation \<Rightarrow> pbft_operation res" where
  "end_commit_phase op =
     (if \<not> is_committed op \<or> op_state op \<noteq> Op_commit
      then Inl (Runtime_error ''Illegally tried to end the commit phase'')
      else Inr (op\<lparr>op_state := Op_committed\<rparr>))"

lemmas op_record_defs = record_preprepare_def record_prepare_def record_commit_def set_session_def

section \<open>The vote thresholds\<close>

definition op_bound :: "nat \<Rightarrow> nat" where
  "op_bound n = (n - 1) div 3"

definition op_quorum :: "nat \<Rightarrow> nat" where
  "op_quorum n = 2 * op_bound n + 1"

lemma faulty_nodes_bound_nat:
  assumes "0 < length (op_peers op)" and "length (op_peers op) < 2 ^ 64"
  shows "unat (faulty_nodes_bound op) = op_bound (length (op_peers op))"
proof -
  let ?n = "length (op_peers op)"
  have n: "unat (word_of_nat ?n :: u64) = ?n" using assms(2) by (simp add: unat_of_nat)
  then have "unat (word_of_nat ?n - 1 :: u64) = ?n - 1"
    using assms(1) by (metis bot_nat_0.not_eq_extremum unat_0 unat_minus_one)
  then show ?thesis by (simp add: faulty_nodes_bound_def op_bound_def unat_div)
qed

lemma two_faulty_nodes_bound_nat:
  assumes "0 < length (op_peers op)" and "length (op_peers op) < 2 ^ 64"
  shows "unat (2 * faulty_nodes_bound op) = 2 * op_bound (length (op_peers op))"
proof -
  have "2 * op_bound (length (op_peers op)) < 2 ^ 64" using assms by (simp add: op_bound_def)
  then show ?thesis using faulty_nodes_bound_nat [OF assms] by (simp add: unat_word_ariths)
qed

lemma is_prepared_iff:
  assumes "0 < length (op_peers op)" and "length (op_peers op) < 2 ^ 64"
  shows "is_prepared op \<longleftrightarrow> preprepare_seen op
     \<and> op_quorum (length (op_peers op)) \<le> card (prepares_seen op)"
  using two_faulty_nodes_bound_nat [OF assms]
  by (auto simp: is_prepared_def op_quorum_def)

lemma is_committed_iff:
  assumes "0 < length (op_peers op)" and "length (op_peers op) < 2 ^ 64"
  shows "is_committed op \<longleftrightarrow> is_prepared op
     \<and> op_quorum (length (op_peers op)) \<le> card (commits_seen op)"
  using two_faulty_nodes_bound_nat [OF assms]
  by (auto simp: is_committed_def op_quorum_def)

interpretation op_q: live_quorum_size op_bound op_quorum "\<lambda>n. n mod 3 = 1"
proof unfold_locales
  fix n :: nat
  assume "n mod 3 = 1"
  then show "n + op_bound n < 2 * op_quorum n" "op_quorum n + op_bound n \<le> n"
    unfolding op_quorum_def op_bound_def by presburger+
qed

section \<open>The phase machine\<close>

text \<open>
  Every change an operation undergoes: votes are recorded in any order and any number of times, the
  phases advance only through \<open>begin_commit_phase\<close> and \<open>end_commit_phase\<close>.
\<close>

inductive op_step :: "pbft_operation \<Rightarrow> pbft_operation \<Rightarrow> bool" where
  preprepare: "op_step op (record_preprepare op)"
| prepare: "op_step op (record_prepare sender op)"
| commit: "op_step op (record_commit sender op)"
| session: "op_step op (set_session session op)"
| begin_commit: "begin_commit_phase op = Inr op' \<Longrightarrow> op_step op op'"
| end_commit: "end_commit_phase op = Inr op' \<Longrightarrow> op_step op op'"

inductive op_reachable :: "pbft_operation \<Rightarrow> bool" where
  start: "op_reachable (new_operation view sequence request peers)"
| step: "op_reachable op \<Longrightarrow> op_step op op' \<Longrightarrow> op_reachable op'"

inductive_cases op_stepE: "op_step op op'"

definition op_inv :: "pbft_operation \<Rightarrow> bool" where
  "op_inv op \<longleftrightarrow> finite (prepares_seen op) \<and> finite (commits_seen op)
     \<and> (op_state op \<noteq> Op_prepare \<longrightarrow> is_prepared op)
     \<and> (op_state op = Op_committed \<longrightarrow> is_committed op)"

lemma op_inv_new [simp]: "op_inv (new_operation v s r ps)"
  by (simp add: op_inv_def new_operation_def)

lemma op_fixed_fields:
  "op_step op op' \<Longrightarrow> op_view op' = op_view op \<and> op_sequence op' = op_sequence op
     \<and> op_request op' = op_request op \<and> op_peers op' = op_peers op"
  by (erule op_stepE)
    (auto simp: op_record_defs begin_commit_phase_def end_commit_phase_def split: if_splits)

lemma bound_update_simps [simp]:
  "faulty_nodes_bound (op\<lparr>preprepare_seen := b\<rparr>) = faulty_nodes_bound op"
  "faulty_nodes_bound (op\<lparr>prepares_seen := p\<rparr>) = faulty_nodes_bound op"
  "faulty_nodes_bound (op\<lparr>commits_seen := p\<rparr>) = faulty_nodes_bound op"
  "faulty_nodes_bound (op\<lparr>op_state := st\<rparr>) = faulty_nodes_bound op"
  "faulty_nodes_bound (op\<lparr>listener_session := ls\<rparr>) = faulty_nodes_bound op"
  by (simp_all add: faulty_nodes_bound_def)

lemma card_insert_mono: "finite A \<Longrightarrow> b < card A \<Longrightarrow> b < card (insert x A)"
  by (simp add: card_insert_if)

lemma record_keeps_certificates:
  assumes "finite (prepares_seen op)" "finite (commits_seen op)"
  shows "is_prepared op \<Longrightarrow> is_prepared (record_preprepare op)"
    and "is_prepared op \<Longrightarrow> is_prepared (record_prepare x op)"
    and "is_prepared op \<Longrightarrow> is_prepared (record_commit x op)"
    and "is_prepared op \<Longrightarrow> is_prepared (set_session ls op)"
    and "is_committed op \<Longrightarrow> is_committed (record_preprepare op)"
    and "is_committed op \<Longrightarrow> is_committed (record_prepare x op)"
    and "is_committed op \<Longrightarrow> is_committed (record_commit x op)"
    and "is_committed op \<Longrightarrow> is_committed (set_session ls op)"
  using assms by (auto simp: op_record_defs is_prepared_def is_committed_def intro: card_insert_mono)

lemma op_inv_step: "op_step op op' \<Longrightarrow> op_inv op \<Longrightarrow> op_inv op'"
proof (induction rule: op_step.induct)
  case (begin_commit op op')
  then show ?case
    by (auto simp: op_inv_def begin_commit_phase_def is_prepared_def is_committed_def split: if_splits)
next
  case (end_commit op op')
  then show ?case
    by (auto simp: op_inv_def end_commit_phase_def is_prepared_def is_committed_def split: if_splits)
qed (auto simp: op_inv_def record_keeps_certificates, auto simp: op_record_defs)

lemma op_inv_reachable: "op_reachable op \<Longrightarrow> op_inv op"
  by (induction rule: op_reachable.induct) (auto intro: op_inv_step)

text \<open>The order of the phases, for the monotonicity of a run.\<close>

primrec phase :: "pbft_operation_state \<Rightarrow> nat" where
  "phase Op_prepare = 0"
| "phase Op_commit = 1"
| "phase Op_committed = 2"

lemma op_step_phase:
  "op_step op op' \<Longrightarrow> phase (op_state op') = phase (op_state op)
     \<or> phase (op_state op') = Suc (phase (op_state op))"
  by (erule op_stepE)
    (auto simp: op_record_defs begin_commit_phase_def end_commit_phase_def split: if_splits)

section \<open>Properties\<close>

text \<open>
  An operation that has reached the committed phase, by whatever sequence of recorded votes and
  phase changes, has seen the preprepare, prepares from at least \<open>op_quorum n\<close> distinct senders and
  commits from at least \<open>op_quorum n\<close> distinct senders, \<open>n\<close> being the number of peers it was created
  with.
\<close>

theorem committed_has_certificates:
  assumes "op_reachable op" and "op_state op = Op_committed"
    and "0 < length (op_peers op)" and "length (op_peers op) < 2 ^ 64"
  shows "preprepare_seen op
     \<and> op_quorum (length (op_peers op)) \<le> card (prepares_seen op)
     \<and> op_quorum (length (op_peers op)) \<le> card (commits_seen op)"
  using op_inv_reachable [OF assms(1)] assms(2-)
  by (auto simp: op_inv_def is_prepared_iff is_committed_iff)

definition sample_node :: "string \<Rightarrow> peer_address_t" where
  "sample_node u = \<lparr>pa_host = ''127.0.0.1'', pa_port = 80, pa_http_port = 81, pa_name = u, pa_uuid = u\<rparr>"

definition sample_committed :: pbft_operation where
  "sample_committed = (new_operation 1 1 default_request [sample_node ''a''])
     \<lparr>preprepare_seen := True, prepares_seen := {''a''}, commits_seen := {''a''},
      op_state := Op_committed\<rparr>"

lemma sample_committed_reachable: "op_reachable sample_committed"
proof -
  let ?o = "record_commit ''a'' (record_prepare ''a'' (record_preprepare
    (new_operation 1 1 default_request [sample_node ''a''])))"
  have "op_reachable ?o"
    by (rule op_reachable.step [OF op_reachable.step [OF op_reachable.step [OF op_reachable.start]]])
      (rule op_step.intros)+
  moreover have "begin_commit_phase ?o = Inr (?o\<lparr>op_state := Op_commit\<rparr>)"
    by (simp add: begin_commit_phase_def is_prepared_def op_record_defs new_operation_def
        faulty_nodes_bound_def)
  moreover have "end_commit_phase (?o\<lparr>op_state := Op_commit\<rparr>) = Inr sample_committed"
    by (simp add: end_commit_phase_def is_prepared_def is_committed_def op_record_defs
        new_operation_def faulty_nodes_bound_def sample_committed_def)
  ultimately show ?thesis by (meson op_reachable.step op_step.begin_commit op_step.end_commit)
qed

theorem committed_has_certificates_witness:
  "op_quorum 1 \<le> card (prepares_seen sample_committed)
     \<and> op_quorum 1 \<le> card (commits_seen sample_committed)"
  using committed_has_certificates [OF sample_committed_reachable]
  by (simp add: sample_committed_def new_operation_def)

text \<open>
  The phases are entered in order and never left backwards: a phase change is refused with the
  exception unless the certificate is complete and the operation is in the preceding phase, and
  recording votes never changes the phase.
\<close>

theorem phase_changes_guarded:
  "begin_commit_phase op = (if is_prepared op \<and> op_state op = Op_prepare
       then Inr (op\<lparr>op_state := Op_commit\<rparr>)
       else Inl (Runtime_error ''Illegaly tried to move to commit phase''))
   \<and> end_commit_phase op = (if is_committed op \<and> op_state op = Op_commit
       then Inr (op\<lparr>op_state := Op_committed\<rparr>)
       else Inl (Runtime_error ''Illegally tried to end the commit phase''))
   \<and> (\<forall>op'. op_step op op' \<longrightarrow> phase (op_state op') \<in> {phase (op_state op), Suc (phase (op_state op))})"
  using op_step_phase by (auto simp: begin_commit_phase_def end_commit_phase_def)

theorem phase_changes_guarded_witness:
  "end_commit_phase (new_operation 1 1 default_request [sample_node ''a''])
     = Inl (Runtime_error ''Illegally tried to end the commit phase'')"
  using phase_changes_guarded [of "new_operation 1 1 default_request [sample_node ''a'']"]
  by (simp add: new_operation_def)

text \<open>
  The vote threshold of an operation makes any two certificates share a correct node exactly
  for groups of \<open>3f + 1\<close> peers: for every other positive group size two sets of \<open>op_quorum n\<close> voters
  can overlap in nodes that are all among the \<open>op_bound n\<close> faulty ones.
\<close>

theorem op_quorum_overlap_iff:
  assumes "0 < n"
  shows "n + op_bound n < 2 * op_quorum n \<longleftrightarrow> n mod 3 = 1"
proof
  assume "n + op_bound n < 2 * op_quorum n"
  with assms show "n mod 3 = 1" unfolding op_quorum_def op_bound_def by presburger
next
  assume "n mod 3 = 1"
  then show "n + op_bound n < 2 * op_quorum n" by (rule op_q.overlap)
qed

theorem op_quorum_overlap_iff_witness: "\<not> 5 + op_bound 5 < 2 * op_quorum 5"
  using op_quorum_overlap_iff [of 5] by simp

end
