(* ===== verification/Failure_Detector.thy ===== *)
theory Failure_Detector
  imports Pbft_Operation
begin

text \<open>
  The PBFT failure detector, \<open>pbft/pbft_failure_detector.cpp\<close>. \<open>fd_waits\<close> counts the waits pending on
  its timer: \<open>start_timer\<close> adds one, and every wait completes by calling \<open>handle_timeout\<close>, which
  ignores the error code, so a cancelled wait calls it like an expired one. \<open>fd_posted\<close> counts the
  calls of the failure handler posted to the io context.
\<close>

section \<open>State and operations\<close>

record failure_detector =
  ordered_requests :: "pbft_request list"
  outstanding_requests :: "hash_t set"
  completed_requests :: "hash_t set"
  fd_waits :: nat
  fd_posted :: nat

definition new_failure_detector :: failure_detector where
  "new_failure_detector = \<lparr>ordered_requests = [], outstanding_requests = {}, completed_requests = {},
     fd_waits = 0, fd_posted = 0\<rparr>"

definition start_timer :: "failure_detector \<Rightarrow> failure_detector" where
  "start_timer fd = fd\<lparr>fd_waits := Suc (fd_waits fd)\<rparr>"

definition request_seen :: "(pbft_request \<Rightarrow> string) \<Rightarrow> pbft_request \<Rightarrow> failure_detector \<Rightarrow> failure_detector" where
  "request_seen sds req fd =
     (let req_hash = request_hash sds req in
      if req_hash \<notin> outstanding_requests fd \<and> req_hash \<notin> completed_requests fd
      then (let fd' = fd\<lparr>ordered_requests := ordered_requests fd @ [req],
                         outstanding_requests := insert req_hash (outstanding_requests fd)\<rparr>
            in if length (ordered_requests fd') = 1 then start_timer fd' else fd')
      else fd)"

definition request_executed :: "(pbft_request \<Rightarrow> string) \<Rightarrow> pbft_request \<Rightarrow> failure_detector \<Rightarrow> failure_detector" where
  "request_executed sds req fd =
     (let req_hash = request_hash sds req in
      fd\<lparr>outstanding_requests := outstanding_requests fd - {req_hash},
         completed_requests := insert req_hash (completed_requests fd)\<rparr>)"

text \<open>\<open>ordered_requests.front()\<close> is read before anything is checked.\<close>

definition handle_timeout :: "(pbft_request \<Rightarrow> string) \<Rightarrow> failure_detector \<Rightarrow> failure_detector res" where
  "handle_timeout sds fd =
     (case ordered_requests fd of
        [] \<Rightarrow> Inl (Undefined_behaviour ''front() of an empty list'')
      | front # _ \<Rightarrow>
          if request_hash sds front \<notin> completed_requests fd
          then Inr ((start_timer fd)\<lparr>fd_posted := Suc (fd_posted fd)\<rparr>)
          else
            (let fd' = fd\<lparr>ordered_requests :=
                   dropWhile (\<lambda>r. request_hash sds r \<in> completed_requests fd) (ordered_requests fd)\<rparr>
             in Inr (if ordered_requests fd' \<noteq> [] then start_timer fd' else fd')))"

lemmas fd_defs = start_timer_def request_seen_def request_executed_def handle_timeout_def Let_def

section \<open>Runs\<close>

text \<open>A run interleaves the calls of PBFT with completions of pending waits.\<close>

inductive fd_reachable :: "(pbft_request \<Rightarrow> string) \<Rightarrow> failure_detector \<Rightarrow> bool" for sds where
  start: "fd_reachable sds new_failure_detector"
| seen: "fd_reachable sds fd \<Longrightarrow> fd_reachable sds (request_seen sds req fd)"
| executed: "fd_reachable sds fd \<Longrightarrow> fd_reachable sds (request_executed sds req fd)"
| timeout: "fd_reachable sds fd \<Longrightarrow> fd_waits fd = Suc n
    \<Longrightarrow> handle_timeout sds (fd\<lparr>fd_waits := n\<rparr>) = Inr fd' \<Longrightarrow> fd_reachable sds fd'"

definition fd_inv :: "(pbft_request \<Rightarrow> string) \<Rightarrow> failure_detector \<Rightarrow> bool" where
  "fd_inv sds fd \<longleftrightarrow> fd_waits fd = (if ordered_requests fd = [] then 0 else 1)
     \<and> distinct (map (request_hash sds) (ordered_requests fd))
     \<and> (\<forall>r \<in> set (ordered_requests fd).
          request_hash sds r \<in> outstanding_requests fd \<union> completed_requests fd)
     \<and> outstanding_requests fd \<subseteq> request_hash sds ` set (ordered_requests fd)
     \<and> outstanding_requests fd \<inter> completed_requests fd = {}"

lemma fd_inv_new: "fd_inv sds new_failure_detector"
  by (simp add: fd_inv_def new_failure_detector_def)

lemma fd_inv_seen: "fd_inv sds fd \<Longrightarrow> fd_inv sds (request_seen sds req fd)"
  by (auto simp: fd_inv_def fd_defs)

lemma fd_inv_executed: "fd_inv sds fd \<Longrightarrow> fd_inv sds (request_executed sds req fd)"
  by (auto simp: fd_inv_def fd_defs)

lemma set_dropWhile_completed:
  "set xs \<subseteq> set (dropWhile P xs) \<union> {x. P x}"
  by (induction xs) auto

lemma distinct_map_dropWhile: "distinct (map f xs) \<Longrightarrow> distinct (map f (dropWhile P xs))"
  by (induction xs) auto

lemma fd_inv_timeout:
  assumes "fd_inv sds fd" "fd_waits fd = Suc n" "handle_timeout sds (fd\<lparr>fd_waits := n\<rparr>) = Inr fd'"
  shows "fd_inv sds fd'"
proof -
  obtain front rest where o: "ordered_requests fd = front # rest" and n: "n = 0"
    using assms(1,2) by (cases "ordered_requests fd") (auto simp: fd_inv_def)
  let ?left = "dropWhile (\<lambda>r. request_hash sds r \<in> completed_requests fd) (front # rest)"
  have sub: "outstanding_requests fd \<subseteq> request_hash sds ` set ?left"
  proof
    fix h
    assume h: "h \<in> outstanding_requests fd"
    have "outstanding_requests fd \<subseteq> request_hash sds ` set (front # rest)"
      using assms(1) unfolding fd_inv_def o by blast
    with h obtain r where r: "r \<in> set (front # rest)" "h = request_hash sds r"
      by blast
    moreover have "h \<notin> completed_requests fd" using h assms(1) by (auto simp: fd_inv_def)
    ultimately have "r \<in> set ?left"
      using set_dropWhile_completed [of "front # rest" "\<lambda>r. request_hash sds r \<in> completed_requests fd"]
      by blast
    with r(2) show "h \<in> request_hash sds ` set ?left" by blast
  qed
  have dist: "distinct (map (request_hash sds) ?left)"
    using assms(1) o by (intro distinct_map_dropWhile) (simp add: fd_inv_def)
  have "\<forall>r \<in> set (front # rest). request_hash sds r \<in> outstanding_requests fd \<union> completed_requests fd"
    using assms(1) o by (simp add: fd_inv_def)
  then have mem: "\<forall>r \<in> set ?left. request_hash sds r \<in> outstanding_requests fd \<union> completed_requests fd"
    by (meson set_dropWhileD)
  show ?thesis
  proof (cases "request_hash sds front \<in> completed_requests fd")
    case True
    then have "fd' = (let f = fd\<lparr>fd_waits := 0, ordered_requests := ?left\<rparr> in
        if ?left \<noteq> [] then f\<lparr>fd_waits := 1\<rparr> else f)"
      using assms(3) o n
      by (auto simp: handle_timeout_def start_timer_def Let_def simp del: dropWhile_eq_Nil_conv)
    then show ?thesis using sub dist mem assms(1)
      by (cases "?left = []") (auto simp: fd_inv_def simp del: dropWhile_eq_Nil_conv dropWhile.simps)
  next
    case False
    then have "fd' = fd\<lparr>fd_waits := 1, fd_posted := Suc (fd_posted fd)\<rparr>"
      using assms(3) o n by (simp add: handle_timeout_def start_timer_def)
    then show ?thesis using assms(1) o by (simp add: fd_inv_def)
  qed
qed

lemma fd_inv_reachable: "fd_reachable sds fd \<Longrightarrow> fd_inv sds fd"
  by (induction rule: fd_reachable.induct)
    (auto intro: fd_inv_new fd_inv_seen fd_inv_executed fd_inv_timeout)

section \<open>Properties\<close>

text \<open>
  C40: In every run the detector waits on its timer exactly while it knows of a request that it has
  not dropped, and then on exactly one wait; so a completed wait always finds a front element and
  \<open>handle_timeout\<close> never reads an empty list.
\<close>

theorem timeout_never_stuck:
  assumes "fd_reachable sds fd"
  shows "fd_waits fd = (if ordered_requests fd = [] then 0 else 1)
     \<and> (fd_waits fd = Suc n \<longrightarrow> (\<exists>fd'. handle_timeout sds (fd\<lparr>fd_waits := n\<rparr>) = Inr fd'))"
  using fd_inv_reachable [OF assms]
  by (cases "ordered_requests fd") (auto simp: fd_inv_def handle_timeout_def Let_def)

theorem timeout_never_stuck_witness:
  "fd_waits (request_seen (\<lambda>_. ''h'') default_request new_failure_detector) = 1"
  using timeout_never_stuck [OF fd_reachable.seen [OF fd_reachable.start], of "\<lambda>_. ''h''" default_request 0]
  by (simp add: fd_defs new_failure_detector_def request_hash_def)

text \<open>
  At a timeout the failure handler is posted if and only if the oldest request still queued has
  not been executed; the queue then keeps every request, and otherwise drops exactly the executed
  requests at its head. Requests are queued once however often they are seen.
\<close>

theorem timeout_reports_unexecuted:
  assumes "fd_reachable sds fd" and "fd_waits fd = Suc n"
    and "handle_timeout sds (fd\<lparr>fd_waits := n\<rparr>) = Inr fd'"
  shows "\<exists>oldest rest. ordered_requests fd = oldest # rest
     \<and> (fd_posted fd' = Suc (fd_posted fd) \<longleftrightarrow> request_hash sds oldest \<notin> completed_requests fd)
     \<and> (fd_posted fd' = fd_posted fd \<longleftrightarrow> request_hash sds oldest \<in> completed_requests fd)
     \<and> ordered_requests fd' =
         dropWhile (\<lambda>r. request_hash sds r \<in> completed_requests fd) (ordered_requests fd)
     \<and> distinct (map (request_hash sds) (ordered_requests fd'))"
proof -
  have inv: "fd_inv sds fd" "fd_inv sds fd'"
    using fd_inv_reachable assms(1) fd_reachable.timeout [OF assms] by blast+
  then obtain oldest rest where o: "ordered_requests fd = oldest # rest"
    using assms(2) by (cases "ordered_requests fd") (auto simp: fd_inv_def)
  have "ordered_requests fd' =
      dropWhile (\<lambda>r. request_hash sds r \<in> completed_requests fd) (oldest # rest)"
    using assms(3) o
    by (auto simp: handle_timeout_def start_timer_def Let_def simp del: dropWhile_eq_Nil_conv split: if_splits)
  moreover have "fd_posted fd' =
      (if request_hash sds oldest \<in> completed_requests fd then fd_posted fd else Suc (fd_posted fd))"
    using assms(3) o
    by (auto simp: handle_timeout_def start_timer_def Let_def simp del: dropWhile_eq_Nil_conv split: if_splits)
  ultimately show ?thesis using o inv(2) by (simp add: fd_inv_def)
qed

theorem timeout_reports_unexecuted_witness:
  "\<exists>fd'. handle_timeout (\<lambda>_. ''h'')
       ((request_seen (\<lambda>_. ''h'') default_request new_failure_detector)\<lparr>fd_waits := 0\<rparr>) = Inr fd'
     \<and> fd_posted fd' = 1"
proof -
  let ?fd = "request_seen (\<lambda>_. ''h'') default_request new_failure_detector"
  have fd: "?fd = \<lparr>ordered_requests = [default_request], outstanding_requests = {''h''},
      completed_requests = {}, fd_waits = 1, fd_posted = 0\<rparr>"
    by (simp add: fd_defs new_failure_detector_def request_hash_def)
  have reach: "fd_reachable (\<lambda>_. ''h'') ?fd"
    by (rule fd_reachable.seen [OF fd_reachable.start])
  have waits: "fd_waits ?fd = Suc 0" by (simp add: fd)
  have run: "handle_timeout (\<lambda>_. ''h'') (?fd\<lparr>fd_waits := 0\<rparr>) = Inr (?fd\<lparr>fd_posted := 1\<rparr>)"
    unfolding fd by (simp add: handle_timeout_def start_timer_def request_hash_def)
  from timeout_reports_unexecuted [OF reach waits run] run show ?thesis
    by (auto simp: fd request_hash_def)
qed

end
