(* ===== verification/Storage.thy ===== *)
theory Storage
  imports Messages
begin

text \<open>
  The storage interface \<open>storage/storage_base.hpp\<close> and its in-memory implementation
  \<open>storage/mem_storage.cpp\<close>. \<open>storage_vt\<close> is the class's table of virtual functions; the locale
  \<open>storage_spec\<close> is the contract its clients (\<open>Crud\<close>, \<open>Pbft_Service\<close>) rely on, stated against the
  abstract store \<open>kv\<close> (for each database, a partial map from keys to values), and the
  interpretation \<open>mem\<close> discharges it for \<open>mem_storage\<close>.
\<close>

section \<open>The interface\<close>

datatype storage_result =
  result_ok | not_found | exists | not_saved | value_too_large | key_too_large

definition MAX_KEY_SIZE :: nat where
  "MAX_KEY_SIZE = 4096"

definition MAX_VALUE_SIZE :: nat where
  "MAX_VALUE_SIZE = 256000"

record 's storage_vt =
  vt_create :: "'s \<Rightarrow> uuid_t \<Rightarrow> key_t \<Rightarrow> value_t \<Rightarrow> storage_result \<times> 's"
  vt_read :: "'s \<Rightarrow> uuid_t \<Rightarrow> key_t \<Rightarrow> value_t option"
  vt_update :: "'s \<Rightarrow> uuid_t \<Rightarrow> key_t \<Rightarrow> value_t \<Rightarrow> storage_result \<times> 's"
  vt_remove :: "'s \<Rightarrow> uuid_t \<Rightarrow> key_t \<Rightarrow> storage_result \<times> 's"
  vt_get_keys :: "'s \<Rightarrow> uuid_t \<Rightarrow> key_t list"
  vt_has :: "'s \<Rightarrow> uuid_t \<Rightarrow> key_t \<Rightarrow> bool"
  vt_get_size :: "'s \<Rightarrow> uuid_t \<Rightarrow> nat \<times> nat"

section \<open>The abstract store\<close>

type_synonym kv = "uuid_t \<Rightarrow> key_t \<rightharpoonup> value_t"

definition kv_put :: "uuid_t \<Rightarrow> key_t \<Rightarrow> value_t option \<Rightarrow> kv \<Rightarrow> kv" where
  "kv_put u k v m = m(u := (m u)(k := v))"

lemma kv_put_apply [simp]:
  "kv_put u k v m u' k' = (if u' = u \<and> k' = k then v else m u' k')"
  by (simp add: kv_put_def)

definition create_spec :: "kv \<Rightarrow> uuid_t \<Rightarrow> key_t \<Rightarrow> value_t \<Rightarrow> storage_result \<Rightarrow> kv \<Rightarrow> bool" where
  "create_spec m u k v r m' \<longleftrightarrow>
     (if MAX_VALUE_SIZE < length v then r = value_too_large \<and> m' = m
      else if MAX_KEY_SIZE < length k then r = key_too_large \<and> m' = m
      else if m u k \<noteq> None then r = exists \<and> m' = m
      else (r = result_ok \<and> m' = kv_put u k (Some v) m) \<or> (r = not_saved \<and> m' = m))"

definition update_spec :: "kv \<Rightarrow> uuid_t \<Rightarrow> key_t \<Rightarrow> value_t \<Rightarrow> storage_result \<Rightarrow> kv \<Rightarrow> bool" where
  "update_spec m u k v r m' \<longleftrightarrow>
     (if MAX_VALUE_SIZE < length v then r = value_too_large \<and> m' = m
      else if m u k = None then r = not_found \<and> m' = m
      else (r = result_ok \<and> m' = kv_put u k (Some v) m) \<or> (r = not_saved \<and> m' = m))"

definition remove_spec :: "kv \<Rightarrow> uuid_t \<Rightarrow> key_t \<Rightarrow> storage_result \<Rightarrow> kv \<Rightarrow> bool" where
  "remove_spec m u k r m' \<longleftrightarrow>
     (if m u k = None then r = not_found \<and> m' = m
      else (r = result_ok \<and> m' = kv_put u k None m) \<or> (r = not_found \<and> m' = m))"

lemmas storage_specs = create_spec_def update_spec_def remove_spec_def

section \<open>The contract\<close>

text \<open>
  \<open>named u\<close> holds of the database names the implementation keeps apart; \<open>abs\<close> reads the abstract
  store off the implementation's state.
\<close>

locale storage_spec =
  fixes vt :: "'s storage_vt"
    and inv :: "'s \<Rightarrow> bool"
    and abs :: "'s \<Rightarrow> kv"
    and named :: "uuid_t \<Rightarrow> bool"
  assumes create_refines: "inv s \<Longrightarrow> named u
      \<Longrightarrow> create_spec (abs s) u k v (fst (vt_create vt s u k v)) (abs (snd (vt_create vt s u k v)))"
    and update_refines: "inv s \<Longrightarrow> named u
      \<Longrightarrow> update_spec (abs s) u k v (fst (vt_update vt s u k v)) (abs (snd (vt_update vt s u k v)))"
    and remove_refines: "inv s \<Longrightarrow> named u
      \<Longrightarrow> remove_spec (abs s) u k (fst (vt_remove vt s u k)) (abs (snd (vt_remove vt s u k)))"
    and read_refines: "inv s \<Longrightarrow> named u \<Longrightarrow> vt_read vt s u k = abs s u k"
    and has_refines: "inv s \<Longrightarrow> named u \<Longrightarrow> vt_has vt s u k \<longleftrightarrow> abs s u k \<noteq> None"
    and keys_refines: "inv s \<Longrightarrow> named u
      \<Longrightarrow> distinct (vt_get_keys vt s u) \<and> set (vt_get_keys vt s u) = dom (abs s u)"
    and size_refines: "inv s \<Longrightarrow> named u
      \<Longrightarrow> vt_get_size vt s u = (card (dom (abs s u)), (\<Sum>k\<in>dom (abs s u). length (the (abs s u k))))"
    and create_inv: "inv s \<Longrightarrow> inv (snd (vt_create vt s u k v))"
    and update_inv: "inv s \<Longrightarrow> inv (snd (vt_update vt s u k v))"
    and remove_inv: "inv s \<Longrightarrow> inv (snd (vt_remove vt s u k))"
begin

lemma read_after_create:
  assumes "inv s" "named u" "fst (vt_create vt s u k v) = result_ok" "named u'"
  shows "vt_read vt (snd (vt_create vt s u k v)) u' k'
    = (if u' = u \<and> k' = k then Some v else vt_read vt s u' k')"
  using assms create_refines [OF assms(1,2), of k v]
  by (auto simp: create_spec_def read_refines create_inv split: if_splits)

lemma read_after_update:
  assumes "inv s" "named u" "fst (vt_update vt s u k v) = result_ok" "named u'"
  shows "vt_read vt (snd (vt_update vt s u k v)) u' k'
    = (if u' = u \<and> k' = k then Some v else vt_read vt s u' k')"
  using assms update_refines [OF assms(1,2), of k v]
  by (auto simp: update_spec_def read_refines update_inv split: if_splits)

lemma read_after_remove:
  assumes "inv s" "named u" "fst (vt_remove vt s u k) = result_ok" "named u'"
  shows "vt_read vt (snd (vt_remove vt s u k)) u' k'
    = (if u' = u \<and> k' = k then None else vt_read vt s u' k')"
  using assms remove_refines [OF assms(1,2), of k]
  by (auto simp: remove_spec_def read_refines remove_inv split: if_splits)

lemma failed_create_no_effect:
  assumes "inv s" "named u" "fst (vt_create vt s u k v) \<noteq> result_ok"
  shows "abs (snd (vt_create vt s u k v)) = abs s"
  using assms create_refines [OF assms(1,2), of k v]
  by (auto simp: create_spec_def split: if_splits)

end

section \<open>\<open>mem_storage\<close>\<close>

type_synonym mem_storage = "(uuid_t, (key_t, value_t) umap) umap"

definition mem_create :: "mem_storage \<Rightarrow> uuid_t \<Rightarrow> key_t \<Rightarrow> value_t \<Rightarrow> storage_result \<times> mem_storage" where
  "mem_create s u k v =
     (if MAX_VALUE_SIZE < length v then (value_too_large, s)
      else if MAX_KEY_SIZE < length k then (key_too_large, s)
      else if (case map_of s u of None \<Rightarrow> False | Some search \<Rightarrow> map_of search k \<noteq> None)
      then (exists, s)
      else
        (let inner_db = (case map_of s u of None \<Rightarrow> [] | Some d \<Rightarrow> d) in
         if map_of inner_db k = None
         then (result_ok, AList.update u (AList.update k v inner_db) s)
         else (exists, AList.update u inner_db s)))"

definition mem_read :: "mem_storage \<Rightarrow> uuid_t \<Rightarrow> key_t \<Rightarrow> value_t option" where
  "mem_read s u k =
     (case map_of s u of None \<Rightarrow> None
      | Some inner_db \<Rightarrow> (case map_of inner_db k of None \<Rightarrow> None | Some v \<Rightarrow> Some v))"

definition mem_update :: "mem_storage \<Rightarrow> uuid_t \<Rightarrow> key_t \<Rightarrow> value_t \<Rightarrow> storage_result \<times> mem_storage" where
  "mem_update s u k v =
     (if MAX_VALUE_SIZE < length v then (value_too_large, s)
      else case map_of s u of
        None \<Rightarrow> (not_found, s)
      | Some inner_db \<Rightarrow>
          (if map_of inner_db k = None then (not_found, s)
           else (result_ok, AList.update u (AList.update k v inner_db) s)))"

definition mem_remove :: "mem_storage \<Rightarrow> uuid_t \<Rightarrow> key_t \<Rightarrow> storage_result \<times> mem_storage" where
  "mem_remove s u k =
     (case map_of s u of
        None \<Rightarrow> (not_found, s)
      | Some search \<Rightarrow>
          (if map_of search k = None then (not_found, s)
           else (result_ok, AList.update u (AList.delete k search) s)))"

definition mem_get_keys :: "mem_storage \<Rightarrow> uuid_t \<Rightarrow> key_t list" where
  "mem_get_keys s u = (case map_of s u of None \<Rightarrow> [] | Some inner_db \<Rightarrow> map fst inner_db)"

definition mem_has :: "mem_storage \<Rightarrow> uuid_t \<Rightarrow> key_t \<Rightarrow> bool" where
  "mem_has s u k = (k \<in> set (mem_get_keys s u))"

definition mem_get_size :: "mem_storage \<Rightarrow> uuid_t \<Rightarrow> nat \<times> nat" where
  "mem_get_size s u =
     (case map_of s u of
        None \<Rightarrow> (0, 0)
      | Some db \<Rightarrow> fold (\<lambda>record (keys, size). (keys + 1, size + length (snd record))) db (0, 0))"

definition mem_vt :: "mem_storage storage_vt" where
  "mem_vt = \<lparr>vt_create = mem_create, vt_read = mem_read, vt_update = mem_update,
     vt_remove = mem_remove, vt_get_keys = mem_get_keys, vt_has = mem_has,
     vt_get_size = mem_get_size\<rparr>"

lemmas mem_defs = mem_create_def mem_read_def mem_update_def mem_remove_def mem_get_keys_def
  mem_has_def mem_get_size_def

section \<open>Correctness of \<open>mem_storage\<close>\<close>

definition mem_inv :: "mem_storage \<Rightarrow> bool" where
  "mem_inv s \<longleftrightarrow> umap_ok s \<and> (\<forall>u db. map_of s u = Some db \<longrightarrow> umap_ok db)"

definition mem_abs :: "mem_storage \<Rightarrow> kv" where
  "mem_abs s u = (case map_of s u of None \<Rightarrow> Map.empty | Some db \<Rightarrow> map_of db)"

lemma mem_inv_empty [simp]: "mem_inv []"
  by (simp add: mem_inv_def)

lemma mem_inv_put: "mem_inv s \<Longrightarrow> umap_ok db \<Longrightarrow> mem_inv (AList.update u db s)"
  by (auto simp: mem_inv_def)

lemma mem_abs_put:
  "mem_abs (AList.update u db s) = (mem_abs s)(u := map_of db)"
  by (auto simp: mem_abs_def fun_eq_iff)

lemma mem_create_inv: "mem_inv s \<Longrightarrow> mem_inv (snd (mem_create s u k v))"
  by (auto simp: mem_create_def Let_def mem_inv_put mem_inv_def split: option.splits)

lemma mem_update_inv: "mem_inv s \<Longrightarrow> mem_inv (snd (mem_update s u k v))"
  by (auto simp: mem_update_def mem_inv_put mem_inv_def split: option.splits)

lemma mem_remove_inv: "mem_inv s \<Longrightarrow> mem_inv (snd (mem_remove s u k))"
  by (auto simp: mem_remove_def mem_inv_put mem_inv_def split: option.splits)

lemma mem_get_size_fold:
  "fold (\<lambda>record (keys, size). (Suc keys, size + length (snd record))) db (a, b)
    = (a + length db, b + (\<Sum>r\<leftarrow>db. length (snd r)))"
  by (induction db arbitrary: a b) auto

lemma sum_list_dom:
  assumes "umap_ok db"
  shows "(\<Sum>r\<leftarrow>db. length (snd r)) = (\<Sum>k\<in>dom (map_of db). length (the (map_of db k)))"
  using assms
proof (induction db)
  case (Cons e db)
  obtain k v where e: "e = (k, v)" by (cases e)
  with Cons.prems have k: "k \<notin> dom (map_of db)" and db: "umap_ok db"
    by (auto simp: umap_ok_def dom_map_of_conv_image_fst)
  have "(\<Sum>j\<in>dom (map_of db). length (the (map_of (e # db) j)))
      = (\<Sum>j\<in>dom (map_of db). length (the (map_of db j)))"
    using k e by (intro sum.cong) auto
  moreover have "dom (map_of (e # db)) = insert k (dom (map_of db))"
    using e by auto
  ultimately show ?case using Cons.IH [OF db] k e
    by (simp add: finite_dom_map_of fun_upd_same del: fun_upd_apply)
qed simp

lemma mem_get_size_abs:
  assumes "mem_inv s"
  shows "mem_get_size s u
    = (card (dom (mem_abs s u)), (\<Sum>k\<in>dom (mem_abs s u). length (the (mem_abs s u k))))"
proof (cases "map_of s u")
  case (Some db)
  with assms have db: "umap_ok db" by (auto simp: mem_inv_def)
  then have "length db = card (dom (map_of db))"
    by (simp add: umap_size dom_map_of_conv_image_fst)
  with Some db show ?thesis
    by (simp add: mem_get_size_def mem_abs_def mem_get_size_fold sum_list_dom)
qed (simp add: mem_get_size_def mem_abs_def)

lemma mem_create_refines:
  "create_spec (mem_abs s) u k v (fst (mem_create s u k v)) (mem_abs (snd (mem_create s u k v)))"
  by (auto simp: mem_create_def create_spec_def mem_abs_put kv_put_def mem_abs_def Let_def
      split: option.splits)

lemma mem_update_refines:
  "update_spec (mem_abs s) u k v (fst (mem_update s u k v)) (mem_abs (snd (mem_update s u k v)))"
  by (auto simp: mem_update_def update_spec_def mem_abs_put kv_put_def mem_abs_def
      split: option.splits)

lemma mem_remove_refines:
  "remove_spec (mem_abs s) u k (fst (mem_remove s u k)) (mem_abs (snd (mem_remove s u k)))"
  by (auto simp: mem_remove_def remove_spec_def mem_abs_put kv_put_def mem_abs_def
      split: option.splits)

lemma mem_get_keys_abs:
  assumes "mem_inv s"
  shows "distinct (mem_get_keys s u) \<and> set (mem_get_keys s u) = dom (mem_abs s u)"
proof (cases "map_of s u")
  case (Some db)
  with assms have "umap_ok db" by (simp add: mem_inv_def)
  with Some show ?thesis
    by (simp add: mem_get_keys_def mem_abs_def umap_ok_def dom_map_of_conv_image_fst)
qed (simp add: mem_get_keys_def mem_abs_def)

interpretation mem: storage_spec mem_vt mem_inv mem_abs "\<lambda>_. True"
proof unfold_locales
  show "vt_has mem_vt s u k \<longleftrightarrow> mem_abs s u k \<noteq> None" if "mem_inv s" for s u k
    using mem_get_keys_abs [OF that, of u] by (auto simp: mem_vt_def mem_has_def)
  show "vt_read mem_vt s u k = mem_abs s u k" for s u k
    by (auto simp: mem_vt_def mem_read_def mem_abs_def split: option.splits)
qed (auto simp: mem_vt_def mem_create_refines mem_update_refines mem_remove_refines
    mem_create_inv mem_update_inv mem_remove_inv mem_get_size_abs dest: mem_get_keys_abs)



text \<open>
  Read-your-writes of the in-memory store: a successful create makes exactly the created record
  readable, and every read of another key or another database returns what it returned before.
\<close>

theorem mem_read_after_create:
  assumes "mem_inv s" and "fst (mem_create s u k v) = result_ok"
  shows "mem_read (snd (mem_create s u k v)) u' k'
    = (if u' = u \<and> k' = k then Some v else mem_read s u' k')"
  using mem.read_after_create [OF assms(1), of u k v u' k'] assms(2) by (simp add: mem_vt_def)

theorem mem_read_after_create_witness:
  "mem_read (snd (mem_create [] ''db'' ''k'' ''v'')) ''db'' ''k'' = Some ''v''"
proof -
  have "fst (mem_create [] ''db'' ''k'' ''v'') = result_ok"
    by (simp add: mem_create_def MAX_VALUE_SIZE_def MAX_KEY_SIZE_def)
  from mem_read_after_create [OF mem_inv_empty this] show ?thesis by simp
qed

text \<open>
  The reporting operations agree with the reads: \<open>get_keys\<close> lists each stored key once and
  \<open>has\<close> answers by it, and \<open>get_size\<close> counts the records and adds up the sizes of their values.
\<close>

theorem mem_keys_has_size:
  assumes "mem_inv s"
  shows "distinct (mem_get_keys s u)
       \<and> set (mem_get_keys s u) = {k. mem_read s u k \<noteq> None}
       \<and> (mem_has s u k \<longleftrightarrow> mem_read s u k \<noteq> None)
       \<and> mem_get_size s u = (length (mem_get_keys s u),
            (\<Sum>k\<leftarrow>mem_get_keys s u. length (the (mem_read s u k))))"
proof -
  have read: "mem_read s u = mem_abs s u"
    by (auto simp: mem_read_def mem_abs_def split: option.splits)
  have keys: "distinct (mem_get_keys s u)" "set (mem_get_keys s u) = dom (mem_abs s u)"
    using mem_get_keys_abs [OF assms, of u] by auto
  then have "(\<Sum>k\<leftarrow>mem_get_keys s u. length (the (mem_abs s u k)))
      = (\<Sum>k\<in>dom (mem_abs s u). length (the (mem_abs s u k)))"
    by (metis sum_list_distinct_conv_sum_set)
  moreover have "length (mem_get_keys s u) = card (dom (mem_abs s u))"
    using keys by (metis distinct_card)
  ultimately show ?thesis
    using keys read by (auto simp: mem_has_def mem_get_size_abs [OF assms] dom_def)
qed

theorem mem_keys_has_size_witness:
  "mem_get_size [(''db'', [(''k'', ''v''), (''l'', ''wx'')])] ''db'' = (2, 3)"
proof -
  have "mem_inv [(''db'', [(''k'', ''v''), (''l'', ''wx'')])]"
    by (auto simp: mem_inv_def umap_ok_def split: if_splits)
  from mem_keys_has_size [OF this, of "''db''" "''k''"] show ?thesis
    by (simp add: mem_get_keys_def mem_read_def)
qed

end
