(* ===== verification/Crud.thy ===== *)
theory Crud
  imports Storage
begin

text \<open>
  The request processor of the PBFT stack, \<open>crud/crud.cpp\<close>. Its operations take the table of the
  storage object it holds, the storage state and the request, and return the new storage state and
  the response sent on the session, if one was sent. A session is the identifier of an open one;
  \<open>None\<close> is the null pointer.

  The lemmas are proved once in \<open>storage_spec\<close>; the properties are their instances at the in-memory
  store that \<open>main.cpp\<close> hands to \<open>crud\<close>.
\<close>

section \<open>Messages\<close>

definition MSG_RECORD_EXISTS :: string where "MSG_RECORD_EXISTS = ''RECORD_EXISTS''"
definition MSG_RECORD_NOT_FOUND :: string where "MSG_RECORD_NOT_FOUND = ''RECORD_NOT_FOUND''"
definition MSG_VALUE_SIZE_TOO_LARGE :: string where "MSG_VALUE_SIZE_TOO_LARGE = ''VALUE_SIZE_TOO_LARGE''"
definition MSG_KEY_SIZE_TOO_LARGE :: string where "MSG_KEY_SIZE_TOO_LARGE = ''KEY_SIZE_TOO_LARGE''"

lemmas crud_msg_defs = MSG_RECORD_EXISTS_def MSG_RECORD_NOT_FOUND_def MSG_VALUE_SIZE_TOO_LARGE_def
  MSG_KEY_SIZE_TOO_LARGE_def

section \<open>Operations\<close>

type_synonym reply = "session_id \<times> database_response"

text \<open>\<open>crud::send_response\<close>: the response that goes out on the session.\<close>

definition send_response ::
  "database_msg \<Rightarrow> storage_result \<Rightarrow> response_body \<Rightarrow> session_id \<Rightarrow> reply" where
  "send_response request result body session =
     (session, \<lparr>resp_header = db_header request,
        resp_body =
          (if result \<noteq> result_ok then
             (if result = value_too_large then Resp_error MSG_VALUE_SIZE_TOO_LARGE
              else if result = key_too_large then Resp_error MSG_KEY_SIZE_TOO_LARGE
              else if result = exists then Resp_error MSG_RECORD_EXISTS
              else if result = not_found then Resp_error MSG_RECORD_NOT_FOUND
              else body)
           else body)\<rparr>)"

definition crud_handle_create ::
  "'s storage_vt \<Rightarrow> 's \<Rightarrow> database_msg \<Rightarrow> key_t \<Rightarrow> value_t \<Rightarrow> session_id option \<Rightarrow> 's \<times> reply option" where
  "crud_handle_create vt s request key value session =
     (let (result, s') = vt_create vt s (db_uuid (db_header request)) key value in
      (s', map_option (send_response request result Resp_not_set) session))"

definition crud_handle_read ::
  "'s storage_vt \<Rightarrow> 's \<Rightarrow> database_msg \<Rightarrow> key_t \<Rightarrow> session_id option \<Rightarrow> 's \<times> reply option" where
  "crud_handle_read vt s request key session =
     (case session of
        None \<Rightarrow> (s, None)
      | Some sess \<Rightarrow>
          (case vt_read vt s (db_uuid (db_header request)) key of
             Some value \<Rightarrow> (s, Some (send_response request result_ok (Resp_read key value) sess))
           | None \<Rightarrow> (s, Some (send_response request not_found Resp_not_set sess))))"

definition crud_handle_update ::
  "'s storage_vt \<Rightarrow> 's \<Rightarrow> database_msg \<Rightarrow> key_t \<Rightarrow> value_t \<Rightarrow> session_id option \<Rightarrow> 's \<times> reply option" where
  "crud_handle_update vt s request key value session =
     (let (result, s') = vt_update vt s (db_uuid (db_header request)) key value in
      (s', map_option (send_response request result Resp_not_set) session))"

definition crud_handle_delete ::
  "'s storage_vt \<Rightarrow> 's \<Rightarrow> database_msg \<Rightarrow> key_t \<Rightarrow> session_id option \<Rightarrow> 's \<times> reply option" where
  "crud_handle_delete vt s request key session =
     (let (result, s') = vt_remove vt s (db_uuid (db_header request)) key in
      (s', map_option (send_response request result Resp_not_set) session))"

definition crud_handle_has ::
  "'s storage_vt \<Rightarrow> 's \<Rightarrow> database_msg \<Rightarrow> key_t \<Rightarrow> session_id option \<Rightarrow> 's \<times> reply option" where
  "crud_handle_has vt s request key session =
     (s, map_option (send_response request
           (if vt_has vt s (db_uuid (db_header request)) key then result_ok else not_found)
           Resp_not_set) session)"

definition crud_handle_keys ::
  "'s storage_vt \<Rightarrow> 's \<Rightarrow> database_msg \<Rightarrow> session_id option \<Rightarrow> 's \<times> reply option" where
  "crud_handle_keys vt s request session =
     (s, map_option (send_response request result_ok
           (Resp_keys (vt_get_keys vt s (db_uuid (db_header request))))) session)"

text \<open>The two counters are 32 bit fields of the response: the conversion keeps the low bits.\<close>

definition crud_handle_size ::
  "'s storage_vt \<Rightarrow> 's \<Rightarrow> database_msg \<Rightarrow> session_id option \<Rightarrow> 's \<times> reply option" where
  "crud_handle_size vt s request session =
     (s, map_option (\<lambda>sess.
           let (keys, size) = vt_get_size vt s (db_uuid (db_header request)) in
           send_response request result_ok (Resp_size (word_of_nat size) (word_of_nat keys)) sess)
         session)"

text \<open>
  \<open>crud::handle_request\<close>: dispatch through the handler table of the constructor; a request with no
  handler (the subscription requests and the empty one) is logged and dropped.
\<close>

definition crud_handle_request ::
  "'s storage_vt \<Rightarrow> 's \<Rightarrow> database_msg \<Rightarrow> session_id option \<Rightarrow> 's \<times> reply option" where
  "crud_handle_request vt s request session =
     (case db_body request of
        Db_create key value \<Rightarrow> crud_handle_create vt s request key value session
      | Db_read key \<Rightarrow> crud_handle_read vt s request key session
      | Db_update key value \<Rightarrow> crud_handle_update vt s request key value session
      | Db_delete key \<Rightarrow> crud_handle_delete vt s request key session
      | Db_has key \<Rightarrow> crud_handle_has vt s request key session
      | Db_keys \<Rightarrow> crud_handle_keys vt s request session
      | Db_size \<Rightarrow> crud_handle_size vt s request session
      | _ \<Rightarrow> (s, None))"

lemmas crud_defs = crud_handle_create_def crud_handle_read_def crud_handle_update_def
  crud_handle_delete_def crud_handle_has_def crud_handle_keys_def crud_handle_size_def
  crud_handle_request_def

section \<open>Facts for every storage\<close>

text \<open>The storage a request leaves does not depend on whether the requester is still connected.\<close>

lemma request_session_independent:
  "fst (crud_handle_request vt s request session) = fst (crud_handle_request vt s request session')"
  by (auto simp: crud_defs split: database_body.splits option.splits prod.splits)

context storage_spec
begin

lemma request_inv: "inv s \<Longrightarrow> inv (fst (crud_handle_request vt s request session))"
  using create_inv update_inv remove_inv
  by (auto simp: crud_defs split: database_body.splits option.splits prod.splits) (metis snd_conv)+

lemma query_no_effect:
  "db_body request \<notin> {Db_create k v |k v. True} \<union> {Db_update k v |k v. True} \<union> {Db_delete k |k. True}
   \<Longrightarrow> fst (crud_handle_request vt s request session) = s"
  by (auto simp: crud_defs split: database_body.splits option.splits prod.splits)

lemma read_reply:
  assumes "inv s" "named (db_uuid (db_header request))" "db_body request = Db_read key"
  shows "crud_handle_request vt s request (Some sess) = (s, Some (sess, \<lparr>resp_header = db_header request,
     resp_body = (case abs s (db_uuid (db_header request)) key of
        None \<Rightarrow> Resp_error MSG_RECORD_NOT_FOUND | Some value \<Rightarrow> Resp_read key value)\<rparr>))"
  using assms by (simp add: crud_defs read_refines send_response_def split: option.splits)

lemma create_reply:
  assumes "inv s" "named (db_uuid (db_header request))" "db_body request = Db_create key value"
    and "length value \<le> MAX_VALUE_SIZE" "length key \<le> MAX_KEY_SIZE"
    and "abs s (db_uuid (db_header request)) key \<noteq> None"
  shows "snd (crud_handle_request vt s request (Some sess))
      = Some (sess, \<lparr>resp_header = db_header request, resp_body = Resp_error MSG_RECORD_EXISTS\<rparr>)"
    and "abs (fst (crud_handle_request vt s request (Some sess))) = abs s"
  using assms create_refines [OF assms(1,2), of key "value"]
  by (auto simp: crud_defs create_spec_def send_response_def split: prod.splits if_splits)

end

section \<open>Properties\<close>

text \<open>
  The response to a create request tells the client what happened to the store: the error
  message names the reason for which the record was refused (value too large, key too large, record
  exists) and then the store is unchanged, and a response with no error means the record is stored.
\<close>

theorem crud_create_outcome:
  assumes "mem_inv s" and "db_body request = Db_create key value"
    and "crud_handle_request mem_vt s request (Some sess) = (s', Some (sess', resp))"
  shows "sess' = sess \<and> resp_header resp = db_header request \<and>
    (if MAX_VALUE_SIZE < length value
     then resp_body resp = Resp_error MSG_VALUE_SIZE_TOO_LARGE \<and> mem_abs s' = mem_abs s
     else if MAX_KEY_SIZE < length key
     then resp_body resp = Resp_error MSG_KEY_SIZE_TOO_LARGE \<and> mem_abs s' = mem_abs s
     else if mem_read s (db_uuid (db_header request)) key \<noteq> None
     then resp_body resp = Resp_error MSG_RECORD_EXISTS \<and> mem_abs s' = mem_abs s
     else resp_body resp = Resp_not_set
        \<and> mem_abs s' = kv_put (db_uuid (db_header request)) key (Some value) (mem_abs s))"
proof -
  let ?u = "db_uuid (db_header request)"
  have "mem_read s ?u key = mem_abs s ?u key"
    using mem.read_refines [OF assms(1), of ?u key] by (simp add: mem_vt_def)
  moreover have "fst (mem_create s ?u key value) \<noteq> not_saved"
    by (auto simp: mem_create_def Let_def split: option.splits)
  ultimately show ?thesis
    using assms mem_create_refines [of s ?u key "value"]
    by (auto simp: crud_defs mem_vt_def create_spec_def send_response_def
        split: prod.splits if_splits)
qed

definition sample_request :: "database_body \<Rightarrow> database_msg" where
  "sample_request b = \<lparr>db_header = \<lparr>db_uuid = ''db'', transaction_id = 7\<rparr>, db_body = b\<rparr>"

theorem crud_create_outcome_witness:
  "crud_handle_request mem_vt [] (sample_request (Db_create ''k'' ''v'')) (Some 3)
     = ([(''db'', [(''k'', ''v'')])],
        Some (3, \<lparr>resp_header = \<lparr>db_uuid = ''db'', transaction_id = 7\<rparr>, resp_body = Resp_not_set\<rparr>))
   \<and> mem_abs [(''db'', [(''k'', ''v'')])] = kv_put ''db'' ''k'' (Some ''v'') (mem_abs [])"
proof -
  have run: "crud_handle_request mem_vt [] (sample_request (Db_create ''k'' ''v'')) (Some 3)
     = ([(''db'', [(''k'', ''v'')])],
        Some (3, \<lparr>resp_header = \<lparr>db_uuid = ''db'', transaction_id = 7\<rparr>, resp_body = Resp_not_set\<rparr>))"
    by (simp add: crud_defs mem_vt_def mem_create_def MAX_VALUE_SIZE_def MAX_KEY_SIZE_def
        send_response_def sample_request_def)
  have body: "db_body (sample_request (Db_create ''k'' ''v'')) = Db_create ''k'' ''v''"
    by (simp add: sample_request_def)
  from crud_create_outcome [OF mem_inv_empty body run] run show ?thesis
    by (simp add: MAX_VALUE_SIZE_def MAX_KEY_SIZE_def mem_read_def sample_request_def)
qed

text \<open>
  Executing a request has the same effect on the store whether or not the requester's session
  is still open, and only create, update and delete can change the store: replicas that execute the
  same requests stay identical although only one of them holds the client's session.
\<close>

theorem crud_execution_deterministic:
  shows "fst (crud_handle_request mem_vt s request session)
       = fst (crud_handle_request mem_vt s request session')
     \<and> ((\<nexists>k v. db_body request = Db_create k v \<or> db_body request = Db_update k v
            \<or> db_body request = Db_delete k)
        \<longrightarrow> fst (crud_handle_request mem_vt s request session) = s)"
  using request_session_independent [of mem_vt s request session session'] mem.query_no_effect [of request s session]
  by blast

theorem crud_execution_deterministic_witness:
  "fst (crud_handle_request mem_vt [] (sample_request Db_keys) (Some 3)) = []"
  using crud_execution_deterministic [of "[]" "sample_request Db_keys" "Some 3" None]
  by (auto simp: sample_request_def)

text \<open>
  A storage result of \<open>not_saved\<close> (a failed write of the persistent store) reaches the client as
  a response with no error, the same response a successful write gets.
\<close>

theorem not_saved_reported_as_success:
  "send_response request not_saved Resp_not_set session
     = send_response request result_ok Resp_not_set session"
  by (simp add: send_response_def)

end
