(* ===== verification/Pbft_Service.thy ===== *)
theory Pbft_Service
  imports Crud Pbft_Operation "HOL-Library.Countable" "HOL-Library.Sublist"
begin

text \<open>
  The services PBFT replicates: \<open>pbft/dummy_pbft_service.cpp\<close> and \<open>pbft/database_pbft_service.cpp\<close>.
  Both hold operations that arrive in any order and execute them in sequence.

  The contract of \<open>pbft_service_base.hpp\<close> is the locale \<open>ordered_service\<close>: in the abstract view of a
  service (the executed requests, the next sequence number, the operations waiting), applying an
  operation adds it to the waiting ones and then executes, in order, everything that can be executed.
  The lemmas of the locale are proved once from that and both services are interpretations.
\<close>

section \<open>The contract\<close>

type_synonym exec_log = "(pbft_request \<times> u64) list"
type_synonym svc_view = "exec_log \<times> u64 \<times> (u64 \<rightharpoonup> pbft_request)"

inductive drain :: "svc_view \<Rightarrow> svc_view \<Rightarrow> bool" where
  idle: "p n = None \<Longrightarrow> drain (log, n, p) (log, n, p)"
| exec: "p n = Some r \<Longrightarrow> drain (log @ [(r, n)], n + 1, p(n := None)) v \<Longrightarrow> drain (log, n, p) v"

inductive_cases drainE: "drain (log, n, p) v"

text \<open>What any sequence of executions keeps, from first sequence number \<open>b\<close>.\<close>

definition log_from :: "u64 \<Rightarrow> svc_view \<Rightarrow> bool" where
  "log_from b v = (case v of (log, n, _) \<Rightarrow>
     map snd log = map (\<lambda>i. b + word_of_nat i) [0..<length log] \<and> n = b + word_of_nat (length log))"

definition known :: "svc_view \<Rightarrow> (pbft_request \<times> u64) set" where
  "known v = (case v of (log, _, p) \<Rightarrow> set log \<union> {(r, s). p s = Some r})"

lemma drain_log_from: "drain v v' \<Longrightarrow> log_from b v \<Longrightarrow> log_from b v'"
  by (induction rule: drain.induct) (auto simp: log_from_def ac_simps)

lemma drain_known: "drain v v' \<Longrightarrow> known v' = known v"
proof (induction rule: drain.induct)
  case (exec p n r log v)
  have "known (log @ [(r, n)], n + 1, p(n := None)) = known (log, n, p)"
    using exec.hyps(1) by (auto simp: known_def split: if_splits)
  with exec.IH show ?case by simp
qed simp

lemma drain_extends: "drain v v' \<Longrightarrow> \<exists>new. fst v' = fst v @ new"
  by (induction rule: drain.induct) auto

definition drained :: "svc_view \<Rightarrow> bool" where
  "drained v = (case v of (_, n, p) \<Rightarrow> p n = None)"

lemma drain_idle: "drain v v' \<Longrightarrow> drained v'"
  by (induction rule: drain.induct) (auto simp: drained_def)

lemma drain_deterministic: "drain v v1 \<Longrightarrow> drain v v2 \<Longrightarrow> v1 = v2"
  by (induction arbitrary: v2 rule: drain.induct) (erule drainE; simp)+

text \<open>A sequence of calls of \<open>apply_operation\<close>, each in an environment of its own.\<close>

fun apply_all :: "('env \<Rightarrow> 'st \<Rightarrow> pbft_operation \<Rightarrow> 'st option) \<Rightarrow> 'st \<Rightarrow> ('env \<times> pbft_operation) list
    \<Rightarrow> 'st option" where
  "apply_all app st [] = Some st"
| "apply_all app st ((env, op) # ops) =
     (case app env st op of None \<Rightarrow> None | Some st' \<Rightarrow> apply_all app st' ops)"

lemma apply_all_keeps:
  assumes "apply_all app st ops = Some st'" "P st"
    and "\<And>st env op st'. P st \<Longrightarrow> app env st op = Some st' \<Longrightarrow> P st'"
  shows "P st'"
  using assms(1,2)
proof (induction ops arbitrary: st)
  case (Cons c ops)
  then show ?case by (cases c) (auto split: option.splits dest: assms(3))
qed simp

definition op_calls :: "('env \<times> pbft_operation) list \<Rightarrow> (pbft_request \<times> u64) set" where
  "op_calls ops = (\<lambda>(_, op). (op_request op, op_sequence op)) ` set ops"

lemma op_calls_simps [simp]:
  "op_calls [] = {}"
  "op_calls ((env, op) # ops) = insert (op_request op, op_sequence op) (op_calls ops)"
  by (simp_all add: op_calls_def)

locale ordered_service =
  fixes app :: "'env \<Rightarrow> 'st \<Rightarrow> pbft_operation \<Rightarrow> 'st option"
    and inv :: "'st \<Rightarrow> bool"
    and view :: "'st \<Rightarrow> svc_view"
  assumes app_inv: "inv st \<Longrightarrow> app env st op = Some st' \<Longrightarrow> inv st'"
    and app_drains: "inv st \<Longrightarrow> app env st op = Some st'
      \<Longrightarrow> view st = (log, n, p)
      \<Longrightarrow> drain (log, n, p(op_sequence op \<mapsto> op_request op)) (view st')"
begin

lemma app_log_from:
  assumes "inv st" "app env st op = Some st'" "log_from b (view st)"
  shows "log_from b (view st')"
proof -
  obtain log n p where v: "view st = (log, n, p)" by (cases "view st") auto
  with assms(3) have "log_from b (log, n, p(op_sequence op \<mapsto> op_request op))"
    by (simp add: log_from_def)
  with app_drains [OF assms(1,2) v] show ?thesis by (rule drain_log_from)
qed

lemma app_known:
  assumes "inv st" "app env st op = Some st'"
  shows "known (view st') \<subseteq> insert (op_request op, op_sequence op) (known (view st))"
    and "\<And>r s. (r, s) \<in> known (view st) \<Longrightarrow> \<exists>r'. (r', s) \<in> known (view st')"
    and "\<exists>r'. (r', op_sequence op) \<in> known (view st')"
proof -
  obtain log n p where v: "view st = (log, n, p)" by (cases "view st") auto
  have "known (view st') = known (log, n, p(op_sequence op \<mapsto> op_request op))"
    using drain_known [OF app_drains [OF assms v]] .
  with v show "known (view st') \<subseteq> insert (op_request op, op_sequence op) (known (view st))"
    and "\<And>r s. (r, s) \<in> known (view st) \<Longrightarrow> \<exists>r'. (r', s) \<in> known (view st')"
    and "\<exists>r'. (r', op_sequence op) \<in> known (view st')"
    by (auto simp: known_def split: if_splits)
qed

lemma app_idle:
  "inv st \<Longrightarrow> app env st op = Some st' \<Longrightarrow> drained (view st')"
  using app_drains drain_idle by (metis prod_cases3)

lemma run_inv: "apply_all app st ops = Some st' \<Longrightarrow> inv st \<Longrightarrow> inv st'"
  by (erule apply_all_keeps) (auto dest: app_inv)

lemma run_log_from:
  "apply_all app st ops = Some st' \<Longrightarrow> inv st \<Longrightarrow> log_from b (view st) \<Longrightarrow> log_from b (view st')"
  by (rule conjunct2 [OF apply_all_keeps [where P = "\<lambda>st. inv st \<and> log_from b (view st)"]])
    (blast intro: app_inv app_log_from)+

lemma run_known:
  "apply_all app st ops = Some st' \<Longrightarrow> inv st \<Longrightarrow> known (view st') \<subseteq> known (view st) \<union> op_calls ops"
proof (induction ops arbitrary: st)
  case (Cons c ops)
  obtain env op where c: "c = (env, op)" by (cases c)
  with Cons.prems obtain st1 where s: "app env st op = Some st1" "apply_all app st1 ops = Some st'"
    by (auto split: option.splits)
  then have "known (view st') \<subseteq> known (view st1) \<union> op_calls ops"
    using Cons.IH Cons.prems(2) app_inv by blast
  with app_known(1) [OF Cons.prems(2) s(1)] c show ?case by auto
qed simp

text \<open>A sequence number once applied is executed or still waiting.\<close>

lemma run_known_numbers:
  "apply_all app st ops = Some st' \<Longrightarrow> inv st
   \<Longrightarrow> snd ` known (view st) \<union> snd ` op_calls ops \<subseteq> snd ` known (view st')"
proof (induction ops arbitrary: st)
  case (Cons c ops)
  obtain env op where c: "c = (env, op)" by (cases c)
  with Cons.prems obtain st1 where s: "app env st op = Some st1" "apply_all app st1 ops = Some st'"
    by (auto split: option.splits)
  have one: "op_sequence op \<in> snd ` known (view st1)" "snd ` known (view st) \<subseteq> snd ` known (view st1)"
    using app_known(2,3) [OF Cons.prems(2) s(1)] by force+
  have rest: "snd ` known (view st1) \<subseteq> snd ` known (view st')" "snd ` op_calls ops \<subseteq> snd ` known (view st')"
    using Cons.IH [OF s(2) app_inv [OF Cons.prems(2) s(1)]] by simp_all
  have "snd ` op_calls (c # ops) = insert (op_sequence op) (snd ` op_calls ops)"
    by (simp add: c)
  with subset_trans [OF one(2) rest(1)] subsetD [OF rest(1) one(1)] rest(2) show ?case by simp
qed simp

lemma run_idle: "apply_all app st ops = Some st' \<Longrightarrow> inv st \<Longrightarrow> drained (view st) \<Longrightarrow> drained (view st')"
  by (rule conjunct2 [OF apply_all_keeps [where P = "\<lambda>st. inv st \<and> drained (view st)"]])
    (blast intro: app_inv app_idle)+

text \<open>
  From a fresh service: the executed requests are numbered 1, 2, 3, ... without gap or repetition,
  each is a request that was applied with that number, and nothing that could be executed waits.
\<close>

lemma fresh_run_ordered:
  assumes "inv st" "view st = ([], 1, Map.empty)" "apply_all app st ops = Some st'"
    and "view st' = (log, n, p)"
  shows "map snd log = map (\<lambda>i. 1 + word_of_nat i) [0..<length log]"
    and "set log \<subseteq> op_calls ops"
    and "n = 1 + word_of_nat (length log)"
proof -
  have "log_from 1 (view st')"
    by (rule run_log_from [OF assms(3,1)]) (simp add: assms(2) log_from_def)
  with assms(4) show "map snd log = map (\<lambda>i. 1 + word_of_nat i) [0..<length log]"
    and "n = 1 + word_of_nat (length log)"
    by (simp_all add: log_from_def)
  show "set log \<subseteq> op_calls ops"
    using run_known [OF assms(3,1)] by (simp add: assms(2,4) known_def)
qed

text \<open>Everything up to \<open>k\<close> is executed once everything up to \<open>k\<close> has been applied.\<close>

lemma fresh_run_complete:
  assumes "inv st" "view st = ([], 1, Map.empty)" "apply_all app st ops = Some st'"
    and "view st' = (log, n, p)"
    and "\<And>i. i < k \<Longrightarrow> 1 + word_of_nat i \<in> snd ` op_calls ops" and "k < 2 ^ 64"
  shows "k \<le> length log"
proof (rule ccontr)
  assume "\<not> k \<le> length log"
  then have k: "length log < k" by simp
  have numbers: "snd ` set log = (\<lambda>i. 1 + word_of_nat i) ` {..<length log}"
    using fresh_run_ordered(1) [OF assms(1-4)] by (metis atLeast0LessThan list.set_map set_upt)
  have n: "n = 1 + word_of_nat (length log)" using fresh_run_ordered(3) [OF assms(1-4)] .
  have "n \<in> snd ` known (view st')"
    using run_known_numbers [OF assms(3,1)] assms(5) [OF k] n by auto
  moreover have "p n = None"
    using run_idle [OF assms(3,1)] by (simp add: assms(2,4) drained_def)
  ultimately have "n \<in> snd ` set log" by (auto simp: assms(4) known_def)
  with numbers n obtain i where "i < length log" "word_of_nat i = (word_of_nat (length log) :: u64)"
    by auto
  then have "i = length log" using k assms(6) of_nat_u64_inject [of i "length log"] by simp
  with \<open>i < length log\<close> show False by simp
qed

text \<open>
  Replicas whose operations agree (the request of each sequence number is given by one function
  \<open>f\<close>) execute the same requests in the same order, one possibly further than the other.
\<close>

lemma fresh_run_log:
  assumes "inv st" "view st = ([], 1, Map.empty)" "apply_all app st ops = Some st'"
    and "\<And>r s. (r, s) \<in> op_calls ops \<Longrightarrow> r = f s"
  shows "fst (view st') = map (\<lambda>i. (f (1 + word_of_nat i), 1 + word_of_nat i)) [0..<length (fst (view st'))]"
proof -
  obtain log n p where v: "view st' = (log, n, p)" by (cases "view st'") auto
  note ord = fresh_run_ordered [OF assms(1-3) v]
  have "log = map (\<lambda>e. (f (snd e), snd e)) log"
    using ord(2) assms(4) by (intro map_idI [symmetric]) auto
  also have "\<dots> = map (\<lambda>s. (f s, s)) (map snd log)" by simp
  also have "\<dots> = map (\<lambda>i. (f (1 + word_of_nat i), 1 + word_of_nat i)) [0..<length log]"
    using ord(1) by (metis (no_types, lifting) list.map_comp comp_apply map_eq_conv)
  finally show ?thesis using v by simp
qed

end

section \<open>\<open>dummy_pbft_service\<close>\<close>

record dummy_service =
  dp_next :: u64
  dp_waiting :: "(u64, pbft_operation) umap"
  dp_posted :: exec_log
  dp_sent :: "reply list"

definition new_dummy_service :: dummy_service where
  "new_dummy_service = \<lparr>dp_next = 1, dp_waiting = [], dp_posted = [], dp_sent = []\<rparr>"

definition debug_string :: "(pbft_request \<Rightarrow> string) \<Rightarrow> pbft_operation \<Rightarrow> string" where
  "debug_string sds op = ''(v'' @ to_string (op_view op) @ '', s'' @ to_string (op_sequence op) @ '') - ''
     @ sds (op_request op)"

text \<open>\<open>live\<close> tells which sessions are still open: \<open>lock()\<close> of a weak pointer to a closed one is null.\<close>

definition lock_session :: "(session_id \<Rightarrow> bool) \<Rightarrow> session_id option \<Rightarrow> session_id option" where
  "lock_session live w = (case w of None \<Rightarrow> None | Some s \<Rightarrow> if live s then Some s else None)"

definition send_execute_response ::
  "(pbft_request \<Rightarrow> string) \<Rightarrow> (session_id \<Rightarrow> bool) \<Rightarrow> pbft_operation \<Rightarrow> dummy_service \<Rightarrow> dummy_service" where
  "send_execute_response sds live op st =
     (case lock_session live (listener_session op) of
        None \<Rightarrow> st
      | Some session \<Rightarrow> st\<lparr>dp_sent := dp_sent st @ [(session, \<lparr>resp_header = default_header,
          resp_body = Resp_read '''' (''dummy database execution of '' @ debug_string sds op)\<rparr>)]\<rparr>)"

lemma send_execute_response_fields [simp]:
  "dp_next (send_execute_response sds live op st) = dp_next st"
  "dp_waiting (send_execute_response sds live op st) = dp_waiting st"
  "dp_posted (send_execute_response sds live op st) = dp_posted st"
  by (simp_all add: send_execute_response_def split: option.splits)

text \<open>The loop of \<open>apply_operation\<close>.\<close>

function dummy_execute_waiting ::
  "(pbft_request \<Rightarrow> string) \<Rightarrow> (session_id \<Rightarrow> bool) \<Rightarrow> dummy_service \<Rightarrow> dummy_service" where
  "dummy_execute_waiting sds live st =
     (case map_of (dp_waiting st) (dp_next st) of
        None \<Rightarrow> st
      | Some op \<Rightarrow>
          dummy_execute_waiting sds live ((send_execute_response sds live op st)
            \<lparr>dp_posted := dp_posted st @ [(op_request op, dp_next st)],
             dp_waiting := AList.delete (dp_next st) (dp_waiting st),
             dp_next := dp_next st + 1\<rparr>))"
  by pat_completeness auto
termination
proof (relation "measure (\<lambda>(_, _, st). length (dp_waiting st))", simp, goal_cases)
  case (1 sds live st op)
  then have "dp_next st \<in> fst ` set (dp_waiting st)"
    by (metis map_of_eq_None_iff option.discI)
  then show ?case by (simp add: length_delete_mem)
qed

declare dummy_execute_waiting.simps [simp del]

definition dummy_apply_operation ::
  "(pbft_request \<Rightarrow> string) \<Rightarrow> (session_id \<Rightarrow> bool) \<Rightarrow> dummy_service \<Rightarrow> pbft_operation \<Rightarrow> dummy_service" where
  "dummy_apply_operation sds live st op =
     dummy_execute_waiting sds live
       (st\<lparr>dp_waiting := AList.update (op_sequence op) op (dp_waiting st)\<rparr>)"

definition dummy_applied_requests_count :: "dummy_service \<Rightarrow> u64" where
  "dummy_applied_requests_count st = dp_next st - 1"

definition dummy_service_state_hash :: "u64 \<Rightarrow> hash_t" where
  "dummy_service_state_hash sequence_number =
     ''I don't actually have a database ['' @ to_string sequence_number @ '']''"

definition dummy_view :: "dummy_service \<Rightarrow> svc_view" where
  "dummy_view st = (dp_posted st, dp_next st,
     \<lambda>s. map_option op_request (map_of (dp_waiting st) s))"

lemma dummy_execute_drains: "drain (dummy_view st) (dummy_view (dummy_execute_waiting sds live st))"
proof (induction sds live st rule: dummy_execute_waiting.induct)
  case (1 sds live st)
  show ?case
  proof (cases "map_of (dp_waiting st) (dp_next st)")
    case None
    then show ?thesis
      by (subst dummy_execute_waiting.simps) (simp add: dummy_view_def drain.idle)
  next
    case (Some op)
    let ?st = "(send_execute_response sds live op st)
        \<lparr>dp_posted := dp_posted st @ [(op_request op, dp_next st)],
         dp_waiting := AList.delete (dp_next st) (dp_waiting st), dp_next := dp_next st + 1\<rparr>"
    let ?p = "\<lambda>s. map_option op_request (map_of (dp_waiting st) s)"
    have step: "dummy_execute_waiting sds live st = dummy_execute_waiting sds live ?st"
      using Some by (subst dummy_execute_waiting.simps) simp
    have "dummy_view ?st
        = (dp_posted st @ [(op_request op, dp_next st)], dp_next st + 1, ?p(dp_next st := None))"
      by (auto simp: dummy_view_def)
    with 1 [OF Some] have "drain (dp_posted st @ [(op_request op, dp_next st)], dp_next st + 1,
        ?p(dp_next st := None)) (dummy_view (dummy_execute_waiting sds live ?st))"
      by (simp only:)
    then have "drain (dp_posted st, dp_next st, ?p) (dummy_view (dummy_execute_waiting sds live ?st))"
      by (rule drain.exec [rotated]) (simp add: Some)
    then show ?thesis unfolding step by (simp add: dummy_view_def)
  qed
qed

interpretation dummy: ordered_service
  "\<lambda>live st op. Some (dummy_apply_operation sds live st op)" "\<lambda>_. True" dummy_view
proof unfold_locales
  fix env st op st' log n p
  assume st': "Some (dummy_apply_operation sds env st op) = Some st'" and v: "dummy_view st = (log, n, p)"
  have "dummy_view (st\<lparr>dp_waiting := AList.update (op_sequence op) op (dp_waiting st)\<rparr>)
      = (log, n, p(op_sequence op \<mapsto> op_request op))"
    using v by (auto simp: dummy_view_def)
  with st' show "drain (log, n, p(op_sequence op \<mapsto> op_request op)) (dummy_view st')"
    using dummy_execute_drains [of "st\<lparr>dp_waiting := AList.update (op_sequence op) op (dp_waiting st)\<rparr>" sds env]
    by (simp add: dummy_apply_operation_def)
qed simp

section \<open>\<open>database_pbft_service\<close>\<close>

text \<open>
  The service keeps the waiting requests, serialised, in a database of its own in \<open>unstable_storage\<close>,
  under the decimal numeral of their sequence number, next to the record of the next sequence number,
  and executes them through \<open>crud\<close>. Both stores are accessed through their tables. The protobuf
  serialisation of a request is a parameter.
\<close>

primrec result_code :: "storage_result \<Rightarrow> nat" where
  "result_code result_ok = 0"
| "result_code not_found = 1"
| "result_code exists = 2"
| "result_code not_saved = 3"
| "result_code value_too_large = 4"
| "result_code key_too_large = 5"

record request_codec =
  SerializeAsString :: "pbft_request \<Rightarrow> string"
  ParseFromString :: "string \<Rightarrow> pbft_request option"

record ('s, 'c) database_service =
  ds_unstable :: 's
  ds_crud :: 'c
  ds_next :: u64
  ds_sessions :: "(u64, session_id option) umap"
  ds_posted :: exec_log
  ds_sent :: "reply list"

text \<open>What the object holds for its lifetime: the two tables, the codec and the name of its database.\<close>

record ('s, 'c) service_env =
  env_unstable :: "'s storage_vt"
  env_crud :: "'c storage_vt"
  env_codec :: request_codec
  env_uuid :: uuid_t

definition NEXT_REQUEST_SEQUENCE_KEY :: key_t where
  "NEXT_REQUEST_SEQUENCE_KEY = ''next_request_sequence''"

definition load_next_request_sequence ::
  "('s, 'c) service_env \<Rightarrow> ('s, 'c) database_service \<Rightarrow> ('s, 'c) database_service res" where
  "load_next_request_sequence e st =
     (case vt_read (env_unstable e) (ds_unstable st) (env_uuid e) NEXT_REQUEST_SEQUENCE_KEY of
        Some v \<Rightarrow> bindE (lexical_cast_u64 v) (\<lambda>n. Inr (st\<lparr>ds_next := n\<rparr>))
      | None \<Rightarrow>
          (let (result, s') = vt_create (env_unstable e) (ds_unstable st) (env_uuid e)
                 NEXT_REQUEST_SEQUENCE_KEY (to_string (ds_next st)) in
           if result \<noteq> result_ok
           then Inl (Runtime_error (''Failed to create: '' @ NEXT_REQUEST_SEQUENCE_KEY))
           else Inr (st\<lparr>ds_unstable := s'\<rparr>)))"

text \<open>A failed save is only logged.\<close>

definition save_next_request_sequence ::
  "('s, 'c) service_env \<Rightarrow> ('s, 'c) database_service \<Rightarrow> ('s, 'c) database_service" where
  "save_next_request_sequence e st =
     st\<lparr>ds_unstable := snd (vt_update (env_unstable e) (ds_unstable st) (env_uuid e)
       NEXT_REQUEST_SEQUENCE_KEY (to_string (ds_next st)))\<rparr>"

definition new_database_service ::
  "('s, 'c) service_env \<Rightarrow> 's \<Rightarrow> 'c \<Rightarrow> ('s, 'c) database_service res" where
  "new_database_service e s c = load_next_request_sequence e
     \<lparr>ds_unstable = s, ds_crud = c, ds_next = 1, ds_sessions = [], ds_posted = [], ds_sent = []\<rparr>"

text \<open>One pass through the body of the loop of \<open>process_awaiting_operations\<close>.\<close>

definition process_one ::
  "('s, 'c) service_env \<Rightarrow> (session_id \<Rightarrow> bool) \<Rightarrow> ('s, 'c) database_service
   \<Rightarrow> ('s, 'c) database_service res" where
  "process_one e live st =
     (let key = to_string (ds_next st) in
      case vt_read (env_unstable e) (ds_unstable st) (env_uuid e) key of
        None \<Rightarrow> Inl (Runtime_error ''Failed to store pbft request!'')
      | Some result \<Rightarrow>
        (case ParseFromString (env_codec e) result of
           None \<Rightarrow> Inl (Runtime_error ''Failed to create pbft_request from database read!'')
         | Some request \<Rightarrow>
             (let session = (case map_of (ds_sessions st) (ds_next st) of
                    None \<Rightarrow> None | Some w \<Rightarrow> lock_session live w);
                  (c', sent) = crud_handle_request (env_crud e) (ds_crud st) (req_operation request) session;
                  st1 = st\<lparr>ds_crud := c',
                     ds_sent := ds_sent st @ (case sent of None \<Rightarrow> [] | Some r \<Rightarrow> [r]),
                     ds_posted := ds_posted st @ [(request, ds_next st)]\<rparr>;
                  (removed, s') = vt_remove (env_unstable e) (ds_unstable st1) (env_uuid e) key
              in if removed \<noteq> result_ok
                 then Inl (Runtime_error (''Failed to remove pbft_request from database! (''
                        @ show_nat (result_code removed) @ '')''))
                 else Inr (save_next_request_sequence e
                        (st1\<lparr>ds_unstable := s', ds_next := ds_next st1 + 1\<rparr>)))))"

text \<open>
  The loop. How far it goes depends on the store behind the table, so it is a partial function; that
  it returns on every store that meets the storage contract is lemma \<open>process_returns\<close>.
\<close>

partial_function (option) process_awaiting_operations ::
  "('s, 'c) service_env \<Rightarrow> (session_id \<Rightarrow> bool) \<Rightarrow> ('s, 'c) database_service
   \<Rightarrow> ('s, 'c) database_service res option" where
  "process_awaiting_operations e live st =
     (if vt_has (env_unstable e) (ds_unstable st) (env_uuid e) (to_string (ds_next st))
      then (case process_one e live st of
              Inl err \<Rightarrow> Some (Inl err)
            | Inr st' \<Rightarrow> process_awaiting_operations e live st')
      else Some (Inr st))"

definition database_apply_operation ::
  "('s, 'c) service_env \<Rightarrow> (session_id \<Rightarrow> bool) \<Rightarrow> ('s, 'c) database_service \<Rightarrow> pbft_operation
   \<Rightarrow> ('s, 'c) database_service res option" where
  "database_apply_operation e live st op =
     (let (result, s') = vt_create (env_unstable e) (ds_unstable st) (env_uuid e)
            (to_string (op_sequence op)) (SerializeAsString (env_codec e) (op_request op)) in
      if result \<noteq> result_ok
      then Some (Inl (Runtime_error (''Failed to store pbft request! ('' @ show_nat (result_code result) @ '')'')))
      else process_awaiting_operations e live
             (st\<lparr>ds_unstable := s',
                 ds_sessions := AList.update (op_sequence op) (listener_session op) (ds_sessions st)\<rparr>))"

definition database_applied_requests_count :: "('s, 'c) database_service \<Rightarrow> u64" where
  "database_applied_requests_count st = ds_next st - 1"

definition database_service_state_hash :: "u64 \<Rightarrow> hash_t" where
  "database_service_state_hash sequence_number = ''''"

section \<open>The database service on a store that meets its contract\<close>

text \<open>
  \<open>database_inv\<close>: the store is well-formed, the codec round-trips, and every waiting record parses;
  \<open>database_view\<close> reads the waiting operations off the store.
\<close>

definition database_inv ::
  "'s storage_vt \<Rightarrow> ('s \<Rightarrow> bool) \<Rightarrow> ('s \<Rightarrow> kv) \<Rightarrow> (uuid_t \<Rightarrow> bool) \<Rightarrow> ('s, 'c) service_env
   \<Rightarrow> ('s, 'c) database_service \<Rightarrow> bool" where
  "database_inv vt si sa named e st \<longleftrightarrow> env_unstable e = vt \<and> si (ds_unstable st)
     \<and> named (env_uuid e)
     \<and> (\<forall>r. ParseFromString (env_codec e) (SerializeAsString (env_codec e) r) = Some r)
     \<and> (\<forall>s v. sa (ds_unstable st) (env_uuid e) (to_string s) = Some v
          \<longrightarrow> ParseFromString (env_codec e) v \<noteq> None)"

definition database_view ::
  "('s \<Rightarrow> kv) \<Rightarrow> ('s, 'c) service_env \<Rightarrow> ('s, 'c) database_service \<Rightarrow> svc_view" where
  "database_view sa e st = (ds_posted st, ds_next st,
     \<lambda>s. Option.bind (sa (ds_unstable st) (env_uuid e) (to_string s)) (ParseFromString (env_codec e)))"

lemma database_inv_parses:
  "database_inv vt si sa named e st \<Longrightarrow> sa (ds_unstable st) (env_uuid e) (to_string s) = Some v
   \<Longrightarrow> \<exists>r. ParseFromString (env_codec e) v = Some r"
  unfolding database_inv_def by blast

text \<open>The call as PBFT sees it: it returns or the process ends.\<close>

definition database_app ::
  "('s, 'c) service_env \<Rightarrow> (session_id \<Rightarrow> bool) \<Rightarrow> ('s, 'c) database_service \<Rightarrow> pbft_operation
   \<Rightarrow> ('s, 'c) database_service option" where
  "database_app e live st op =
     (case database_apply_operation e live st op of Some (Inr st') \<Rightarrow> Some st' | _ \<Rightarrow> None)"

text \<open>The database a list of executed requests leads to.\<close>

definition replay :: "'c storage_vt \<Rightarrow> exec_log \<Rightarrow> 'c \<Rightarrow> 'c" where
  "replay cvt log c = fold (\<lambda>(r, _) c. fst (crud_handle_request cvt c (req_operation r) None)) log c"

lemma numeral_not_next_key [simp]:
  "to_string s \<noteq> NEXT_REQUEST_SEQUENCE_KEY" "NEXT_REQUEST_SEQUENCE_KEY \<noteq> to_string s"
proof -
  show ne: "to_string s \<noteq> NEXT_REQUEST_SEQUENCE_KEY"
proof
  assume "to_string s = NEXT_REQUEST_SEQUENCE_KEY"
  then have "CHR ''n'' \<in> set (show_nat (unat s))"
    by (simp add: to_string_def NEXT_REQUEST_SEQUENCE_KEY_def)
  from digit_val_show_nat [OF this] show False by (simp add: digit_val_def)
  qed
  then show "NEXT_REQUEST_SEQUENCE_KEY \<noteq> to_string s" by metis
qed

lemma save_fields [simp]:
  "ds_posted (save_next_request_sequence e st) = ds_posted st"
  "ds_next (save_next_request_sequence e st) = ds_next st"
  "ds_crud (save_next_request_sequence e st) = ds_crud st"
  "ds_sessions (save_next_request_sequence e st) = ds_sessions st"
  by (simp_all add: save_next_request_sequence_def)

lemma process_one_replay:
  assumes "process_one e live st = Inr st'" "ds_crud st = replay (env_crud e) (ds_posted st) c0"
  shows "ds_crud st' = replay (env_crud e) (ds_posted st') c0"
  using assms request_session_independent [of "env_crud e" "ds_crud st"]
  by (auto simp: process_one_def replay_def Let_def split: option.splits prod.splits if_splits)
    (metis fst_conv)+

lemma process_loop_induct [consumes 1, case_names stop pass]:
  assumes run: "process_awaiting_operations e live st = Some (Inr st')"
    and stop: "\<And>st. \<not> vt_has (env_unstable e) (ds_unstable st) (env_uuid e) (to_string (ds_next st)) \<Longrightarrow> P st st"
    and pass: "\<And>st st1 st'. vt_has (env_unstable e) (ds_unstable st) (env_uuid e) (to_string (ds_next st))
       \<Longrightarrow> process_one e live st = Inr st1 \<Longrightarrow> P st1 st' \<Longrightarrow> P st st'"
  shows "P st st'"
proof -
  let ?Q = "\<lambda>e' live' st y. e' = e \<longrightarrow> live' = live \<longrightarrow> (\<forall>st'. y = (Inr st' :: _ res) \<longrightarrow> P st st')"
  have "?Q e live st (Inr st')"
  proof (rule process_awaiting_operations.raw_induct [where P = ?Q, OF _ run], intro impI allI)
    fix f e' live' st y st'
    assume IH: "\<And>e' live' st y. f e' live' st = Some y \<Longrightarrow> ?Q e' live' st y"
      and body: "(if vt_has (env_unstable e') (ds_unstable st) (env_uuid e') (to_string (ds_next st))
          then case process_one e' live' st of Inl err \<Rightarrow> Some (Inl err) | Inr st' \<Rightarrow> f e' live' st'
          else Some (Inr st)) = Some y"
      and eq: "e' = e" "live' = live" "y = Inr st'"
    then show "P st st'"
      using stop [of st] pass [of st _ st'] IH [of e live] by (auto split: if_splits sum.splits)
  qed
  then show ?thesis by simp
qed

context storage_spec
begin

text \<open>What saving the counter does to the store: at most the record of the counter changes.\<close>

lemma save_numerals:
  assumes "inv (ds_unstable st)" "named (env_uuid e)" "env_unstable e = vt"
  shows "inv (ds_unstable (save_next_request_sequence e st))"
    and "abs (ds_unstable (save_next_request_sequence e st)) (env_uuid e) (to_string s)
       = abs (ds_unstable st) (env_uuid e) (to_string s)"
    and "dom (abs (ds_unstable (save_next_request_sequence e st)) (env_uuid e))
       = dom (abs (ds_unstable st) (env_uuid e))"
  using assms update_inv
    update_refines [OF assms(1,2), of NEXT_REQUEST_SEQUENCE_KEY "to_string (ds_next st)"]
  by (auto simp: save_next_request_sequence_def update_spec_def split: if_splits)

lemma process_one_step:
  assumes "database_inv vt inv abs named e st" "process_one e live st = Inr st'"
  shows "\<exists>r. snd (snd (database_view abs e st)) (ds_next st) = Some r
     \<and> database_inv vt inv abs named e st'
     \<and> database_view abs e st' = (ds_posted st @ [(r, ds_next st)], ds_next st + 1,
          (snd (snd (database_view abs e st)))(ds_next st := None))
     \<and> dom (abs (ds_unstable st') (env_uuid e))
         = dom (abs (ds_unstable st) (env_uuid e)) - {to_string (ds_next st)}"
proof -
  let ?u = "env_uuid e" and ?k = "to_string (ds_next st)" and ?s = "ds_unstable st"
  let ?s' = "snd (vt_remove vt ?s ?u ?k)"
  have st: "env_unstable e = vt" "inv ?s" "named ?u" using assms(1) by (simp_all add: database_inv_def)
  from assms(2) st obtain v r st1 where v: "abs ?s ?u ?k = Some v" "ParseFromString (env_codec e) v = Some r"
    and removed: "fst (vt_remove vt ?s ?u ?k) = result_ok"
    and st': "st' = save_next_request_sequence e st1" "ds_unstable st1 = ?s'"
      "ds_next st1 = ds_next st + 1" "ds_posted st1 = ds_posted st @ [(r, ds_next st)]"
    by (auto simp: process_one_def Let_def read_refines split: option.splits prod.splits if_splits)
  have s': "inv ?s'" "abs ?s' = kv_put ?u ?k None (abs ?s)"
    using remove_inv st remove_refines [OF st(2,3), of ?k] removed v(1)
    by (auto simp: remove_spec_def split: if_splits)
  note saved = save_numerals [of st1 e, unfolded st'(2), OF s'(1) st(3,1)]
  have "abs (ds_unstable st') ?u (to_string s) = (if s = ds_next st then None else abs ?s ?u (to_string s))" for s
    using saved(2) by (simp add: st'(1) s'(2))
  moreover have "dom (abs (ds_unstable st') ?u) = dom (abs ?s ?u) - {?k}"
    using saved(3) by (auto simp: st'(1) s'(2) split: if_splits)
  ultimately show ?thesis
    using assms(1) v saved(1) st'
    by (auto simp: database_inv_def database_view_def fun_eq_iff split: if_splits)
qed

lemma finite_records: "inv s \<Longrightarrow> named u \<Longrightarrow> finite (dom (abs s u))"
  using keys_refines [of s u] by (metis List.finite_set)

text \<open>The loop returns: each pass removes a record of the service's database.\<close>

lemma process_returns:
  "database_inv vt inv abs named e st \<Longrightarrow> process_awaiting_operations e live st \<noteq> None"
proof (induction "card (dom (abs (ds_unstable st) (env_uuid e)))" arbitrary: st rule: less_induct)
  case less
  show ?case
  proof (cases "vt_has (env_unstable e) (ds_unstable st) (env_uuid e) (to_string (ds_next st))")
    case True
    show ?thesis
    proof (cases "process_one e live st")
      case (Inl err)
      then show ?thesis by (subst process_awaiting_operations.simps) simp
    next
      case (Inr st')
      have inv: "env_unstable e = vt" "inv (ds_unstable st)" "named (env_uuid e)"
        using less.prems by (simp_all add: database_inv_def)
      with True have "to_string (ds_next st) \<in> dom (abs (ds_unstable st) (env_uuid e))"
        by (auto simp: has_refines)
      with process_one_step [OF less.prems Inr] finite_records [OF inv(2,3)]
      have "card (dom (abs (ds_unstable st') (env_uuid e))) < card (dom (abs (ds_unstable st) (env_uuid e)))"
        "database_inv vt inv abs named e st'"
        by (metis card_Diff1_less, blast)
      then show ?thesis using less.hyps Inr by (subst process_awaiting_operations.simps) simp
    qed
  qed (subst process_awaiting_operations.simps, simp)
qed

lemma process_drains:
  assumes "process_awaiting_operations e live st = Some (Inr st')" "database_inv vt inv abs named e st"
  shows "drain (database_view abs e st) (database_view abs e st') \<and> database_inv vt inv abs named e st'"
  using assms
proof (induction rule: process_loop_induct)
  case (stop st)
  then have "snd (snd (database_view abs e st)) (ds_next st) = None"
    by (simp add: database_inv_def database_view_def has_refines)
  with stop(2) show ?case by (simp add: database_view_def drain.idle)
next
  case (pass st st1 st')
  from process_one_step [OF pass(4,2)] obtain r
    where r: "snd (snd (database_view abs e st)) (ds_next st) = Some r"
      and st1: "database_inv vt inv abs named e st1"
      "database_view abs e st1 = (ds_posted st @ [(r, ds_next st)], ds_next st + 1,
          (snd (snd (database_view abs e st)))(ds_next st := None))"
    by blast
  have "database_view abs e st = (ds_posted st, ds_next st, snd (snd (database_view abs e st)))"
    by (simp add: database_view_def)
  moreover have "drain (ds_posted st, ds_next st, snd (snd (database_view abs e st))) (database_view abs e st')"
    by (rule drain.exec [where r = r]) (use r st1(2) pass(3) [OF st1(1)] in simp_all)
  ultimately show ?case using pass(3) [OF st1(1)] by simp
qed

end

lemma process_replay:
  "process_awaiting_operations e live st = Some (Inr st')
   \<Longrightarrow> ds_crud st = replay (env_crud e) (ds_posted st) c0
   \<Longrightarrow> ds_crud st' = replay (env_crud e) (ds_posted st') c0"
  by (induction rule: process_loop_induct) (auto dest: process_one_replay)

lemma database_app_replay:
  "database_app e live st op = Some st' \<Longrightarrow> ds_crud st = replay (env_crud e) (ds_posted st) c0
   \<Longrightarrow> ds_crud st' = replay (env_crud e) (ds_posted st') c0"
  using process_replay [where e = e and live = live and st' = st']
  by (fastforce simp: database_app_def database_apply_operation_def
      split: prod.splits option.splits sum.splits if_splits)

context storage_spec
begin

text \<open>Storing the operation: it joins the waiting ones.\<close>

lemma stored_view:
  assumes "database_inv vt inv abs named e st"
    and "vt_create vt (ds_unstable st) (env_uuid e) (to_string (op_sequence op))
      (SerializeAsString (env_codec e) (op_request op)) = (result_ok, s')"
  shows "database_inv vt inv abs named e (st\<lparr>ds_unstable := s', ds_sessions := ss\<rparr>)"
    and "database_view abs e (st\<lparr>ds_unstable := s', ds_sessions := ss\<rparr>)
      = (ds_posted st, ds_next st,
          (snd (snd (database_view abs e st)))(op_sequence op \<mapsto> op_request op))"
proof -
  have st: "inv (ds_unstable st)" "named (env_uuid e)"
    "\<And>r. ParseFromString (env_codec e) (SerializeAsString (env_codec e) r) = Some r"
    using assms(1) by (simp_all add: database_inv_def)
  have s': "inv s'" "abs s' = kv_put (env_uuid e) (to_string (op_sequence op))
      (Some (SerializeAsString (env_codec e) (op_request op))) (abs (ds_unstable st))"
    using create_inv [OF st(1), of "env_uuid e" "to_string (op_sequence op)"
        "SerializeAsString (env_codec e) (op_request op)"]
      create_refines [OF st(1,2), of "to_string (op_sequence op)"
        "SerializeAsString (env_codec e) (op_request op)"]
    by (simp_all add: assms(2) create_spec_def split: if_splits)
  with assms(1) st(3) show "database_inv vt inv abs named e (st\<lparr>ds_unstable := s', ds_sessions := ss\<rparr>)"
    by (auto simp: database_inv_def)
  show "database_view abs e (st\<lparr>ds_unstable := s', ds_sessions := ss\<rparr>)
      = (ds_posted st, ds_next st,
          (snd (snd (database_view abs e st)))(op_sequence op \<mapsto> op_request op))"
    using s'(2) st(3) by (auto simp: database_view_def fun_eq_iff)
qed

lemma database_app_step:
  assumes "database_inv vt inv abs named e st" "database_app e live st op = Some st'"
  shows "database_inv vt inv abs named e st'"
    and "drain (ds_posted st, ds_next st,
          (snd (snd (database_view abs e st)))(op_sequence op \<mapsto> op_request op)) (database_view abs e st')"
proof -
  obtain s' ss where c: "vt_create vt (ds_unstable st) (env_uuid e) (to_string (op_sequence op))
      (SerializeAsString (env_codec e) (op_request op)) = (result_ok, s')"
    and p: "process_awaiting_operations e live (st\<lparr>ds_unstable := s', ds_sessions := ss\<rparr>) = Some (Inr st')"
    using assms
    by (auto simp: database_app_def database_apply_operation_def database_inv_def
        split: prod.splits option.splits sum.splits if_splits)
  show "database_inv vt inv abs named e st'"
    and "drain (ds_posted st, ds_next st,
          (snd (snd (database_view abs e st)))(op_sequence op \<mapsto> op_request op)) (database_view abs e st')"
    using process_drains [OF p stored_view(1) [OF assms(1) c]] stored_view(2) [OF assms(1) c]
    by simp_all
qed

end

sublocale storage_spec \<subseteq> svc: ordered_service "database_app e" "database_inv vt inv abs named e"
  "database_view abs e" for e
proof unfold_locales
  fix st env op st' log n p
  assume st: "database_inv vt inv abs named e st" "database_app e env st op = Some st'"
  then show "database_inv vt inv abs named e st'" by (rule database_app_step(1))
  assume "database_view abs e st = (log, n, p)"
  then show "drain (log, n, p(op_sequence op \<mapsto> op_request op)) (database_view abs e st')"
    using database_app_step(2) [OF st] by (simp add: database_view_def)
qed

section \<open>The database service over \<open>mem_storage\<close>\<close>

text \<open>The in-memory store never fails to write, so the loop never throws.\<close>

definition codec_ok :: "request_codec \<Rightarrow> bool" where
  "codec_ok c \<longleftrightarrow> (\<forall>r. ParseFromString c (SerializeAsString c r) = Some r)"

abbreviation mem_service_inv ::
  "(mem_storage, 'c) service_env \<Rightarrow> (mem_storage, 'c) database_service \<Rightarrow> bool" where
  "mem_service_inv \<equiv> database_inv mem_vt mem_inv mem_abs (\<lambda>_. True)"

definition next_saved :: "(mem_storage, 'c) service_env \<Rightarrow> (mem_storage, 'c) database_service \<Rightarrow> bool" where
  "next_saved e st \<longleftrightarrow>
     mem_abs (ds_unstable st) (env_uuid e) NEXT_REQUEST_SEQUENCE_KEY = Some (to_string (ds_next st))"

lemma length_to_string: "length (to_string w) \<le> MAX_KEY_SIZE" "length (to_string w) \<le> MAX_VALUE_SIZE"
proof -
  have len: "length (show_nat n) \<le> k" if "n < 10 ^ k" "0 < k" for n k
    using that
  proof (induction n arbitrary: k rule: show_nat.induct)
    case (1 n)
    show ?case
    proof (cases "n < 10")
      case False
      then obtain j where "k = Suc j" "0 < j" using 1(2,3)
        by (cases k; cases "k - 1") auto
      with False 1 show ?thesis by (subst show_nat.simps) (simp add: less_mult_imp_div_less)
    qed (use 1 in \<open>simp add: show_nat.simps [of n]\<close>)
  qed
  have "unat w < 2 ^ 64" using unsigned_less [of w] by simp
  then have "unat w < 10 ^ 20" by (rule less_le_trans) simp
  then have "length (to_string w) \<le> 20" using len [of "unat w" 20] by (simp add: to_string_def)
  then show "length (to_string w) \<le> MAX_KEY_SIZE" "length (to_string w) \<le> MAX_VALUE_SIZE"
    by (simp_all add: MAX_KEY_SIZE_def MAX_VALUE_SIZE_def)
qed

lemma mem_remove_present: "mem_abs s u k \<noteq> None \<Longrightarrow> fst (mem_remove s u k) = result_ok"
  by (auto simp: mem_remove_def mem_abs_def split: option.splits)

lemma mem_create_absent:
  "mem_abs s u k = None \<Longrightarrow> length v \<le> MAX_VALUE_SIZE \<Longrightarrow> length k \<le> MAX_KEY_SIZE
   \<Longrightarrow> fst (mem_create s u k v) = result_ok"
  by (auto simp: mem_create_def mem_abs_def Let_def split: option.splits)

lemma mem_process_one:
  assumes "mem_service_inv e st" "mem_has (ds_unstable st) (env_uuid e) (to_string (ds_next st))"
  shows "\<exists>st'. process_one e live st = Inr st'"
proof -
  let ?u = "env_uuid e" and ?k = "to_string (ds_next st)"
  have st: "env_unstable e = mem_vt" "mem_inv (ds_unstable st)" using assms(1) by (simp_all add: database_inv_def)
  have "mem_abs (ds_unstable st) ?u ?k \<noteq> None"
    using mem.has_refines [OF st(2), of ?u ?k] assms(2) by (simp add: mem_vt_def)
  then obtain v r where "mem_abs (ds_unstable st) ?u ?k = Some v" "ParseFromString (env_codec e) v = Some r"
    using assms(1) unfolding database_inv_def by blast
  moreover have "vt_read mem_vt (ds_unstable st) ?u ?k = mem_abs (ds_unstable st) ?u ?k"
    using mem.read_refines [OF st(2)] by simp
  moreover have "fst (vt_remove mem_vt (ds_unstable st) ?u ?k) = result_ok"
    using mem_remove_present calculation(1) by (simp add: mem_vt_def)
  ultimately show ?thesis
    by (auto simp: process_one_def st(1) Let_def split: prod.splits)
qed

lemma mem_process_ok:
  assumes "mem_service_inv e st"
  shows "\<exists>st'. process_awaiting_operations e live st = Some (Inr st')"
  using assms
proof (induction "card (dom (mem_abs (ds_unstable st) (env_uuid e)))" arbitrary: st rule: less_induct)
  case less
  let ?has = "mem_has (ds_unstable st) (env_uuid e) (to_string (ds_next st))"
  have st: "env_unstable e = mem_vt" "mem_inv (ds_unstable st)" using less.prems by (simp_all add: database_inv_def)
  show ?case
  proof (cases ?has)
    case True
    then obtain st1 where s: "process_one e live st = Inr st1" using mem_process_one less.prems by blast
    have k: "to_string (ds_next st) \<in> dom (mem_abs (ds_unstable st) (env_uuid e))"
      using True mem.has_refines [OF st(2)] by (auto simp: mem_vt_def)
    have "finite (dom (mem_abs (ds_unstable st) (env_uuid e)))" using mem.finite_records st(2) by blast
    with mem.process_one_step [OF less.prems s] k
    have "card (dom (mem_abs (ds_unstable st1) (env_uuid e))) < card (dom (mem_abs (ds_unstable st) (env_uuid e)))"
      "mem_service_inv e st1"
      by (metis card_Diff1_less, blast)
    with less.hyps s True st(1) show ?thesis
      by (subst process_awaiting_operations.simps) (simp add: mem_vt_def)
  qed (subst process_awaiting_operations.simps, simp add: st(1) mem_vt_def)
qed

lemma process_one_next_saved:
  assumes "mem_service_inv e st" "process_one e live st = Inr st'" "next_saved e st"
  shows "next_saved e st'"
proof -
  have e: "env_unstable e = mem_vt" using assms(1) by (simp add: database_inv_def)
  obtain st1 where st': "st' = save_next_request_sequence e st1"
    and u: "ds_unstable st1 = snd (mem_remove (ds_unstable st) (env_uuid e) (to_string (ds_next st)))"
    using assms(2) e
    by (auto simp: process_one_def Let_def mem_vt_def split: option.splits prod.splits if_splits)
  have "mem_abs (ds_unstable st1) (env_uuid e) NEXT_REQUEST_SEQUENCE_KEY \<noteq> None"
    using mem_remove_refines [of "ds_unstable st" "env_uuid e" "to_string (ds_next st)"] assms(3)
      numeral_not_next_key [of "ds_next st"]
    by (auto simp: u remove_spec_def next_saved_def split: if_splits)
  moreover have "fst (mem_update (ds_unstable st1) (env_uuid e) NEXT_REQUEST_SEQUENCE_KEY v) \<noteq> not_saved" for v
    by (auto simp: mem_update_def split: option.splits)
  ultimately show ?thesis
    using mem_update_refines [of "ds_unstable st1" "env_uuid e" NEXT_REQUEST_SEQUENCE_KEY "to_string (ds_next st1)"]
      length_to_string(2) [of "ds_next st1"]
    by (auto simp: st' next_saved_def save_next_request_sequence_def e mem_vt_def update_spec_def
        split: if_splits)
qed

lemma app_next_saved:
  assumes "mem_service_inv e st" "database_app e live st op = Some st'" "next_saved e st"
  shows "next_saved e st'"
proof -
  have loop: "next_saved e st'"
    if "process_awaiting_operations e live st = Some (Inr st')" "mem_service_inv e st" "next_saved e st" for st
    using that
  proof (induction rule: process_loop_induct)
    case (pass st st1 st')
    then show ?case using process_one_next_saved mem.process_one_step by blast
  qed simp
  obtain s' ss where c: "vt_create mem_vt (ds_unstable st) (env_uuid e) (to_string (op_sequence op))
      (SerializeAsString (env_codec e) (op_request op)) = (result_ok, s')"
    and p: "process_awaiting_operations e live (st\<lparr>ds_unstable := s', ds_sessions := ss\<rparr>) = Some (Inr st')"
    using assms(1,2)
    by (auto simp: database_app_def database_apply_operation_def database_inv_def
        split: prod.splits option.splits sum.splits if_splits)
  then have c': "mem_create (ds_unstable st) (env_uuid e) (to_string (op_sequence op))
      (SerializeAsString (env_codec e) (op_request op)) = (result_ok, s')"
    by (simp add: mem_vt_def)
  have "next_saved e (st\<lparr>ds_unstable := s', ds_sessions := ss\<rparr>)"
    using mem_create_refines [of "ds_unstable st" "env_uuid e" "to_string (op_sequence op)"
        "SerializeAsString (env_codec e) (op_request op)"] assms(3)
    by (auto simp: c' create_spec_def next_saved_def split: if_splits)
  then show ?thesis by (rule loop [OF p mem.stored_view(1) [OF assms(1) c]])
qed

lemma fresh_database_service:
  assumes "new_database_service e [] c = Inr st" "env_unstable e = mem_vt" "codec_ok (env_codec e)"
  shows "mem_service_inv e st" "database_view mem_abs e st = ([], 1, Map.empty)" "ds_crud st = c"
    "next_saved e st"
proof -
  obtain s' where c: "mem_create [] (env_uuid e) NEXT_REQUEST_SEQUENCE_KEY (to_string 1) = (result_ok, s')"
    and st: "st = \<lparr>ds_unstable = s', ds_crud = c, ds_next = 1, ds_sessions = [], ds_posted = [], ds_sent = []\<rparr>"
    using assms(1,2)
    by (auto simp: new_database_service_def load_next_request_sequence_def mem_vt_def mem_read_def
        split: prod.splits if_splits)
  have s': "mem_inv s'" "mem_abs s' = kv_put (env_uuid e) NEXT_REQUEST_SEQUENCE_KEY (Some (to_string 1)) (mem_abs [])"
    using mem_create_inv [OF mem_inv_empty, of "env_uuid e" NEXT_REQUEST_SEQUENCE_KEY "to_string 1"]
      mem_create_refines [of "[]" "env_uuid e" NEXT_REQUEST_SEQUENCE_KEY "to_string 1"]
    by (simp_all add: c create_spec_def mem_abs_def split: if_splits)
  have empty: "mem_abs [] u k = None" for u k by (simp add: mem_abs_def)
  show "mem_service_inv e st" "database_view mem_abs e st = ([], 1, Map.empty)" "ds_crud st = c"
    "next_saved e st"
    using s' assms(2,3) empty
    by (simp_all add: st database_inv_def codec_ok_def database_view_def next_saved_def fun_eq_iff)
qed

lemma run_replay:
  "apply_all (database_app e) st ops = Some st' \<Longrightarrow> ds_crud st = replay (env_crud e) (ds_posted st) c
   \<Longrightarrow> ds_crud st' = replay (env_crud e) (ds_posted st') c"
  by (erule apply_all_keeps) (auto dest: database_app_replay)

lemma run_next_saved:
  assumes "apply_all (database_app e) st ops = Some st'" "mem_service_inv e st" "next_saved e st"
  shows "mem_service_inv e st' \<and> next_saved e st'"
  using assms(1)
  by (rule apply_all_keeps) (use assms mem.svc.app_inv app_next_saved in blast)+

lemma replicas_agree:
  assumes "env_unstable e1 = mem_vt" "codec_ok (env_codec e1)" "new_database_service e1 [] c = Inr st1"
    and "env_unstable e2 = mem_vt" "codec_ok (env_codec e2)" "new_database_service e2 [] c = Inr st2"
    and "env_crud e1 = env_crud e2"
    and "apply_all (database_app e1) st1 ops1 = Some st1'" "apply_all (database_app e2) st2 ops2 = Some st2'"
    and "\<And>r s. (r, s) \<in> op_calls ops1 \<union> op_calls ops2 \<Longrightarrow> r = f s"
  shows "(prefix (ds_posted st1') (ds_posted st2') \<or> prefix (ds_posted st2') (ds_posted st1'))
     \<and> (database_applied_requests_count st1' = database_applied_requests_count st2'
          \<and> length (ds_posted st1') < 2 ^ 64 \<and> length (ds_posted st2') < 2 ^ 64
        \<longrightarrow> ds_crud st1' = ds_crud st2')"
proof -
  note fresh1 = fresh_database_service [OF assms(3,1,2)] and fresh2 = fresh_database_service [OF assms(6,4,5)]
  let ?log = "\<lambda>n. map (\<lambda>i. (f (1 + word_of_nat i), 1 + word_of_nat i :: u64)) [0..<n]"
  have log: "ds_posted st1' = ?log (length (ds_posted st1'))" "ds_posted st2' = ?log (length (ds_posted st2'))"
    using mem.svc.fresh_run_log [OF fresh1(1,2) assms(8), of f] assms(10)
      mem.svc.fresh_run_log [OF fresh2(1,2) assms(9), of f]
    by (simp_all add: database_view_def)
  have pre: "prefix (?log m) (?log n)" if "m \<le> n" for m n
  proof (rule map_mono_prefix)
    show "prefix [0..<m] [0..<n]" using upt_add_eq_append [of 0 m "n - m"] that by (simp add: prefix_def)
  qed
  have "ds_posted st1 = []" "ds_posted st2 = []" using fresh1(2) fresh2(2) by (simp_all add: database_view_def)
  then have crud: "ds_crud st1' = replay (env_crud e1) (ds_posted st1') c"
    "ds_crud st2' = replay (env_crud e1) (ds_posted st2') c"
    using run_replay [OF assms(8)] run_replay [OF assms(9)] fresh1(3) fresh2(3) assms(7)
    by (simp_all add: replay_def)
  have count: "ds_next st1' = 1 + word_of_nat (length (ds_posted st1'))"
    "ds_next st2' = 1 + word_of_nat (length (ds_posted st2'))"
    using mem.svc.fresh_run_ordered(3) [OF fresh1(1,2) assms(8)]
      mem.svc.fresh_run_ordered(3) [OF fresh2(1,2) assms(9)]
    by (auto simp: database_view_def)
  have "ds_crud st1' = ds_crud st2'"
    if "database_applied_requests_count st1' = database_applied_requests_count st2'"
      "length (ds_posted st1') < 2 ^ 64" "length (ds_posted st2') < 2 ^ 64"
  proof -
    have "length (ds_posted st1') = length (ds_posted st2')"
      using that count by (simp add: database_applied_requests_count_def of_nat_u64_inject)
    then have "?log (length (ds_posted st1')) = ?log (length (ds_posted st2'))" by (rule arg_cong)
    with trans [OF log(1)] trans [OF _ log(2) [symmetric]] have "ds_posted st1' = ds_posted st2'" by blast
    with crud show ?thesis by simp
  qed
  moreover have "prefix (ds_posted st1') (ds_posted st2') \<or> prefix (ds_posted st2') (ds_posted st1')"
  proof (cases "length (ds_posted st1')" "length (ds_posted st2')" rule: le_cases)
    case le
    from pre [OF le, folded log] show ?thesis ..
  next
    case ge
    from pre [OF ge, folded log] show ?thesis ..
  qed
  ultimately show ?thesis by blast
qed

section \<open>Properties\<close>

text \<open>
  C8: A database service executes what it is given in sequence order whatever the order of arrival:
  started on an empty store and fed any operations, it has executed requests numbered 1, 2, 3, ...
  with no gap, each with the number it was applied with; once operations 1 to \<open>k\<close> have been applied
  all of them have been executed; and its database is the one that these requests, executed in this
  order, lead to.
\<close>

theorem database_service_ordered:
  assumes "env_unstable e = mem_vt" "codec_ok (env_codec e)" "new_database_service e [] c = Inr st"
    and "apply_all (database_app e) st ops = Some st'"
  shows "map snd (ds_posted st') = map (\<lambda>i. 1 + word_of_nat i) [0..<length (ds_posted st')]
     \<and> set (ds_posted st') \<subseteq> op_calls ops
     \<and> ds_crud st' = replay (env_crud e) (ds_posted st') c
     \<and> database_applied_requests_count st' = word_of_nat (length (ds_posted st'))
     \<and> (\<forall>k < 2 ^ 64. (\<forall>i < k. 1 + word_of_nat i \<in> snd ` op_calls ops) \<longrightarrow> k \<le> length (ds_posted st'))"
proof -
  note fresh = fresh_database_service [OF assms(3,1,2)]
  obtain p where v: "database_view mem_abs e st' = (ds_posted st', ds_next st', p)"
    by (simp add: database_view_def)
  note ord = mem.svc.fresh_run_ordered [OF fresh(1,2) assms(4) v]
  have "ds_posted st = []" using fresh(2) by (simp add: database_view_def)
  then have "ds_crud st' = replay (env_crud e) (ds_posted st') c"
    using run_replay [OF assms(4)] fresh(3) by (simp add: replay_def)
  then show ?thesis
    using ord mem.svc.fresh_run_complete [OF fresh(1,2) assms(4) v]
    by (simp add: database_applied_requests_count_def)
qed

text \<open>
  A codec for the witnesses: the empty request is the empty string, the request for an empty
  database operation a letter, any other a numeral.
\<close>

instance database_header_ext :: (countable) countable
  by (rule countable_classI [of "\<lambda>r. to_nat (db_uuid r, transaction_id r, database_header.more r)"]) simp

instance database_body :: countable
  by countable_datatype

instance database_msg_ext :: (countable) countable
  by (rule countable_classI [of "\<lambda>r. to_nat (db_header r, db_body r, database_msg.more r)"]) simp

instance pbft_request_type :: countable
  by countable_datatype

instance request_body :: countable
  by countable_datatype

instance pbft_request_ext :: (countable) countable
  by (rule countable_classI [of "\<lambda>r. to_nat (req_type r, req_body r, req_timestamp r, req_client r,
        pbft_request.more r)"]) simp

definition empty_db_request :: pbft_request where
  "empty_db_request = default_request\<lparr>req_body := Req_operation default_database_msg\<rparr>"

definition sample_codec :: request_codec where
  "sample_codec = \<lparr>SerializeAsString = (\<lambda>r. if r = default_request then [] else if r = empty_db_request then ''d''
       else show_nat (to_nat r)),
     ParseFromString = (\<lambda>s. if s = [] then Some default_request else if s = ''d'' then Some empty_db_request
       else map_option from_nat (read_digits 0 s))\<rparr>"

lemma sample_codec_ok: "codec_ok sample_codec"
proof -
  have "show_nat n \<noteq> ''d''" for n
    using digit_val_show_nat [of "CHR ''d''" n] by (auto simp: digit_val_def)
  then show ?thesis by (simp add: codec_ok_def sample_codec_def)
qed

definition sample_env :: "(mem_storage, mem_storage) service_env" where
  "sample_env = \<lparr>env_unstable = mem_vt, env_crud = mem_vt, env_codec = sample_codec, env_uuid = ''node''\<rparr>"

definition sample_service :: "(mem_storage, mem_storage) database_service" where
  "sample_service = \<lparr>ds_unstable = [(''node'', [(NEXT_REQUEST_SEQUENCE_KEY, to_string 1)])], ds_crud = [],
     ds_next = 1, ds_sessions = [], ds_posted = [], ds_sent = []\<rparr>"

definition sample_op :: "u64 \<Rightarrow> pbft_operation" where
  "sample_op s = new_operation 1 s default_request []"

lemma sample_env_ok: "env_unstable sample_env = mem_vt" "codec_ok (env_codec sample_env)"
  by (simp_all add: sample_env_def sample_codec_ok)

lemma sample_service_fresh: "new_database_service sample_env [] [] = Inr sample_service"
  using length_to_string(2) [of 1]
  by (simp add: new_database_service_def load_next_request_sequence_def sample_env_def mem_vt_def
      mem_read_def mem_create_def sample_service_def MAX_KEY_SIZE_def NEXT_REQUEST_SEQUENCE_KEY_def)

lemma mem_apply_ok:
  assumes "mem_service_inv e st"
    and "mem_read (ds_unstable st) (env_uuid e) (to_string (op_sequence op)) = None"
    and "length (SerializeAsString (env_codec e) (op_request op)) \<le> MAX_VALUE_SIZE"
  shows "\<exists>st'. database_apply_operation e live st op = Some (Inr st')"
proof -
  let ?k = "to_string (op_sequence op)" and ?v = "SerializeAsString (env_codec e) (op_request op)"
  have e: "env_unstable e = mem_vt" "mem_inv (ds_unstable st)" using assms(1) by (simp_all add: database_inv_def)
  have "mem_abs (ds_unstable st) (env_uuid e) ?k = None"
    using mem.read_refines [OF e(2), of "env_uuid e" ?k] assms(2) by (simp add: mem_vt_def)
  then have "fst (mem_create (ds_unstable st) (env_uuid e) ?k ?v) = result_ok"
    using assms(3) length_to_string(1) by (rule mem_create_absent)
  then obtain s' where c: "vt_create mem_vt (ds_unstable st) (env_uuid e) ?k ?v = (result_ok, s')"
    by (cases "mem_create (ds_unstable st) (env_uuid e) ?k ?v") (simp add: mem_vt_def)
  with mem_process_ok [OF mem.stored_view(1) [OF assms(1) c]] e(1) show ?thesis
    by (simp add: database_apply_operation_def)
qed

lemma sample_service_runs: "\<exists>st'. apply_all (database_app sample_env) sample_service [(\<lambda>_. True, sample_op 1)] = Some st'"
proof -
  have "mem_service_inv sample_env sample_service"
    using fresh_database_service(1) [OF sample_service_fresh sample_env_ok] .
  then obtain st' where "database_apply_operation sample_env (\<lambda>_. True) sample_service (sample_op 1) = Some (Inr st')"
    using mem_apply_ok [of sample_env sample_service "sample_op 1" "\<lambda>_. True"]
    by (auto simp: sample_service_def sample_env_def mem_read_def sample_op_def new_operation_def sample_codec_def)
  then show ?thesis by (simp add: database_app_def)
qed

theorem database_service_ordered_witness:
  "\<exists>st'. apply_all (database_app sample_env) sample_service [(\<lambda>_. True, sample_op 1)] = Some st'
     \<and> 1 \<le> length (ds_posted st') \<and> set (ds_posted st') \<subseteq> {(default_request, 1)}"
proof -
  obtain st' where r: "apply_all (database_app sample_env) sample_service [(\<lambda>_. True, sample_op 1)] = Some st'"
    using sample_service_runs by blast
  have calls: "op_calls [(\<lambda>_ :: session_id. True, sample_op 1)] = {(default_request, 1)}"
    by (simp add: sample_op_def new_operation_def)
  from database_service_ordered [OF sample_env_ok sample_service_fresh r] r show ?thesis
    unfolding calls by (intro exI [of _ st']) (auto dest: spec [of _ 1])
qed

text \<open>
  Replicas agree: two database services started on empty stores, with the same database and
  possibly different codecs and names, that are fed operations which agree on the request of each
  sequence number, in any order each, have executed the same sequence of requests, one of them
  possibly further than the other; if they have executed equally many, their databases are identical.
\<close>

theorem database_replicas_agree:
  assumes "env_unstable e1 = mem_vt" "codec_ok (env_codec e1)" "new_database_service e1 [] c = Inr st1"
    and "env_unstable e2 = mem_vt" "codec_ok (env_codec e2)" "new_database_service e2 [] c = Inr st2"
    and "env_crud e1 = env_crud e2"
    and "apply_all (database_app e1) st1 ops1 = Some st1'" "apply_all (database_app e2) st2 ops2 = Some st2'"
    and "\<And>r s. (r, s) \<in> op_calls ops1 \<union> op_calls ops2 \<Longrightarrow> r = f s"
  shows "(prefix (ds_posted st1') (ds_posted st2') \<or> prefix (ds_posted st2') (ds_posted st1'))
     \<and> (database_applied_requests_count st1' = database_applied_requests_count st2'
          \<and> length (ds_posted st1') < 2 ^ 64 \<and> length (ds_posted st2') < 2 ^ 64
        \<longrightarrow> ds_crud st1' = ds_crud st2')"
  using replicas_agree [OF assms(1-9)] assms(10) by blast

theorem database_replicas_agree_witness:
  "\<exists>st'. apply_all (database_app sample_env) sample_service [(\<lambda>_. True, sample_op 1)] = Some st'
     \<and> (prefix (ds_posted sample_service) (ds_posted st') \<or> prefix (ds_posted st') (ds_posted sample_service))"
proof -
  obtain st' where r: "apply_all (database_app sample_env) sample_service [(\<lambda>_. True, sample_op 1)] = Some st'"
    using sample_service_runs by blast
  have "apply_all (database_app sample_env) sample_service [] = Some sample_service" by simp
  from database_replicas_agree [OF sample_env_ok sample_service_fresh sample_env_ok sample_service_fresh refl this r,
      of "\<lambda>_. default_request"]
  have "prefix (ds_posted sample_service) (ds_posted st') \<or> prefix (ds_posted st') (ds_posted sample_service)"
    by (simp add: sample_op_def new_operation_def)
  with r show ?thesis by blast
qed

text \<open>
  Operations with different sequence numbers, none of them waiting or executed before, are all
  accepted, in whatever order they come.
\<close>

lemma distinct_apply_total:
  assumes "mem_service_inv e st" "distinct (map (\<lambda>c. op_sequence (snd c)) ops)"
    and "\<forall>c \<in> set ops. length (SerializeAsString (env_codec e) (op_request (snd c))) \<le> MAX_VALUE_SIZE"
    and "\<forall>c \<in> set ops. op_sequence (snd c) \<notin> snd ` known (database_view mem_abs e st)"
  shows "\<exists>st'. apply_all (database_app e) st ops = Some st'"
  using assms
proof (induction ops arbitrary: st)
  case (Cons c ops)
  obtain live op where c: "c = (live, op)" by (cases c)
  have "mem_read (ds_unstable st) (env_uuid e) (to_string (op_sequence op)) = None"
  proof (rule ccontr)
    assume "mem_read (ds_unstable st) (env_uuid e) (to_string (op_sequence op)) \<noteq> None"
    then obtain v where v: "mem_abs (ds_unstable st) (env_uuid e) (to_string (op_sequence op)) = Some v"
      by (auto simp: mem_read_def mem_abs_def split: option.splits)
    with database_inv_parses [OF Cons.prems(1)] obtain r where "ParseFromString (env_codec e) v = Some r" by blast
    with v have "(r, op_sequence op) \<in> known (database_view mem_abs e st)" by (simp add: known_def database_view_def)
    with Cons.prems(4) c show False by force
  qed
  moreover have "length (SerializeAsString (env_codec e) (op_request op)) \<le> MAX_VALUE_SIZE"
    using Cons.prems(3) by (simp add: c)
  ultimately obtain st1 where "database_apply_operation e live st op = Some (Inr st1)"
    using mem_apply_ok [OF Cons.prems(1)] by blast
  then have app: "database_app e live st op = Some st1" by (simp add: database_app_def)
  have "known (database_view mem_abs e st1) \<subseteq> insert (op_request op, op_sequence op) (known (database_view mem_abs e st))"
    using mem.svc.app_known(1) [OF Cons.prems(1) app] .
  then have "snd ` known (database_view mem_abs e st1) \<subseteq> insert (op_sequence op) (snd ` known (database_view mem_abs e st))"
    by force
  moreover have "op_sequence (snd d) \<noteq> op_sequence op" "op_sequence (snd d) \<notin> snd ` known (database_view mem_abs e st)"
    if "d \<in> set ops" for d
    using Cons.prems(2,4) that c by (auto simp: image_iff)
  ultimately have "\<forall>d \<in> set ops. op_sequence (snd d) \<notin> snd ` known (database_view mem_abs e st1)" by blast
  with Cons.IH [OF mem.svc.app_inv [OF Cons.prems(1) app]] Cons.prems(2,3) c app show ?case by auto
qed simp

text \<open>
  Over the in-memory store a call of \<open>apply_operation\<close> always returns. It throws exactly when the
  serialised request is larger than the store accepts or an operation with this sequence number is
  still waiting; otherwise the operation is stored and everything that has become executable is
  executed.
\<close>

theorem database_apply_outcome:
  assumes "env_unstable e = mem_vt" "codec_ok (env_codec e)" "new_database_service e [] c = Inr st0"
    and "apply_all (database_app e) st0 ops = Some st"
  shows "if MAX_VALUE_SIZE < length (SerializeAsString (env_codec e) (op_request op))
     then database_apply_operation e live st op
       = Some (Inl (Runtime_error ''Failed to store pbft request! (4)''))
     else if mem_read (ds_unstable st) (env_uuid e) (to_string (op_sequence op)) \<noteq> None
     then database_apply_operation e live st op
       = Some (Inl (Runtime_error ''Failed to store pbft request! (2)''))
     else \<exists>st'. database_apply_operation e live st op = Some (Inr st')
       \<and> mem_read (ds_unstable st') (env_uuid e) (to_string (ds_next st')) = None"
proof -
  have inv: "mem_service_inv e st"
    using mem.svc.run_inv [OF assms(4) fresh_database_service(1) [OF assms(3,1,2)]] .
  let ?k = "to_string (op_sequence op)" and ?v = "SerializeAsString (env_codec e) (op_request op)"
  have read: "mem_read s u k = mem_abs s u k" for s u k
    by (auto simp: mem_read_def mem_abs_def split: option.splits)
  have create: "create_spec (mem_abs (ds_unstable st)) (env_uuid e) ?k ?v
      (fst (mem_create (ds_unstable st) (env_uuid e) ?k ?v)) (mem_abs (snd (mem_create (ds_unstable st) (env_uuid e) ?k ?v)))"
    by (rule mem_create_refines)
  have codes: "show_nat 4 = ''4''" "show_nat 2 = ''2''"
    by (subst show_nat.simps, simp add: digit_char_def char_of_def bit_simps bit_iff_odd)+
  show ?thesis
  proof (cases "MAX_VALUE_SIZE < length ?v \<or> mem_read (ds_unstable st) (env_uuid e) ?k \<noteq> None")
    case True
    with create length_to_string(1) [of "op_sequence op"] assms(1) show ?thesis
      by (auto simp: create_spec_def database_apply_operation_def read mem_vt_def codes split: prod.splits)
  next
    case False
    then obtain st' where st': "database_apply_operation e live st op = Some (Inr st')"
      using mem_apply_ok [OF inv] by (meson not_le)
    then have "database_app e live st op = Some st'" by (simp add: database_app_def)
    then have "drained (database_view mem_abs e st')" "mem_service_inv e st'"
      using mem.svc.app_idle [OF inv] mem.svc.app_inv [OF inv] by blast+
    then have "mem_read (ds_unstable st') (env_uuid e) (to_string (ds_next st')) = None"
      by (cases "mem_abs (ds_unstable st') (env_uuid e) (to_string (ds_next st'))")
        (auto simp: drained_def database_view_def read dest: database_inv_parses)
    with st' False show ?thesis by auto
  qed
qed

theorem database_apply_outcome_witness:
  "\<exists>st'. database_apply_operation sample_env (\<lambda>_. True) sample_service (sample_op 2) = Some (Inr st')
     \<and> mem_read (ds_unstable st') ''node'' (to_string (ds_next st')) = None"
  using database_apply_outcome [OF sample_env_ok sample_service_fresh, of "[]" sample_service "sample_op 2" "\<lambda>_. True"]
  by (simp add: sample_env_def sample_service_def sample_op_def new_operation_def mem_read_def sample_codec_def)

text \<open>
  C35: The counter survives a restart: a service constructed on the store that an earlier one has
  left resumes at the sequence number the earlier one had reached, with the same operations waiting.
\<close>

theorem database_service_restart:
  assumes "env_unstable e = mem_vt" "codec_ok (env_codec e)" "new_database_service e [] c = Inr st0"
    and "apply_all (database_app e) st0 ops = Some st"
  shows "\<exists>st'. new_database_service e (ds_unstable st) c' = Inr st' \<and> ds_next st' = ds_next st
     \<and> ds_unstable st' = ds_unstable st \<and> ds_posted st' = []"
proof -
  note fresh = fresh_database_service [OF assms(3,1,2)]
  have "next_saved e st" using run_next_saved [OF assms(4) fresh(1,4)] by blast
  then show ?thesis
    using assms(1) mem.read_refines [of "ds_unstable st" "env_uuid e"]
      mem.svc.run_inv [OF assms(4) fresh(1)]
    by (simp add: new_database_service_def load_next_request_sequence_def next_saved_def database_inv_def)
qed

theorem database_service_restart_witness:
  "\<exists>st'. new_database_service sample_env (ds_unstable sample_service) [] = Inr st' \<and> ds_next st' = 1"
  using database_service_restart [OF sample_env_ok sample_service_fresh, of "[]" sample_service "[]"]
  by (auto simp: sample_service_def)

text \<open>
  The dummy service also executes in sequence order without gaps, each request once and with
  the number it was applied with, and everything up to \<open>k\<close> once everything up to \<open>k\<close> is there.
\<close>

theorem dummy_service_ordered:
  assumes "apply_all (\<lambda>live st op. Some (dummy_apply_operation sds live st op)) new_dummy_service ops = Some st'"
  shows "map snd (dp_posted st') = map (\<lambda>i. 1 + word_of_nat i) [0..<length (dp_posted st')]
     \<and> set (dp_posted st') \<subseteq> op_calls ops
     \<and> dummy_applied_requests_count st' = word_of_nat (length (dp_posted st'))
     \<and> (\<forall>k < 2 ^ 64. (\<forall>i < k. 1 + word_of_nat i \<in> snd ` op_calls ops) \<longrightarrow> k \<le> length (dp_posted st'))"
proof -
  have fresh: "dummy_view new_dummy_service = ([], 1, Map.empty)"
    by (simp add: dummy_view_def new_dummy_service_def)
  obtain p where v: "dummy_view st' = (dp_posted st', dp_next st', p)" by (simp add: dummy_view_def)
  show ?thesis
    using dummy.fresh_run_ordered [OF TrueI fresh assms v] dummy.fresh_run_complete [OF TrueI fresh assms v]
    by (simp add: dummy_applied_requests_count_def)
qed

theorem dummy_service_ordered_witness:
  "\<exists>st'. apply_all (\<lambda>live st op. Some (dummy_apply_operation (\<lambda>_. ''r'') live st op)) new_dummy_service
       [(\<lambda>_. False, sample_op 2), (\<lambda>_. False, sample_op 1)] = Some st' \<and> 2 \<le> length (dp_posted st')"
proof -
  let ?ops = "[(\<lambda>_ :: session_id. False, sample_op 2), (\<lambda>_. False, sample_op 1)]"
  obtain st' where r: "apply_all (\<lambda>live st op. Some (dummy_apply_operation (\<lambda>_. ''r'') live st op))
      new_dummy_service ?ops = Some st'" by simp
  have "1 + word_of_nat i \<in> snd ` op_calls ?ops" if "i < 2" for i
    using that by (auto simp: sample_op_def new_operation_def less_2_cases_iff)
  then have "2 \<le> length (dp_posted st')"
    using dummy_service_ordered [OF r] by simp
  with r show ?thesis by blast
qed

end
