(* ===== verification/Pbft_Config.thy ===== *)
theory Pbft_Config
  imports Messages "HOL-Library.Multiset"
begin

text \<open>
  The membership configuration \<open>pbft/pbft_configuration.cpp\<close> and the store of configurations
  \<open>pbft/pbft_config_store.cpp\<close>. Outside the repository are jsoncpp and \<open>std::hash\<close>: the record
  \<open>config_ext\<close> carries the three functions the code calls, on the document type \<open>cfg_doc\<close>, which
  is what the code can see of a JSON text (no \<open>peers\<close> member, a null one, one that is no array, or
  an array of peer objects).
\<close>

section \<open>Documents\<close>

record json_peer =
  jp_host :: string
  jp_port :: u32
  jp_http_port :: u32
  jp_name :: string
  jp_uuid :: string

datatype cfg_doc = No_peers | Peers_null | Peers_other | Peers_array "json_peer list"

record config_ext =
  toStyledString :: "cfg_doc \<Rightarrow> string"
  reader_parse :: "string \<Rightarrow> cfg_doc option"
  std_hash :: "string \<Rightarrow> u64"

definition json_of_peer :: "peer_address_t \<Rightarrow> json_peer" where
  "json_of_peer p = \<lparr>jp_host = pa_host p, jp_port = ucast (pa_port p),
     jp_http_port = ucast (pa_http_port p), jp_name = pa_name p, jp_uuid = pa_uuid p\<rparr>"

definition peer_of_json :: "json_peer \<Rightarrow> peer_address_t" where
  "peer_of_json j = \<lparr>pa_host = jp_host j, pa_port = ucast (jp_port j),
     pa_http_port = ucast (jp_http_port j), pa_name = jp_name j, pa_uuid = jp_uuid j\<rparr>"

section \<open>Configurations\<close>

record pbft_configuration =
  cfg_peers :: "peer_address_t list"
  sorted_peers :: "peer_address_t list"
  cached_hash :: hash_t

definition new_configuration :: pbft_configuration where
  "new_configuration = \<lparr>cfg_peers = [], sorted_peers = [], cached_hash = ''''\<rparr>"

definition cfg_document :: "pbft_configuration \<Rightarrow> cfg_doc" where
  "cfg_document c =
     (if sorted_peers c = [] then Peers_null else Peers_array (map json_of_peer (sorted_peers c)))"

definition cfg_to_string :: "config_ext \<Rightarrow> pbft_configuration \<Rightarrow> string" where
  "cfg_to_string X c = toStyledString X (cfg_document c)"

definition create_hash :: "config_ext \<Rightarrow> pbft_configuration \<Rightarrow> hash_t" where
  "create_hash X c = to_string (std_hash X (cfg_to_string X c))"

definition get_hash :: "pbft_configuration \<Rightarrow> hash_t" where
  "get_hash c = cached_hash c"

definition get_peers :: "pbft_configuration \<Rightarrow> peer_address_t list" where
  "get_peers c = sorted_peers c"

text \<open>\<open>operator==\<close> compares the hashes.\<close>

definition cfg_equal :: "pbft_configuration \<Rightarrow> pbft_configuration \<Rightarrow> bool" where
  "cfg_equal c d \<longleftrightarrow> get_hash c = get_hash d"

text \<open>
  The peers are sorted by sorting the indices of an unordered copy and reading the copy through
  them; then the hash is recomputed.
\<close>

definition cache_sorted_peers :: "config_ext \<Rightarrow> pbft_configuration \<Rightarrow> pbft_configuration" where
  "cache_sorted_peers X c =
     (let unordered_peers_list = cfg_peers c;
          indicies = sort_key (\<lambda>i. pa_uuid (unordered_peers_list ! i)) [0..<length unordered_peers_list];
          c' = c\<lparr>sorted_peers := map (\<lambda>i. unordered_peers_list ! i) indicies\<rparr>
      in c'\<lparr>cached_hash := create_hash X c'\<rparr>)"

definition peers_conflict :: "peer_address_t \<Rightarrow> peer_address_t \<Rightarrow> bool" where
  "peers_conflict p peer \<longleftrightarrow> pa_uuid p = pa_uuid peer \<or> pa_name p = pa_name peer
     \<or> (pa_host p = pa_host peer \<and> (pa_port p = pa_port peer \<or> pa_http_port p = pa_http_port peer))"

definition conflicting_peer_exists :: "peer_address_t list \<Rightarrow> peer_address_t \<Rightarrow> bool" where
  "conflicting_peer_exists ps peer \<longleftrightarrow> list_ex (\<lambda>p. peers_conflict p peer) ps"

definition valid_peer :: "peer_address_t \<Rightarrow> bool" where
  "valid_peer peer \<longleftrightarrow> \<not> (pa_name peer = [] \<or> pa_uuid peer = [] \<or> pa_host peer = []
     \<or> pa_port peer = 0 \<or> pa_http_port peer = 0)"

definition insert_peer :: "peer_address_t \<Rightarrow> pbft_configuration \<Rightarrow> bool \<times> pbft_configuration" where
  "insert_peer peer c =
     (if conflicting_peer_exists (cfg_peers c) peer \<or> \<not> valid_peer peer then (False, c)
      else (True, c\<lparr>cfg_peers := peers_insert peer (cfg_peers c)\<rparr>))"

definition add_peer :: "config_ext \<Rightarrow> peer_address_t \<Rightarrow> pbft_configuration \<Rightarrow> bool \<times> pbft_configuration" where
  "add_peer X peer c =
     (case insert_peer peer c of
        (False, c') \<Rightarrow> (False, c')
      | (True, c') \<Rightarrow> (True, cache_sorted_peers X c'))"

definition remove_peer :: "config_ext \<Rightarrow> peer_address_t \<Rightarrow> pbft_configuration \<Rightarrow> bool \<times> pbft_configuration" where
  "remove_peer X peer c =
     (if list_ex (\<lambda>p. peer_eq p peer) (cfg_peers c)
      then (True, cache_sorted_peers X
                    (c\<lparr>cfg_peers := filter (\<lambda>p. \<not> peer_eq p peer) (cfg_peers c)\<rparr>))
      else (False, c))"

text \<open>The loop of \<open>from_string\<close> over the array: it goes on after a peer it refuses.\<close>

fun load_peers :: "peer_address_t list \<Rightarrow> json_peer list \<Rightarrow> bool \<Rightarrow> bool \<times> peer_address_t list" where
  "load_peers ps [] result = (result, ps)"
| "load_peers ps (j # js) result =
     (let peer = peer_of_json j in
      if conflicting_peer_exists ps peer \<or> \<not> valid_peer peer then load_peers ps js False
      else load_peers (peers_insert peer ps) js result)"

definition from_string :: "config_ext \<Rightarrow> string \<Rightarrow> pbft_configuration \<Rightarrow> bool \<times> pbft_configuration" where
  "from_string X str c =
     (case reader_parse X str of
        Some (Peers_array js) \<Rightarrow>
          (let (result, ps) = load_peers [] js True in
           (result, cache_sorted_peers X (c\<lparr>cfg_peers := ps\<rparr>)))
      | _ \<Rightarrow> (False, c))"

text \<open>\<open>diff\<close>: the peers only the other configuration has, and those only this one has.\<close>

definition cfg_diff :: "pbft_configuration \<Rightarrow> pbft_configuration \<Rightarrow> peer_address_t list \<times> peer_address_t list" where
  "cfg_diff this other =
     (filter (\<lambda>p. \<not> list_ex (\<lambda>q. peer_eq q p) (cfg_peers this)) (cfg_peers other),
      filter (\<lambda>p. \<not> list_ex (\<lambda>q. peer_eq q p) (cfg_peers other)) (cfg_peers this))"

section \<open>The configuration store\<close>

record pbft_config_store =
  configs :: "(u64, pbft_configuration \<times> bool) smap"
  current_index :: u64
  next_index :: u64

definition new_config_store :: pbft_config_store where
  "new_config_store = \<lparr>configs = [], current_index = 0, next_index = 1\<rparr>"

text \<open>\<open>add\<close>: \<open>map::insert\<close> at the next index, which is refused only if that index is taken.\<close>

definition store_add :: "pbft_configuration \<Rightarrow> pbft_config_store \<Rightarrow> bool \<times> pbft_config_store" where
  "store_add config st =
     (let i = next_index st; st' = st\<lparr>next_index := i + 1\<rparr> in
      if map_of (configs st) i \<noteq> None then (False, st')
      else (True, st'\<lparr>configs := smap_set i (config, False) (configs st)\<rparr>))"

definition find_by_hash :: "pbft_config_store \<Rightarrow> hash_t \<Rightarrow> (u64 \<times> pbft_configuration \<times> bool) option" where
  "find_by_hash st h = List.find (\<lambda>c. get_hash (fst (snd c)) = h) (configs st)"

definition set_current :: "hash_t \<Rightarrow> pbft_config_store \<Rightarrow> bool \<times> pbft_config_store" where
  "set_current h st =
     (case find_by_hash st h of None \<Rightarrow> (False, st)
      | Some (i, _) \<Rightarrow> (True, st\<lparr>current_index := i\<rparr>))"

text \<open>The erasing loop of \<open>remove_prior_to\<close>, up to the configuration it was asked about.\<close>

fun erase_prior :: "u64 \<Rightarrow> u64 \<Rightarrow> (u64, 'a) smap \<Rightarrow> (u64, 'a) smap" where
  "erase_prior config cur [] = []"
| "erase_prior config cur (it # m) =
     (if fst it = config then it # m
      else if fst it \<noteq> cur then erase_prior config cur m
      else it # erase_prior config cur m)"

definition remove_prior_to :: "hash_t \<Rightarrow> pbft_config_store \<Rightarrow> bool \<times> pbft_config_store" where
  "remove_prior_to h st =
     (case find_by_hash st h of None \<Rightarrow> (False, st)
      | Some (i, _) \<Rightarrow> (True, st\<lparr>configs := erase_prior i (current_index st) (configs st)\<rparr>))"

definition store_get :: "hash_t \<Rightarrow> pbft_config_store \<Rightarrow> pbft_configuration option" where
  "store_get h st = (case find_by_hash st h of None \<Rightarrow> None | Some (_, c, _) \<Rightarrow> Some c)"

definition enable :: "hash_t \<Rightarrow> bool \<Rightarrow> pbft_config_store \<Rightarrow> bool \<times> pbft_config_store" where
  "enable h val st =
     (case find_by_hash st h of None \<Rightarrow> (False, st)
      | Some (i, c, _) \<Rightarrow> (True, st\<lparr>configs := smap_set i (c, val) (configs st)\<rparr>))"

definition is_enabled :: "hash_t \<Rightarrow> pbft_config_store \<Rightarrow> bool" where
  "is_enabled h st = (case find_by_hash st h of None \<Rightarrow> False | Some (_, _, e) \<Rightarrow> e)"

definition store_current :: "pbft_config_store \<Rightarrow> pbft_configuration option" where
  "store_current st = map_option fst (map_of (configs st) (current_index st))"

lemmas store_defs = store_add_def set_current_def remove_prior_to_def store_get_def enable_def
  is_enabled_def store_current_def Let_def

section \<open>Well-formed configurations\<close>

definition compatible :: "peer_address_t list \<Rightarrow> bool" where
  "compatible ps \<longleftrightarrow> sorted_wrt (\<lambda>p q. \<not> peers_conflict p q) ps \<and> list_all valid_peer ps"

definition cfg_wf :: "config_ext \<Rightarrow> pbft_configuration \<Rightarrow> bool" where
  "cfg_wf X c \<longleftrightarrow> compatible (cfg_peers c)
     \<and> sorted_peers c = sort_key pa_uuid (cfg_peers c)
     \<and> (cached_hash c = create_hash X c \<or> cfg_peers c = [] \<and> cached_hash c = '''')"

lemma peers_conflict_sym: "peers_conflict p q \<longleftrightarrow> peers_conflict q p"
  by (auto simp: peers_conflict_def)

lemma peer_eq_conflict: "peer_eq p q \<Longrightarrow> peers_conflict p q"
  by (simp add: peer_eq_def peers_conflict_def)

lemma map_insort_key: "map f (insort_key (\<lambda>x. g (f x)) x xs) = insort_key g (f x) (map f xs)"
  by (induction xs) auto

lemma map_sort_key: "map f (sort_key (\<lambda>x. g (f x)) xs) = sort_key g (map f xs)"
  by (induction xs) (simp_all add: map_insort_key)

text \<open>Sorting through indices is sorting.\<close>

lemma cache_sorted_peers_eq:
  "cache_sorted_peers X c =
     (let c' = c\<lparr>sorted_peers := sort_key pa_uuid (cfg_peers c)\<rparr> in c'\<lparr>cached_hash := create_hash X c'\<rparr>)"
  unfolding cache_sorted_peers_def Let_def
  using map_sort_key [of "\<lambda>i. cfg_peers c ! i" pa_uuid "[0..<length (cfg_peers c)]"]
  by (simp add: map_nth)

lemma create_hash_cong: "sorted_peers c = sorted_peers d \<Longrightarrow> create_hash X c = create_hash X d"
  by (simp add: create_hash_def cfg_to_string_def cfg_document_def)

lemma cfg_peers_cache [simp]: "cfg_peers (cache_sorted_peers X c) = cfg_peers c"
  by (simp add: cache_sorted_peers_eq Let_def)

lemma cfg_wf_cache: "compatible (cfg_peers c) \<Longrightarrow> cfg_wf X (cache_sorted_peers X c)"
  by (auto simp: cfg_wf_def cache_sorted_peers_eq Let_def intro: create_hash_cong)

lemma cfg_wf_new [simp]: "cfg_wf X new_configuration"
  by (simp add: cfg_wf_def new_configuration_def compatible_def)

lemma compatible_snoc:
  "compatible ps \<Longrightarrow> \<not> conflicting_peer_exists ps p \<Longrightarrow> valid_peer p \<Longrightarrow> compatible (ps @ [p])"
  by (auto simp: compatible_def sorted_wrt_append conflicting_peer_exists_def list_ex_iff)

lemma peers_insert_fresh:
  "\<not> conflicting_peer_exists ps p \<Longrightarrow> peers_insert p ps = ps @ [p]"
  by (auto simp: peers_insert_def conflicting_peer_exists_def list_ex_iff peer_eq_conflict)

lemma compatible_filter: "compatible ps \<Longrightarrow> compatible (filter P ps)"
  by (auto simp: compatible_def sorted_wrt_filter list_all_iff)

lemma compatible_distinct_uuid: "compatible ps \<Longrightarrow> distinct (map pa_uuid ps)"
  unfolding compatible_def by (induction ps) (auto simp: peers_conflict_def)

lemma load_peers_compatible:
  "compatible ps \<Longrightarrow> load_peers ps js r = (r', ps') \<Longrightarrow> compatible ps'"
  by (induction ps js r rule: load_peers.induct)
    (auto simp: Let_def peers_insert_fresh compatible_snoc split: if_splits)

lemma load_peers_all:
  assumes "compatible (ps @ map peer_of_json js)"
  shows "load_peers ps js r = (r, ps @ map peer_of_json js)"
  using assms
proof (induction js arbitrary: ps)
  case (Cons j js)
  have "valid_peer (peer_of_json j)" "\<not> conflicting_peer_exists ps (peer_of_json j)"
    using Cons.prems
    by (auto simp: compatible_def sorted_wrt_append conflicting_peer_exists_def list_ex_iff)
  with Cons show ?case by (simp add: Let_def peers_insert_fresh)
qed simp

lemma peer_of_json_of_peer [simp]: "peer_of_json (json_of_peer p) = p"
  by (simp add: peer_of_json_def json_of_peer_def)

lemma compatible_sort:
  assumes "compatible ps"
  shows "compatible (sort_key f ps)"
proof -
  have sym: "symp (\<lambda>p q. \<not> peers_conflict p q)"
    by (auto simp: symp_def peers_conflict_sym)
  have pw: "\<forall>p \<in> set ps. \<forall>q \<in> set ps. p \<noteq> q \<longrightarrow> \<not> peers_conflict p q"
    if "sorted_wrt (\<lambda>p q. \<not> peers_conflict p q) ps" for ps
    using that by (induction ps) (auto simp: peers_conflict_sym)
  have mk: "sorted_wrt (\<lambda>p q. \<not> peers_conflict p q) qs"
    if "distinct qs" "\<forall>p \<in> set qs. \<forall>q \<in> set qs. p \<noteq> q \<longrightarrow> \<not> peers_conflict p q" for qs
    using that by (induction qs) auto
  have "distinct ps" using compatible_distinct_uuid [OF assms] by (simp add: distinct_map)
  with assms show ?thesis
    by (auto simp: compatible_def list_all_iff intro!: mk dest: pw)
qed

lemma sort_sorted_id: "sort_key f (sort_key f xs) = sort_key f xs"
  by (simp add: sort_key_id_if_sorted)

section \<open>The store's invariant\<close>

definition store_ok :: "pbft_config_store \<Rightarrow> bool" where
  "store_ok st \<longleftrightarrow> smap_ok (configs st) \<and> (\<forall>e \<in> set (configs st). fst e < next_index st)"

lemma store_ok_new [simp]: "store_ok new_config_store"
  by (simp add: store_ok_def new_config_store_def)

lemma find_by_hash_Some:
  "find_by_hash st h = Some (i, c, e) \<Longrightarrow> (i, c, e) \<in> set (configs st) \<and> get_hash c = h"
  unfolding find_by_hash_def find_Some_iff by (metis fst_conv nth_mem snd_conv)

lemma find_by_hash_None:
  "find_by_hash st h = None \<longleftrightarrow> (\<forall>e \<in> set (configs st). get_hash (fst (snd e)) \<noteq> h)"
  unfolding find_by_hash_def find_None_iff by blast

lemma erase_prior_set:
  assumes "smap_ok m" and "config \<in> fst ` set m"
  shows "set (erase_prior config cur m) = {e \<in> set m. config \<le> fst e \<or> fst e = cur}"
  using assms
proof (induction m)
  case (Cons it m)
  show ?case
  proof (cases "fst it = config")
    case True
    with Cons.prems show ?thesis by (auto simp: smap_ok_Cons)
  next
    case False
    with Cons.prems have "config \<in> fst ` set m" "smap_ok m" "fst it < config"
      by (auto simp: smap_ok_Cons)
    moreover from this have "config \<noteq> fst it" "\<not> config \<le> fst it" by auto
    ultimately show ?thesis using Cons.IH by (cases "fst it = cur") auto
  qed
qed simp

lemma smap_ok_erase_prior: "smap_ok m \<Longrightarrow> smap_ok (erase_prior config cur m)"
proof (induction m)
  case (Cons it m)
  have "set (erase_prior config cur m) \<subseteq> set m" by (induction m) auto
  with Cons show ?case by (auto simp: smap_ok_Cons)
qed simp

lemma remove_prior_to_store:
  assumes "store_ok st"
  shows "store_current (snd (remove_prior_to h st)) = store_current st"
    and "store_ok (snd (remove_prior_to h st))"
proof -
  have ok: "smap_ok (configs st)" using assms by (simp add: store_ok_def)
  have sub: "set (erase_prior i j m) \<subseteq> set m" for i j and m :: "(u64, 'a) smap"
    by (induction m) auto
  have keep: "map_of (erase_prior i j m) j = map_of m j" for i j and m :: "(u64, 'a) smap"
    by (induction m) auto
  have "store_ok (st\<lparr>configs := erase_prior i j (configs st)\<rparr>)" for i j
    using assms smap_ok_erase_prior [OF ok] by (auto simp: store_ok_def dest: subsetD [OF sub])
  then show "store_current (snd (remove_prior_to h st)) = store_current st"
    and "store_ok (snd (remove_prior_to h st))"
    using assms by (auto simp: remove_prior_to_def store_current_def keep split: option.splits)
qed

lemma store_ok_add:
  assumes "store_ok st" and "next_index st + 1 \<noteq> 0"
  shows "store_ok (snd (store_add c st))"
proof -
  have "fst e < next_index st + 1" if "e \<in> insert (next_index st, x) (set (configs st))" for e x
    using that assms word_less_plus_one word_less_Suc_ne by (auto simp: store_ok_def)
  then show ?thesis
    using assms(1) set_smap_set_subset [of "next_index st" "(c, False)" "configs st"]
    by (fastforce simp: store_ok_def store_add_def Let_def)
qed

lemma map_of_smap_member:
  "smap_ok m \<Longrightarrow> (k, v) \<in> set m \<longleftrightarrow> map_of m k = Some v"
  by (metis map_of_SomeD map_of_eq_Some_iff smap_ok_distinct)


lemma add_peer_cases:
  "add_peer X peer c =
     (if conflicting_peer_exists (cfg_peers c) peer \<or> \<not> valid_peer peer then (False, c)
      else (True, cache_sorted_peers X (c\<lparr>cfg_peers := cfg_peers c @ [peer]\<rparr>)))"
  by (simp add: add_peer_def insert_peer_def peers_insert_fresh)

lemma cfg_wf_compatible: "cfg_wf X c \<Longrightarrow> compatible (cfg_peers c)"
  by (simp add: cfg_wf_def)

lemma cfg_wf_add: "cfg_wf X c \<Longrightarrow> cfg_wf X (snd (add_peer X peer c))"
  by (auto simp: add_peer_cases intro!: cfg_wf_cache compatible_snoc dest: cfg_wf_compatible)

lemma cfg_wf_remove: "cfg_wf X c \<Longrightarrow> cfg_wf X (snd (remove_peer X peer c))"
  by (auto simp: remove_peer_def intro!: cfg_wf_cache compatible_filter) (simp add: cfg_wf_def)

lemma cfg_wf_from_string: "cfg_wf X c \<Longrightarrow> cfg_wf X (snd (from_string X str c))"
  by (auto simp: from_string_def compatible_def intro!: cfg_wf_cache
      dest!: load_peers_compatible [rotated] split: option.splits cfg_doc.splits prod.splits)

lemma sort_key_set_eq:
  assumes "set ps = set qs" "distinct (map f ps)" "distinct (map f qs)"
  shows "sort_key f ps = sort_key f qs"
proof -
  have "mset ps = mset qs"
    using assms by (simp add: set_eq_iff_mset_eq_distinct [symmetric] distinct_map)
  then show ?thesis
    using assms(2) by (intro sort_key_inj_key_eq) (auto simp: distinct_map)
qed

section \<open>Properties of configurations\<close>

text \<open>
  Adding a peer succeeds exactly when the peer is fully specified and shares no uuid, no name
  and no host/port pair with a member; success adds that peer and nothing else, failure changes
  nothing, and the configuration stays well-formed: pairwise compatible valid members, the sorted
  list and the hash recomputed.
\<close>

theorem add_peer_correct:
  assumes "cfg_wf X c"
  shows "(fst (add_peer X peer c) \<longleftrightarrow> valid_peer peer \<and> (\<forall>p \<in> set (cfg_peers c). \<not> peers_conflict p peer))
     \<and> set (cfg_peers (snd (add_peer X peer c)))
         = (if fst (add_peer X peer c) then insert peer (set (cfg_peers c)) else set (cfg_peers c))
     \<and> cfg_wf X (snd (add_peer X peer c))"
  using cfg_wf_add [OF assms]
  by (auto simp: add_peer_cases conflicting_peer_exists_def list_ex_iff)

definition sample_ext :: config_ext where
  "sample_ext = \<lparr>toStyledString = (\<lambda>_. ''doc''), reader_parse = (\<lambda>_. None), std_hash = (\<lambda>_. 5)\<rparr>"

definition sample_member :: "string \<Rightarrow> u16 \<Rightarrow> peer_address_t" where
  "sample_member u p = \<lparr>pa_host = ''h'', pa_port = p, pa_http_port = p + 1, pa_name = u, pa_uuid = u\<rparr>"

theorem add_peer_correct_witness:
  "fst (add_peer sample_ext (sample_member ''a'' 80) new_configuration)
     \<and> cfg_wf sample_ext (snd (add_peer sample_ext (sample_member ''a'' 80) new_configuration))"
  using add_peer_correct [OF cfg_wf_new, of sample_ext "sample_member ''a'' 80"]
  by (simp add: sample_member_def valid_peer_def new_configuration_def)

text \<open>
  The peer list of a well-formed configuration, through which every replica computes the
  primary, and the configuration's hash depend only on the set of members and not on the order in
  which they were added; the list holds exactly the members, in strictly increasing uuid order.
\<close>

theorem config_order_independent:
  assumes "cfg_wf X c" and "cfg_wf X d" and "set (cfg_peers c) = set (cfg_peers d)"
    and "cfg_peers c \<noteq> []"
  shows "get_peers c = get_peers d \<and> get_hash c = get_hash d
     \<and> set (get_peers c) = set (cfg_peers c) \<and> sorted_wrt (<) (map pa_uuid (get_peers c))"
proof -
  have du: "distinct (map pa_uuid (cfg_peers c))" "distinct (map pa_uuid (cfg_peers d))"
    using assms(1,2) by (auto simp: cfg_wf_def compatible_distinct_uuid)
  have peers: "sorted_peers c = sorted_peers d"
    using assms sort_key_set_eq [OF assms(3) du] by (simp add: cfg_wf_def)
  have "cfg_peers d \<noteq> []" using assms(3,4) by auto
  with assms have "cached_hash c = cached_hash d"
    using create_hash_cong [OF peers, of X] by (auto simp: cfg_wf_def)
  moreover have "distinct (map pa_uuid (sort_key pa_uuid (cfg_peers c)))"
    using du(1) by (auto simp: distinct_map)
  ultimately show ?thesis
    using assms(1) peers
    by (auto simp: get_peers_def get_hash_def cfg_wf_def strict_sorted_iff)
qed

definition sample_pair :: "string \<Rightarrow> u16 \<Rightarrow> string \<Rightarrow> u16 \<Rightarrow> pbft_configuration" where
  "sample_pair u p v q = snd (add_peer sample_ext (sample_member u p)
     (snd (add_peer sample_ext (sample_member v q) new_configuration)))"

theorem config_order_independent_witness:
  "get_peers (sample_pair ''a'' 80 ''b'' 90) = get_peers (sample_pair ''b'' 90 ''a'' 80)"
proof -
  have "cfg_wf sample_ext (sample_pair u p v q)" for u p v q
    by (simp add: sample_pair_def cfg_wf_add)
  moreover have "set (cfg_peers (sample_pair ''a'' 80 ''b'' 90)) = set (cfg_peers (sample_pair ''b'' 90 ''a'' 80))"
    "cfg_peers (sample_pair ''a'' 80 ''b'' 90) \<noteq> []"
    by (auto simp: sample_pair_def add_peer_cases new_configuration_def valid_peer_def
        conflicting_peer_exists_def sample_member_def peers_conflict_def)
  ultimately show ?thesis using config_order_independent by blast
qed

text \<open>
  C39: Serialising a well-formed non-empty configuration and reading it back into any configuration
  object succeeds and gives the same peer list and the same hash, provided the JSON library reads
  back the document it printed.
\<close>

theorem config_roundtrip:
  assumes "cfg_wf X c" and "cfg_peers c \<noteq> []"
    and json: "reader_parse X (toStyledString X (cfg_document c)) = Some (cfg_document c)"
  shows "\<exists>c'. from_string X (cfg_to_string X c) d = (True, c')
     \<and> get_peers c' = get_peers c \<and> get_hash c' = get_hash c \<and> cfg_wf X c'"
proof -
  let ?ps = "sort_key pa_uuid (cfg_peers c)"
  let ?c' = "cache_sorted_peers X (d\<lparr>cfg_peers := ?ps\<rparr>)"
  have sorted: "sorted_peers c = ?ps" and hash: "cached_hash c = create_hash X c"
    using assms(1,2) by (auto simp: cfg_wf_def)
  have "?ps \<noteq> []" using assms(2) by (metis set_empty set_sort)
  then have doc: "cfg_document c = Peers_array (map json_of_peer ?ps)"
    by (simp add: cfg_document_def sorted)
  have comp: "compatible ?ps" using assms(1) by (simp add: cfg_wf_def compatible_sort)
  then have "load_peers [] (map json_of_peer ?ps) True = (True, ?ps)"
    using load_peers_all [of "[]" "map json_of_peer ?ps" True] by (simp add: comp_def)
  then have "from_string X (cfg_to_string X c) d = (True, ?c')"
    using json doc by (simp add: from_string_def cfg_to_string_def)
  moreover have "sorted_peers ?c' = ?ps"
    by (simp add: cache_sorted_peers_eq Let_def sort_sorted_id)
  moreover have "cached_hash ?c' = create_hash X ?c'"
    unfolding cache_sorted_peers_eq Let_def by (simp, rule create_hash_cong) simp
  moreover have "cfg_wf X ?c'" using comp by (simp add: cfg_wf_cache)
  ultimately show ?thesis
    using sorted hash create_hash_cong [of ?c' c X] by (auto simp: get_peers_def get_hash_def)
qed

definition sample_doc_ext :: "cfg_doc \<Rightarrow> config_ext" where
  "sample_doc_ext doc = \<lparr>toStyledString = (\<lambda>_. ''doc''), reader_parse = (\<lambda>_. Some doc), std_hash = (\<lambda>_. 5)\<rparr>"

definition sample_singleton :: pbft_configuration where
  "sample_singleton = \<lparr>cfg_peers = [sample_member ''a'' 80], sorted_peers = [sample_member ''a'' 80],
     cached_hash = to_string 5\<rparr>"

theorem config_roundtrip_witness:
  "\<exists>c'. from_string (sample_doc_ext (cfg_document sample_singleton)) ''doc'' new_configuration = (True, c')
     \<and> get_peers c' = [sample_member ''a'' 80]"
proof -
  let ?X = "sample_doc_ext (cfg_document sample_singleton)"
  have hash: "create_hash ?X sample_singleton = to_string 5"
    by (simp add: create_hash_def sample_doc_ext_def)
  have wf: "cfg_wf ?X sample_singleton"
    unfolding cfg_wf_def hash by (simp add: sample_singleton_def compatible_def valid_peer_def sample_member_def)
  have ne: "cfg_peers sample_singleton \<noteq> []" by (simp add: sample_singleton_def)
  have json: "reader_parse ?X (toStyledString ?X (cfg_document sample_singleton)) = Some (cfg_document sample_singleton)"
    by (simp add: sample_doc_ext_def)
  have "cfg_to_string ?X sample_singleton = ''doc''"
    by (simp add: cfg_to_string_def sample_doc_ext_def)
  with config_roundtrip [OF wf ne json, of new_configuration] show ?thesis
    by (auto simp: get_peers_def sample_singleton_def)
qed

section \<open>Properties of the store\<close>

lemma find_by_hash_fresh:
  assumes ok: "store_ok st" and fresh: "find_by_hash st (get_hash c) = None"
  shows "find_by_hash (st\<lparr>configs := smap_set i (c, e) (configs st), next_index := n\<rparr>) (get_hash c)
    = Some (i, c, e)"
proof -
  have "List.find (\<lambda>x. get_hash (fst (snd x)) = get_hash c) (smap_set i (c, e) m) = Some (i, c, e)"
    if "\<forall>x \<in> set m. get_hash (fst (snd x)) \<noteq> get_hash c" for m :: "(u64, pbft_configuration \<times> bool) smap"
    using that by (induction m) auto
  from this [OF fresh [unfolded find_by_hash_None]] show ?thesis by (simp add: find_by_hash_def)
qed

lemma smap_set_twice: "smap_set i a (smap_set i b m) = smap_set i a m"
  by (induction m) auto

text \<open>
  A configuration whose hash is not yet in the store goes through its life as intended: added,
  it is stored and not enabled; enabling it and making it current then succeed, after which it is
  enabled and is the current configuration, and no other stored configuration was touched.
\<close>

theorem store_lifecycle:
  assumes ok: "store_ok st" and fresh: "find_by_hash st (get_hash c) = None"
  shows "\<exists>st1 st2 st3. store_add c st = (True, st1) \<and> \<not> is_enabled (get_hash c) st1
     \<and> enable (get_hash c) True st1 = (True, st2)
     \<and> set_current (get_hash c) st2 = (True, st3)
     \<and> is_enabled (get_hash c) st3 \<and> store_current st3 = Some c
     \<and> (\<forall>i. i \<noteq> next_index st \<longrightarrow> map_of (configs st3) i = map_of (configs st) i)"
proof -
  let ?i = "next_index st"
  let ?at = "\<lambda>e cur. st\<lparr>configs := smap_set ?i (c, e) (configs st), current_index := cur, next_index := ?i + 1\<rparr>"
  have find: "find_by_hash (?at e cur) (get_hash c) = Some (?i, c, e)" for e cur
    using find_by_hash_fresh [OF ok fresh, where i = ?i and e = e and n = "?i + 1"]
    by (simp add: find_by_hash_def)
  have "map_of (configs st) ?i = None"
    using ok by (auto simp: store_ok_def map_of_eq_None_iff)
  then have "store_add c st = (True, ?at False (current_index st))"
    by (simp add: store_add_def Let_def)
  moreover have "\<not> is_enabled (get_hash c) (?at False (current_index st))"
    by (simp add: is_enabled_def find_by_hash_fresh [OF ok fresh])
  moreover have "enable (get_hash c) True (?at False (current_index st)) = (True, ?at True (current_index st))"
    by (simp add: enable_def find_by_hash_fresh [OF ok fresh] smap_set_twice)
  moreover have "set_current (get_hash c) (?at True (current_index st)) = (True, ?at True ?i)"
    by (simp add: set_current_def find_by_hash_fresh [OF ok fresh])
  moreover have "is_enabled (get_hash c) (?at True ?i)" "store_current (?at True ?i) = Some c"
    by (simp_all add: is_enabled_def find store_current_def)
  moreover have "\<forall>i. i \<noteq> ?i \<longrightarrow> map_of (configs (?at True ?i)) i = map_of (configs st) i"
    by simp
  ultimately show ?thesis by blast
qed

theorem store_lifecycle_witness:
  "\<exists>st1 st2 st3. store_add sample_singleton new_config_store = (True, st1)
     \<and> enable (get_hash sample_singleton) True st1 = (True, st2)
     \<and> set_current (get_hash sample_singleton) st2 = (True, st3)
     \<and> store_current st3 = Some sample_singleton"
proof -
  have "find_by_hash new_config_store (get_hash sample_singleton) = None"
    by (simp add: find_by_hash_def new_config_store_def)
  from store_lifecycle [OF store_ok_new this] show ?thesis by blast
qed

text \<open>
  Pruning the store never loses the current configuration: it keeps exactly the configuration
  it was asked about, everything added after it, and the current configuration, whatever its age.
\<close>

theorem remove_prior_to_keeps_current:
  assumes "store_ok st" and "find_by_hash st h = Some (i, c, e)"
  shows "fst (remove_prior_to h st)
     \<and> set (configs (snd (remove_prior_to h st)))
         = {x \<in> set (configs st). i \<le> fst x \<or> fst x = current_index st}
     \<and> store_current (snd (remove_prior_to h st)) = store_current st
     \<and> store_ok (snd (remove_prior_to h st))"
proof -
  have "i \<in> fst ` set (configs st)"
    using find_by_hash_Some [OF assms(2)] by (metis fst_conv imageI)
  then have "set (erase_prior i (current_index st) (configs st))
      = {x \<in> set (configs st). i \<le> fst x \<or> fst x = current_index st}"
    using assms(1) by (simp add: erase_prior_set store_ok_def)
  with remove_prior_to_store [OF assms(1), of h] assms(2) show ?thesis
    by (simp add: remove_prior_to_def)
qed

definition sample_store :: pbft_config_store where
  "sample_store = snd (set_current (get_hash sample_singleton)
     (snd (store_add new_configuration (snd (store_add sample_singleton new_config_store)))))"

lemma sample_store_eq:
  "sample_store = \<lparr>configs = [(1, sample_singleton, False), (2, new_configuration, False)],
     current_index = 1, next_index = 3\<rparr>"
  by (simp add: sample_store_def store_defs find_by_hash_def new_config_store_def)

theorem remove_prior_to_keeps_current_witness:
  "configs (snd (remove_prior_to '''' sample_store)) = configs sample_store
     \<and> store_current (snd (remove_prior_to '''' sample_store)) = Some sample_singleton"
proof -
  have ok: "store_ok sample_store"
    by (simp add: sample_store_eq store_ok_def smap_ok_def)
  have hash: "get_hash sample_singleton \<noteq> ''''"
    by (simp add: get_hash_def sample_singleton_def to_string_def)
  then have find: "find_by_hash sample_store '''' = Some (2, new_configuration, False)"
    by (simp add: find_by_hash_def sample_store_eq get_hash_def new_configuration_def)
  from remove_prior_to_keeps_current [OF ok find] find show ?thesis
    by (simp add: store_current_def sample_store_eq remove_prior_to_def)
qed

end
