(* ===== verification/Pbft.thy ===== *)
theory Pbft
  imports Pbft_Config Failure_Detector
begin

text \<open>
  The PBFT replica, \<open>pbft/pbft.cpp\<close>: one definition per member function, on the record \<open>pbft\<close> of the
  object's state. A handler returns \<open>Inl\<close> where the C++ throws or has no defined behaviour. What a
  handler sends or posts is appended to \<open>effects\<close>: messages to peers, forwarded requests, answers on
  a session, operations posted to the service, restarts of the heartbeat timer.

  Protobuf messages are their typed contents: an envelope's payload is the message its bytes parse
  to, if they do. The strings that protobuf, jsoncpp and base64 compute are fields of the parameter
  \<open>pbft_lib\<close>, as is the hash the service reports for its state.
\<close>

section \<open>Messages and state\<close>

datatype payload =
    Pay_not_set
  | Pay_pbft "pbft_msg option"
  | Pay_membership "pbft_membership_msg option"
  | Pay_other

record bzn_envelope =
  e_sender :: uuid_t
  e_payload :: payload

definition default_pbft_msg :: pbft_msg where
  "default_pbft_msg = \<lparr>m_type = PBFT_MSG_UNDEFINED, m_view = 0, m_sequence = 0, m_request = None,
     m_state_hash = ''''\<rparr>"

text \<open>
  A JSON database message is the text of its \<open>msg\<close> member, if it has one; \<open>decode_db\<close> is the base64
  and protobuf decoding of that text.
\<close>

type_synonym db_json = "string option"

record pbft_lib =
  ShortDebugString :: "pbft_request \<Rightarrow> string"
  config_lib :: config_ext
  envelope_string :: "bzn_envelope \<Rightarrow> string"
  decode_db :: "string \<Rightarrow> database_msg option"
  state_hash_at :: "u64 \<Rightarrow> hash_t"

datatype wire = Wire_pbft uuid_t pbft_msg | Wire_audit audit_message

datatype effect =
    Send_str endpoint wire
  | Forward endpoint db_json
  | Send_session session_id database_response bool
  | Post_apply pbft_operation
  | Heartbeat_wait

type_synonym checkpoint_t = "u64 \<times> hash_t"

record pbft =
  p_view :: u64
  next_issued_sequence_number :: u64
  low_water_mark :: u64
  high_water_mark :: u64
  p_uuid :: uuid_t
  detector :: failure_detector
  operations :: "(operation_key_t, pbft_operation) smap"
  accepted_preprepares :: "(log_key_t, operation_key_t) smap"
  audit_enabled :: bool
  stable_checkpoint :: checkpoint_t
  stable_checkpoint_proof :: "(uuid_t, string) umap"
  local_unstable_checkpoints :: "checkpoint_t list"
  unstable_checkpoint_proofs :: "(checkpoint_t, (uuid_t, string) umap) smap"
  configurations :: pbft_config_store
  effects :: "effect list"

definition INITIAL_CHECKPOINT_HASH :: hash_t where
  "INITIAL_CHECKPOINT_HASH = ''<null db state>''"

definition CHECKPOINT_INTERVAL :: u64 where
  "CHECKPOINT_INTERVAL = 100"

text \<open>\<open>lround(CHECKPOINT_INTERVAL * HIGH_WATER_INTERVAL_IN_CHECKPOINTS)\<close>.\<close>

definition high_water_interval :: u64 where
  "high_water_interval = 200"

section \<open>Peers and the primary\<close>

abbreviation emit :: "effect list \<Rightarrow> pbft \<Rightarrow> pbft" where
  "emit es st \<equiv> st\<lparr>effects := effects st @ es\<rparr>"

definition current_peers :: "pbft \<Rightarrow> peer_address_t list res" where
  "current_peers st =
     (case store_current (configurations st) of
        Some config \<Rightarrow> Inr (get_peers config)
      | None \<Rightarrow> Inl (Runtime_error ''No current configuration!''))"

definition get_primary :: "pbft \<Rightarrow> peer_address_t res" where
  "get_primary st = bindE (current_peers st) (\<lambda>peers.
     if peers = [] then Inl (Undefined_behaviour ''remainder by zero'')
     else Inr (peers ! unat (p_view st mod word_of_nat (length peers))))"

definition is_primary :: "pbft \<Rightarrow> bool res" where
  "is_primary st = bindE (get_primary st) (\<lambda>p. Inr (pa_uuid p = p_uuid st))"

definition max_faulty_nodes :: "pbft \<Rightarrow> nat res" where
  "max_faulty_nodes st = bindE (current_peers st) (\<lambda>peers. Inr (length peers div 3))"

definition quorum_size :: "pbft \<Rightarrow> nat res" where
  "quorum_size st = bindE (max_faulty_nodes st) (\<lambda>f. Inr (1 + 2 * f))"

definition broadcast :: "wire \<Rightarrow> pbft \<Rightarrow> pbft res" where
  "broadcast w st = bindE (current_peers st) (\<lambda>peers.
     Inr (emit (map (\<lambda>p. Send_str (make_endpoint p) w) peers) st))"

definition wrap_message :: "pbft_msg \<Rightarrow> pbft \<Rightarrow> wire" where
  "wrap_message msg st = Wire_pbft (p_uuid st) msg"

section \<open>Operations\<close>

definition find_operation ::
  "pbft_lib \<Rightarrow> u64 \<Rightarrow> u64 \<Rightarrow> pbft_request \<Rightarrow> pbft \<Rightarrow> (operation_key_t \<times> pbft) res" where
  "find_operation X view sequence request st =
     (let key = (view, sequence, request_hash (ShortDebugString X) request) in
      case map_of (operations st) key of
        Some _ \<Rightarrow> Inr (key, st)
      | None \<Rightarrow> bindE (current_peers st) (\<lambda>peers.
          Inr (key, st\<lparr>operations := smap_set key (new_operation view sequence request peers) (operations st)\<rparr>)))"

text \<open>The operation a handler holds a pointer to, read and changed in place.\<close>

definition op_at :: "operation_key_t \<Rightarrow> pbft \<Rightarrow> pbft_operation" where
  "op_at key st = the (map_of (operations st) key)"

definition change_op :: "operation_key_t \<Rightarrow> (pbft_operation \<Rightarrow> pbft_operation) \<Rightarrow> pbft \<Rightarrow> pbft" where
  "change_op key f st = st\<lparr>operations := smap_set key (f (op_at key st)) (operations st)\<rparr>"

definition common_message_setup :: "pbft_operation \<Rightarrow> pbft_msg_type \<Rightarrow> pbft_msg" where
  "common_message_setup op type = \<lparr>m_type = type, m_view = op_view op, m_sequence = op_sequence op,
     m_request = Some (op_request op), m_state_hash = ''''\<rparr>"

definition setup_request_operation ::
  "pbft_lib \<Rightarrow> pbft_request \<Rightarrow> session_id option \<Rightarrow> pbft \<Rightarrow> (operation_key_t \<times> pbft) res" where
  "setup_request_operation X msg session st =
     (let request_seq = next_issued_sequence_number st;
          st = st\<lparr>next_issued_sequence_number := request_seq + 1\<rparr> in
      bindE (find_operation X (p_view st) request_seq msg st) (\<lambda>(key, st).
        Inr (key, case session of None \<Rightarrow> st | Some s \<Rightarrow> change_op key (set_session (Some s)) st)))"

definition do_preprepare :: "operation_key_t \<Rightarrow> pbft \<Rightarrow> pbft res" where
  "do_preprepare key st =
     broadcast (wrap_message (common_message_setup (op_at key st) PBFT_MSG_PREPREPARE) st) st"

definition do_preprepared :: "operation_key_t \<Rightarrow> pbft \<Rightarrow> pbft res" where
  "do_preprepared key st =
     broadcast (wrap_message (common_message_setup (op_at key st) PBFT_MSG_PREPARE) st) st"

text \<open>The configuration a request carries, if it is a configuration request that can be read.\<close>

definition carried_config :: "pbft_lib \<Rightarrow> pbft_request \<Rightarrow> pbft_configuration option" where
  "carried_config X req =
     (if req_type req = PBFT_REQ_NEW_CONFIG \<and> req_has_config req
      then (let (ok, config) = from_string (config_lib X) (req_configuration req) new_configuration in
            if ok then Some config else None)
      else None)"

definition do_prepared :: "pbft_lib \<Rightarrow> operation_key_t \<Rightarrow> pbft \<Rightarrow> pbft res" where
  "do_prepared X key st =
     (let st = (case carried_config X (op_request (op_at key st)) of
             None \<Rightarrow> st
           | Some config \<Rightarrow> st\<lparr>configurations := snd (enable (get_hash config) True (configurations st))\<rparr>) in
      bindE (begin_commit_phase (op_at key st)) (\<lambda>op.
        let st = change_op key (\<lambda>_. op) st in
        broadcast (wrap_message (common_message_setup op PBFT_MSG_COMMIT) st) st))"

definition do_committed :: "pbft_lib \<Rightarrow> operation_key_t \<Rightarrow> pbft \<Rightarrow> pbft res" where
  "do_committed X key st =
     (let st = (case carried_config X (op_request (op_at key st)) of
             None \<Rightarrow> st
           | Some config \<Rightarrow> st\<lparr>configurations := snd (remove_prior_to (get_hash config) (configurations st))\<rparr>) in
      bindE (end_commit_phase (op_at key st)) (\<lambda>op.
        let st = change_op key (\<lambda>_. op) st in
        bindE (if audit_enabled st
               then broadcast (Wire_audit (Audit_pbft_commit \<lparr>pc_sender_uuid = p_uuid st,
                      pc_sequence_number = op_sequence op,
                      pc_operation = request_hash (ShortDebugString X) (op_request op)\<rparr>)) st
               else Inr st) (\<lambda>st.
        bindE (find_operation X (op_view op) (op_sequence op) (op_request op) st) (\<lambda>(k, st).
          Inr (emit [Post_apply (op_at k st)] st)))))"

definition maybe_advance_operation_state :: "pbft_lib \<Rightarrow> operation_key_t \<Rightarrow> pbft \<Rightarrow> pbft res" where
  "maybe_advance_operation_state X key st =
     bindE (if op_state (op_at key st) = Op_prepare \<and> is_prepared (op_at key st)
            then do_prepared X key st else Inr st) (\<lambda>st.
     if op_state (op_at key st) = Op_commit \<and> is_committed (op_at key st)
     then do_committed X key st else Inr st)"

section \<open>Message handlers\<close>

definition preliminary_filter_msg :: "pbft_msg \<Rightarrow> pbft \<Rightarrow> bool" where
  "preliminary_filter_msg msg st =
     (if m_type msg \<in> {PBFT_MSG_PREPREPARE, PBFT_MSG_PREPARE, PBFT_MSG_COMMIT}
      then (if m_view msg \<noteq> p_view st then False
            else if m_sequence msg \<le> low_water_mark st then False
            else if high_water_mark st < m_sequence msg then False
            else True)
      else True)"

definition proposed_config_is_acceptable :: "pbft_configuration \<Rightarrow> bool" where
  "proposed_config_is_acceptable config = True"

definition handle_config_message :: "pbft_lib \<Rightarrow> pbft_msg \<Rightarrow> operation_key_t \<Rightarrow> pbft \<Rightarrow> pbft" where
  "handle_config_message X msg key st =
     (let request = op_request (op_at key st);
          (ok, config) = from_string (config_lib X) (req_configuration request) new_configuration in
      if m_type msg = PBFT_MSG_PREPREPARE \<and> ok
      then (if proposed_config_is_acceptable config
            then st\<lparr>configurations := snd (store_add config (configurations st))\<rparr>
            else st)
      else st)"

definition handle_preprepare :: "pbft_lib \<Rightarrow> pbft_msg \<Rightarrow> pbft \<Rightarrow> pbft res" where
  "handle_preprepare X msg st =
     (let log_key = (m_view msg, m_sequence msg) in
      if (case map_of (accepted_preprepares st) log_key of
            Some key \<Rightarrow> snd (snd key) \<noteq> request_hash (ShortDebugString X) (msg_request msg)
          | None \<Rightarrow> False)
      then Inr st
      else
        bindE (find_operation X (m_view msg) (m_sequence msg) (msg_request msg) st) (\<lambda>(key, st).
        let st = change_op key record_preprepare st;
            st = st\<lparr>accepted_preprepares := smap_set log_key
                   (get_operation_key (ShortDebugString X) (op_at key st)) (accepted_preprepares st)\<rparr>;
            st = (if m_request msg \<noteq> None \<and> req_type (msg_request msg) = PBFT_REQ_NEW_CONFIG
                  then handle_config_message X msg key st else st)
        in bindE (do_preprepared key st) (maybe_advance_operation_state X key)))"

definition handle_prepare :: "pbft_lib \<Rightarrow> pbft_msg \<Rightarrow> bzn_envelope \<Rightarrow> pbft \<Rightarrow> pbft res" where
  "handle_prepare X msg original_msg st =
     bindE (find_operation X (m_view msg) (m_sequence msg) (msg_request msg) st) (\<lambda>(key, st).
       maybe_advance_operation_state X key (change_op key (record_prepare (e_sender original_msg)) st))"

definition handle_commit :: "pbft_lib \<Rightarrow> pbft_msg \<Rightarrow> bzn_envelope \<Rightarrow> pbft \<Rightarrow> pbft res" where
  "handle_commit X msg original_msg st =
     bindE (find_operation X (m_view msg) (m_sequence msg) (msg_request msg) st) (\<lambda>(key, st).
       maybe_advance_operation_state X key (change_op key (record_commit (e_sender original_msg)) st))"

text \<open>A request that a replica which is not the primary receives is forwarded unchanged.\<close>

definition handle_request ::
  "pbft_lib \<Rightarrow> pbft_request \<Rightarrow> db_json \<Rightarrow> session_id option \<Rightarrow> pbft \<Rightarrow> pbft res" where
  "handle_request X msg original_msg session st =
     bindE (is_primary st) (\<lambda>primary.
     if \<not> primary
     then bindE (get_primary st) (\<lambda>p. Inr (emit [Forward (make_endpoint p) original_msg] st))
     else bindE (setup_request_operation X msg session st) (\<lambda>(key, st). do_preprepare key st))"

definition broadcast_new_configuration :: "pbft_lib \<Rightarrow> pbft_configuration \<Rightarrow> pbft \<Rightarrow> pbft res" where
  "broadcast_new_configuration X config st =
     bindE (setup_request_operation X (default_request\<lparr>req_type := PBFT_REQ_NEW_CONFIG,
              req_body := Req_config (cfg_to_string (config_lib X) config)\<rparr>) None st)
       (\<lambda>(key, st). do_preprepare key st)"

definition handle_join_or_leave :: "pbft_lib \<Rightarrow> pbft_membership_msg \<Rightarrow> pbft \<Rightarrow> pbft res" where
  "handle_join_or_leave X msg st =
     bindE (is_primary st) (\<lambda>primary.
     if \<not> primary then Inr st
     else case mm_peer_info msg of
       None \<Rightarrow> Inr st
     | Some info \<Rightarrow>
         (let peer = \<lparr>pa_host = pi_host info, pa_port = ucast (pi_port info),
                pa_http_port = ucast (pi_http_port info), pa_name = pi_name info, pa_uuid = pi_uuid info\<rparr>
          in case store_current (configurations st) of
               None \<Rightarrow> Inl (Undefined_behaviour ''null configuration'')
             | Some current \<Rightarrow>
                 (let (ok, config) =
                    (if mm_type msg = PBFT_MMSG_JOIN then add_peer (config_lib X) peer current
                     else if mm_type msg = PBFT_MMSG_LEAVE then remove_peer (config_lib X) peer current
                     else (True, current))
                  in if \<not> ok then Inr st
                     else broadcast_new_configuration X config
                            (st\<lparr>configurations := snd (store_add config (configurations st))\<rparr>))))"

definition handle_membership_message :: "pbft_lib \<Rightarrow> bzn_envelope \<Rightarrow> pbft \<Rightarrow> pbft res" where
  "handle_membership_message X msg st =
     (case (case e_payload msg of Pay_membership m \<Rightarrow> m
            | _ \<Rightarrow> Some \<lparr>mm_type = PBFT_MMSG_UNDEFINED, mm_peer_info = None\<rparr>) of
        None \<Rightarrow> Inr st
      | Some inner_msg \<Rightarrow>
          if mm_peer_info inner_msg \<noteq> None \<and> mm_type inner_msg \<in> {PBFT_MMSG_JOIN, PBFT_MMSG_LEAVE}
          then handle_join_or_leave X inner_msg st
          else Inr st)"

section \<open>Checkpoints\<close>

definition latest_stable_checkpoint :: "pbft \<Rightarrow> checkpoint_t" where
  "latest_stable_checkpoint st = stable_checkpoint st"

definition latest_checkpoint :: "pbft \<Rightarrow> checkpoint_t" where
  "latest_checkpoint st =
     (if local_unstable_checkpoints st = [] then stable_checkpoint st
      else last (local_unstable_checkpoints st))"

definition clear_local_checkpoints_until :: "checkpoint_t \<Rightarrow> pbft \<Rightarrow> pbft" where
  "clear_local_checkpoints_until cp st =
     st\<lparr>local_unstable_checkpoints :=
          erase_until (\<lambda>c. c) (fst cp + 1, '''') (local_unstable_checkpoints st)\<rparr>"

definition clear_checkpoint_messages_until :: "checkpoint_t \<Rightarrow> pbft \<Rightarrow> pbft" where
  "clear_checkpoint_messages_until cp st =
     st\<lparr>unstable_checkpoint_proofs :=
          erase_until fst (fst cp + 1, '''') (unstable_checkpoint_proofs st)\<rparr>"

definition clear_operations_until :: "checkpoint_t \<Rightarrow> pbft \<Rightarrow> pbft" where
  "clear_operations_until cp st =
     st\<lparr>operations := filter (\<lambda>(_, op). \<not> op_sequence op \<le> fst cp) (operations st)\<rparr>"

text \<open>
  \<open>maybe_stabilize_checkpoint\<close> takes its argument by reference. \<open>in_set\<close> tells that it refers to the
  element of \<open>local_unstable_checkpoints\<close> itself (the call in \<open>checkpoint_reached_locally\<close>) and not to
  a variable of the caller (the call in \<open>handle_checkpoint\<close>): then the reference dangles once the
  element is erased, and the next read through it has no defined meaning. Looking up the proofs
  with \<open>operator[]\<close> inserts an empty entry.
\<close>

definition maybe_stabilize_checkpoint :: "bool \<Rightarrow> checkpoint_t \<Rightarrow> pbft \<Rightarrow> pbft res" where
  "maybe_stabilize_checkpoint in_set cp st =
     (if cp \<notin> set (local_unstable_checkpoints st) then Inr st
      else
        (let proofs = (case map_of (unstable_checkpoint_proofs st) cp of None \<Rightarrow> [] | Some p \<Rightarrow> p);
             st = st\<lparr>unstable_checkpoint_proofs := smap_set cp proofs (unstable_checkpoint_proofs st)\<rparr> in
         bindE (quorum_size st) (\<lambda>quorum.
         if length proofs < quorum then Inr st
         else
           (let st = st\<lparr>stable_checkpoint := cp, stable_checkpoint_proof := proofs\<rparr>;
                st = clear_local_checkpoints_until cp st in
            if in_set \<and> cp \<notin> set (local_unstable_checkpoints st)
            then Inl (Undefined_behaviour ''reference to an erased element'')
            else
              (let st = clear_operations_until cp (clear_checkpoint_messages_until cp st) in
               Inr (st\<lparr>low_water_mark := max (low_water_mark st) (fst cp),
                       high_water_mark := max (high_water_mark st) (fst cp + high_water_interval)\<rparr>))))))"

definition checkpoint_reached_locally :: "pbft_lib \<Rightarrow> u64 \<Rightarrow> pbft \<Rightarrow> pbft res" where
  "checkpoint_reached_locally X sequence st =
     (let cp = (sequence, state_hash_at X sequence);
          st = st\<lparr>local_unstable_checkpoints := sset_insert cp (local_unstable_checkpoints st)\<rparr>;
          cp_msg = default_pbft_msg\<lparr>m_type := PBFT_MSG_CHECKPOINT, m_view := p_view st,
             m_sequence := sequence, m_state_hash := snd cp\<rparr> in
      bindE (broadcast (wrap_message cp_msg st) st) (maybe_stabilize_checkpoint True cp))"

definition handle_checkpoint :: "pbft_lib \<Rightarrow> pbft_msg \<Rightarrow> bzn_envelope \<Rightarrow> pbft \<Rightarrow> pbft res" where
  "handle_checkpoint X msg original_msg st =
     (if m_sequence msg \<le> fst (stable_checkpoint st) then Inr st
      else
        (let cp = (m_sequence msg, m_state_hash msg);
             proofs = (case map_of (unstable_checkpoint_proofs st) cp of None \<Rightarrow> [] | Some p \<Rightarrow> p) in
         maybe_stabilize_checkpoint False cp
           (st\<lparr>unstable_checkpoint_proofs := smap_set cp
                (AList.update (e_sender original_msg) (envelope_string X original_msg) proofs)
                (unstable_checkpoint_proofs st)\<rparr>)))"

section \<open>Dispatch, timers and construction\<close>

definition handle_message :: "pbft_lib \<Rightarrow> pbft_msg \<Rightarrow> bzn_envelope \<Rightarrow> pbft \<Rightarrow> pbft res" where
  "handle_message X msg original_msg st =
     (if \<not> preliminary_filter_msg msg st then Inr st
      else
        (let st = (case m_request msg of None \<Rightarrow> st
               | Some req \<Rightarrow> st\<lparr>detector := request_seen (ShortDebugString X) req (detector st)\<rparr>) in
         case m_type msg of
           PBFT_MSG_PREPREPARE \<Rightarrow> handle_preprepare X msg st
         | PBFT_MSG_PREPARE \<Rightarrow> handle_prepare X msg original_msg st
         | PBFT_MSG_COMMIT \<Rightarrow> handle_commit X msg original_msg st
         | PBFT_MSG_CHECKPOINT \<Rightarrow> handle_checkpoint X msg original_msg st
         | PBFT_MSG_UNDEFINED \<Rightarrow> Inl (Runtime_error ''Unsupported message type'')))"

text \<open>
  A misdirected envelope is only logged: its \<open>pbft()\<close> is the empty string, which parses to the
  default message.
\<close>

definition handle_bzn_message :: "pbft_lib \<Rightarrow> bzn_envelope \<Rightarrow> pbft \<Rightarrow> pbft res" where
  "handle_bzn_message X msg st =
     (case (case e_payload msg of Pay_pbft m \<Rightarrow> m | _ \<Rightarrow> Some default_pbft_msg) of
        None \<Rightarrow> Inr st
      | Some inner_msg \<Rightarrow> handle_message X inner_msg msg st)"

definition handle_database_message :: "pbft_lib \<Rightarrow> db_json \<Rightarrow> session_id \<Rightarrow> pbft \<Rightarrow> pbft res" where
  "handle_database_message X json session st =
     (let invalid = emit [Send_session session
            (default_response\<lparr>resp_body := Resp_error MSG_INVALID_CRUD_COMMAND\<rparr>) True] st in
      case json of
        None \<Rightarrow> Inr invalid
      | Some text \<Rightarrow>
          (case decode_db X text of
             None \<Rightarrow> Inr invalid
           | Some db \<Rightarrow>
               bindE (handle_request X (default_request\<lparr>req_body := Req_operation db, req_timestamp := 0\<rparr>)
                        json (Some session) st) (\<lambda>st.
               Inr (emit [Send_session session (default_response\<lparr>resp_header := db_header db\<rparr>) False] st))))"

text \<open>The execute handler that \<open>start\<close> registers with the service.\<close>

definition execute_handler :: "pbft_lib \<Rightarrow> pbft_request \<Rightarrow> u64 \<Rightarrow> pbft \<Rightarrow> pbft res" where
  "execute_handler X req sequence st =
     (let st = st\<lparr>detector := request_executed (ShortDebugString X) req (detector st)\<rparr> in
      if sequence mod CHECKPOINT_INTERVAL = 0 then checkpoint_reached_locally X sequence st else Inr st)"

definition handle_audit_heartbeat_timeout :: "bool \<Rightarrow> pbft \<Rightarrow> pbft res" where
  "handle_audit_heartbeat_timeout ec st =
     (if ec then Inr st
      else
        bindE (is_primary st) (\<lambda>primary.
        bindE (if primary \<and> audit_enabled st
               then broadcast (Wire_audit (Audit_primary_status \<lparr>ps_view = p_view st, ps_primary = p_uuid st\<rparr>)) st
               else Inr st) (\<lambda>st.
        Inr (emit [Heartbeat_wait] st))))"

definition notify_audit_failure_detected :: "pbft \<Rightarrow> pbft res" where
  "notify_audit_failure_detected st =
     (if audit_enabled st then broadcast (Wire_audit (Audit_failure_detected (p_uuid st))) st else Inr st)"

definition handle_failure :: "pbft \<Rightarrow> pbft res" where
  "handle_failure st = notify_audit_failure_detected st"

definition set_audit_enabled :: "bool \<Rightarrow> pbft \<Rightarrow> pbft" where
  "set_audit_enabled setting st = st\<lparr>audit_enabled := setting\<rparr>"

definition is_configuration_acceptable_in_new_view :: "hash_t \<Rightarrow> pbft \<Rightarrow> bool" where
  "is_configuration_acceptable_in_new_view config_hash st = is_enabled config_hash (configurations st)"

definition move_to_new_configuration :: "hash_t \<Rightarrow> pbft \<Rightarrow> bool \<times> pbft" where
  "move_to_new_configuration config_hash st =
     (if is_enabled config_hash (configurations st)
      then (True, st\<lparr>configurations := snd (remove_prior_to config_hash
              (snd (set_current config_hash (configurations st))))\<rparr>)
      else (False, st))"

fun add_peers :: "config_ext \<Rightarrow> peer_address_t list \<Rightarrow> bool \<Rightarrow> pbft_configuration \<Rightarrow> bool \<times> pbft_configuration" where
  "add_peers E [] config_good config = (config_good, config)"
| "add_peers E (p # peers) config_good config =
     (let (ok, config) = add_peer E p config in add_peers E peers (config_good \<and> ok) config)"

definition initialize_configuration :: "pbft_lib \<Rightarrow> peer_address_t list \<Rightarrow> pbft \<Rightarrow> bool \<times> pbft" where
  "initialize_configuration X peers st =
     (let (config_good, config) = add_peers (config_lib X) peers True new_configuration;
          configs = snd (store_add config (configurations st));
          configs = snd (enable (get_hash config) True configs);
          configs = snd (set_current (get_hash config) configs)
      in (config_good, st\<lparr>configurations := configs\<rparr>))"

definition new_pbft :: "pbft_lib \<Rightarrow> peer_address_t list \<Rightarrow> uuid_t \<Rightarrow> pbft res" where
  "new_pbft X peers uuid =
     (if peers = [] then Inl (Runtime_error ''No peers found!'')
      else Inr (snd (initialize_configuration X peers
        \<lparr>p_view = 1, next_issued_sequence_number = 1, low_water_mark = 0,
         high_water_mark = 0 + high_water_interval, p_uuid = uuid, detector = new_failure_detector,
         operations = [], accepted_preprepares = [], audit_enabled = True,
         stable_checkpoint = (0, INITIAL_CHECKPOINT_HASH), stable_checkpoint_proof = [],
         local_unstable_checkpoints = [], unstable_checkpoint_proofs = [],
         configurations = new_config_store, effects = []\<rparr>)))"

text \<open>The report of \<open>get_status\<close>.\<close>

record pbft_status =
  outstanding_operations_count :: nat
  status_is_primary :: bool
  status_primary :: peer_address_t
  status_stable_checkpoint :: checkpoint_t
  status_latest_checkpoint :: checkpoint_t
  unstable_checkpoints_count :: nat
  status_next_sequence :: u64
  status_view :: u64
  peer_index :: "peer_address_t list"

definition get_status :: "pbft \<Rightarrow> pbft_status res" where
  "get_status st =
     bindE (is_primary st) (\<lambda>primary. bindE (get_primary st) (\<lambda>p. bindE (current_peers st) (\<lambda>peers.
       Inr \<lparr>outstanding_operations_count = length (operations st), status_is_primary = primary,
            status_primary = p, status_stable_checkpoint = latest_stable_checkpoint st,
            status_latest_checkpoint = latest_checkpoint st,
            unstable_checkpoints_count = length (local_unstable_checkpoints st),
            status_next_sequence = next_issued_sequence_number st, status_view = p_view st,
            peer_index = peers\<rparr>)))"

section \<open>The initial configuration\<close>

text \<open>A new replica has one configuration, of the peers that could be added, enabled and current.\<close>

lemma new_pbft_configurations:
  assumes "new_pbft X peers uuid = Inr st"
  shows "configurations st = \<lparr>configs = [(1, snd (add_peers (config_lib X) peers True new_configuration), True)],
     current_index = 1, next_index = 2\<rparr>"
  using assms
  by (auto simp: new_pbft_def initialize_configuration_def Let_def store_add_def enable_def set_current_def
      new_config_store_def find_by_hash_def split: if_splits prod.splits)

lemma new_pbft_current:
  "new_pbft X peers uuid = Inr st
   \<Longrightarrow> current_peers st = Inr (get_peers (snd (add_peers (config_lib X) peers True new_configuration)))"
  using new_pbft_configurations [of X peers uuid st] by (simp add: current_peers_def store_current_def)

end
