(* ===== verification/Pbft_Invariant.thy ===== *)
theory Pbft_Invariant
  imports Pbft
begin

text \<open>
  The invariant of one replica, against whatever messages it is handed. \<open>V\<close> is the set of prepare
  votes that exist, as pairs of a sender and an operation key: every vote a replica has counted is in
  it. The invariant ties the operation table to the phase machine of \<open>Pbft_Operation\<close>, the prepares
  the replica has sent to the preprepares it has accepted, and the operations it has handed to its
  service to their certificates. Every handler keeps it.
\<close>

section \<open>The invariant\<close>

definition msg_key :: "pbft_lib \<Rightarrow> pbft_msg \<Rightarrow> operation_key_t" where
  "msg_key X m = (m_view m, m_sequence m, request_hash (ShortDebugString X) (msg_request m))"

type_synonym votes = "(uuid_t \<times> operation_key_t) set"

definition good_op :: "pbft_lib \<Rightarrow> nat \<Rightarrow> votes \<Rightarrow> u64 \<Rightarrow> operation_key_t \<Rightarrow> pbft_operation \<Rightarrow> bool" where
  "good_op X n V view key op \<longleftrightarrow> key = get_operation_key (ShortDebugString X) op \<and> op_reachable op
     \<and> length (op_peers op) = n \<and> op_view op = view \<and> (\<forall>s \<in> prepares_seen op. (s, key) \<in> V)"

definition good_effect ::
  "pbft_lib \<Rightarrow> nat \<Rightarrow> votes \<Rightarrow> u64 \<Rightarrow> uuid_t \<Rightarrow> (log_key_t \<rightharpoonup> operation_key_t) \<Rightarrow> effect \<Rightarrow> bool" where
  "good_effect X n V view uuid acc e =
     (case e of
        Send_str _ (Wire_pbft sender m) \<Rightarrow> sender = uuid
          \<and> (m_type m = PBFT_MSG_PREPARE \<longrightarrow> acc (m_view m, m_sequence m) = Some (msg_key X m))
      | Post_apply op \<Rightarrow> good_op X n V view (get_operation_key (ShortDebugString X) op) op
          \<and> op_state op = Op_committed
      | _ \<Rightarrow> True)"

definition cfg_inv :: "nat \<Rightarrow> pbft_config_store \<Rightarrow> bool" where
  "cfg_inv n cs \<longleftrightarrow> smap_ok (configs cs) \<and> (\<exists>c. store_current cs = Some c \<and> length (get_peers c) = n)"

definition ops_ok :: "pbft_lib \<Rightarrow> nat \<Rightarrow> votes \<Rightarrow> u64 \<Rightarrow> (operation_key_t \<rightharpoonup> pbft_operation) \<Rightarrow> bool" where
  "ops_ok X n V view m \<longleftrightarrow> (\<forall>k op. m k = Some op \<longrightarrow> good_op X n V view k op)"

definition acc_ok :: "(log_key_t \<rightharpoonup> operation_key_t) \<Rightarrow> bool" where
  "acc_ok acc \<longleftrightarrow> (\<forall>k key. acc k = Some key \<longrightarrow> (fst key, fst (snd key)) = k)"

text \<open>
  \<open>B\<close> is what a run of the replica keeps from some earlier point on: its name, its view, the effects
  it had produced and the preprepares it had accepted.
\<close>

type_synonym base = "uuid_t \<times> u64 \<times> effect set \<times> (log_key_t \<rightharpoonup> operation_key_t)"

definition pbft_inv :: "pbft_lib \<Rightarrow> nat \<Rightarrow> base \<Rightarrow> votes \<Rightarrow> pbft \<Rightarrow> bool" where
  "pbft_inv X n B V st \<longleftrightarrow> fst B = p_uuid st \<and> fst (snd B) = p_view st
     \<and> fst (snd (snd B)) \<subseteq> set (effects st) \<and> snd (snd (snd B)) \<subseteq>\<^sub>m map_of (accepted_preprepares st)
     \<and> smap_ok (operations st)
     \<and> ops_ok X n V (p_view st) (map_of (operations st)) \<and> acc_ok (map_of (accepted_preprepares st))
     \<and> (\<forall>e \<in> set (effects st). good_effect X n V (p_view st) (p_uuid st) (map_of (accepted_preprepares st)) e)
     \<and> cfg_inv n (configurations st)"

lemma good_op_mono: "good_op X n V v k op \<Longrightarrow> V \<subseteq> W \<Longrightarrow> good_op X n W v k op"
  by (auto simp: good_op_def)

lemma map_le_Some: "m \<subseteq>\<^sub>m m' \<Longrightarrow> m k = Some v \<Longrightarrow> m' k = Some v"
  by (metis domI map_le_def)

lemma good_effect_mono:
  "good_effect X n V v u acc e \<Longrightarrow> V \<subseteq> W \<Longrightarrow> acc \<subseteq>\<^sub>m acc' \<Longrightarrow> good_effect X n W v u acc' e"
  by (auto simp: good_effect_def split: effect.splits wire.splits intro: good_op_mono map_le_Some)

lemma ops_ok_upd: "ops_ok X n V v m \<Longrightarrow> good_op X n V v k op \<Longrightarrow> ops_ok X n V v (m(k \<mapsto> op))"
  by (simp add: ops_ok_def)

lemma acc_ok_upd: "acc_ok acc \<Longrightarrow> (fst key, fst (snd key)) = k \<Longrightarrow> acc_ok (acc(k \<mapsto> key))"
  by (auto simp: acc_ok_def)

lemma acc_okD: "acc_ok acc \<Longrightarrow> acc k = Some key \<Longrightarrow> key = (fst k, snd k, snd (snd key))"
  unfolding acc_ok_def by (metis fst_conv snd_conv prod.collapse)

lemma pbft_inv_mono: "pbft_inv X n B V st \<Longrightarrow> V \<subseteq> W \<Longrightarrow> pbft_inv X n B W st"
  unfolding pbft_inv_def ops_ok_def by (meson good_op_mono good_effect_mono map_le_refl)

lemma pbft_inv_op: "pbft_inv X n B V st \<Longrightarrow> map_of (operations st) k = Some op \<Longrightarrow> good_op X n V (p_view st) k op"
  unfolding pbft_inv_def ops_ok_def by blast

lemma good_op_step:
  "good_op X n V v k op \<Longrightarrow> op_step op op' \<Longrightarrow> prepares_seen op' \<subseteq> prepares_seen op \<union> {s. (s, k) \<in> V}
   \<Longrightarrow> good_op X n V v k op'"
  using op_fixed_fields [of op op'] op_reachable.step [of op op']
  by (auto simp: good_op_def get_operation_key_def)

section \<open>Configurations\<close>

lemma cfg_inv_add: "cfg_inv n cs \<Longrightarrow> cfg_inv n (snd (store_add c cs))"
  by (auto simp: cfg_inv_def store_add_def store_current_def Let_def)

lemma cfg_inv_enable: "cfg_inv n cs \<Longrightarrow> cfg_inv n (snd (enable h b cs))"
  using find_by_hash_Some [of cs h]
  by (fastforce simp: cfg_inv_def enable_def store_current_def map_of_smap_member split: option.splits)

lemma cfg_inv_remove_prior: "cfg_inv n cs \<Longrightarrow> cfg_inv n (snd (remove_prior_to h cs))"
proof -
  have keep: "map_of (erase_prior i j m) j = map_of m j" for i j and m :: "(u64, pbft_configuration \<times> bool) smap"
    by (induction m) auto
  show "cfg_inv n cs \<Longrightarrow> cfg_inv n (snd (remove_prior_to h cs))"
    by (auto simp: cfg_inv_def remove_prior_to_def store_current_def keep smap_ok_erase_prior split: option.splits)
qed

lemma pbft_inv_configurations:
  "pbft_inv X n B V st \<Longrightarrow> cfg_inv n cs \<Longrightarrow> pbft_inv X n B V (st\<lparr>configurations := cs\<rparr>)"
  by (simp add: pbft_inv_def)

lemma current_peers_length:
  "pbft_inv X n B V st \<Longrightarrow> \<exists>ps. current_peers st = Inr ps \<and> length ps = n"
  by (auto simp: pbft_inv_def cfg_inv_def current_peers_def)

section \<open>Primitive changes\<close>

lemma find_operation_inv:
  assumes "pbft_inv X n B V st" "find_operation X (p_view st) s r st = Inr (key, st')"
  shows "pbft_inv X n B V st'" "key = (p_view st, s, request_hash (ShortDebugString X) r)"
    and "\<exists>op. map_of (operations st') key = Some op" "st' = st\<lparr>operations := operations st'\<rparr>"
proof -
  let ?key = "(p_view st, s, request_hash (ShortDebugString X) r)"
  obtain ps where ps: "current_peers st = Inr ps" "length ps = n"
    using current_peers_length [OF assms(1)] by blast
  have new: "good_op X n V (p_view st) ?key (new_operation (p_view st) s r ps)"
    using ps(2) op_reachable.start [of "p_view st" s r ps]
    by (simp add: good_op_def get_operation_key_def new_operation_def)
  show "pbft_inv X n B V st'" "key = ?key"
    and "\<exists>op. map_of (operations st') key = Some op" "st' = st\<lparr>operations := operations st'\<rparr>"
    using assms ps new
    by (auto simp: find_operation_def pbft_inv_def Let_def ops_ok_upd split: option.splits)
qed

lemma change_op_inv:
  assumes "pbft_inv X n B V st" "map_of (operations st) key = Some op" "op_step op (f op)"
    and "prepares_seen (f op) \<subseteq> prepares_seen op \<union> {s. (s, key) \<in> V}"
  shows "pbft_inv X n B V (change_op key f st)"
proof -
  have "good_op X n V (p_view st) key op" using assms(1,2) by (rule pbft_inv_op)
  then have "good_op X n V (p_view st) key (f op)"
    using assms(3,4) by (rule good_op_step)
  with assms(1,2) show ?thesis by (simp add: pbft_inv_def change_op_def op_at_def ops_ok_upd)
qed

lemma emit_inv:
  "pbft_inv X n B V st \<Longrightarrow> \<forall>e \<in> set es. good_effect X n V (p_view st) (p_uuid st) (map_of (accepted_preprepares st)) e
   \<Longrightarrow> pbft_inv X n B V (emit es st)"
  by (auto simp: pbft_inv_def)

lemma broadcast_inv:
  assumes "pbft_inv X n B V st" "broadcast w st = Inr st'"
    and "\<And>ep. good_effect X n V (p_view st) (p_uuid st) (map_of (accepted_preprepares st)) (Send_str ep w)"
  shows "pbft_inv X n B V st'" "\<exists>es. st' = emit es st"
proof -
  obtain ps where st': "st' = emit (map (\<lambda>p. Send_str (make_endpoint p) w) ps) st"
    using assms(2) by (auto simp: broadcast_def)
  then show "\<exists>es. st' = emit es st" by blast
  show "pbft_inv X n B V st'" unfolding st'
    by (rule emit_inv [OF assms(1)]) (simp add: assms(3))
qed

lemma change_op_at [simp]:
  "map_of (operations (change_op key f st)) key = Some (f (op_at key st))"
  "op_at key (change_op key f st) = f (op_at key st)"
  by (simp_all add: change_op_def op_at_def)

lemma change_op_fields [simp]:
  "p_view (change_op key f st) = p_view st" "p_uuid (change_op key f st) = p_uuid st"
  "accepted_preprepares (change_op key f st) = accepted_preprepares st"
  "effects (change_op key f st) = effects st" "configurations (change_op key f st) = configurations st"
  by (simp_all add: change_op_def)

lemma good_pbft_send:
  "m_type m \<noteq> PBFT_MSG_PREPARE \<Longrightarrow> good_effect X n V v u acc (Send_str ep (Wire_pbft u m))"
  by (simp add: good_effect_def)

lemma good_other [simp]:
  "good_effect X n V v u acc (Send_str ep (Wire_audit a))"
  "good_effect X n V v u acc (Forward ep j)"
  "good_effect X n V v u acc (Send_session s r b)"
  "good_effect X n V v u acc Heartbeat_wait"
  by (simp_all add: good_effect_def)

section \<open>Phase changes\<close>

lemma do_prepared_inv:
  assumes "pbft_inv X n B V st" "map_of (operations st) key = Some op" "do_prepared X key st = Inr st'"
  shows "pbft_inv X n B V st'" "\<exists>op. map_of (operations st') key = Some op"
proof -
  define cs where "cs = (case carried_config X (op_request (op_at key st)) of None \<Rightarrow> configurations st
      | Some config \<Rightarrow> snd (enable (get_hash config) True (configurations st)))"
  let ?st = "st\<lparr>configurations := cs\<rparr>"
  have "cfg_inv n cs"
    using assms(1) by (auto simp: cs_def pbft_inv_def cfg_inv_enable split: option.splits)
  then have inv: "pbft_inv X n B V ?st" using assms(1) by (simp add: pbft_inv_configurations)
  have at: "op_at key ?st = op" using assms(2) by (simp add: op_at_def)
  obtain op' where op': "begin_commit_phase op = Inr op'"
    and bc: "broadcast (wrap_message (common_message_setup op' PBFT_MSG_COMMIT) (change_op key (\<lambda>_. op') ?st))
      (change_op key (\<lambda>_. op') ?st) = Inr st'"
    using assms(2,3) at
    by (auto simp: do_prepared_def Let_def cs_def op_at_def split: option.splits)
  have "prepares_seen op' = prepares_seen op"
    using op' by (auto simp: begin_commit_phase_def split: if_splits)
  then have inv': "pbft_inv X n B V (change_op key (\<lambda>_. op') ?st)"
    using change_op_inv [OF inv, of key op "\<lambda>_. op'"] op_step.begin_commit [OF op'] assms(2) by simp
  note b = broadcast_inv [OF inv' bc]
  have "good_effect X n V v u acc (Send_str ep (Wire_pbft u (common_message_setup op' PBFT_MSG_COMMIT)))" for v u acc ep
    by (rule good_pbft_send) (simp add: common_message_setup_def)
  then show "pbft_inv X n B V st'" "\<exists>op. map_of (operations st') key = Some op"
    using b by (auto simp: wrap_message_def)
qed

lemma do_committed_inv:
  assumes "pbft_inv X n B V st" "map_of (operations st) key = Some op" "do_committed X key st = Inr st'"
  shows "pbft_inv X n B V st'"
proof -
  define cs where "cs = (case carried_config X (op_request (op_at key st)) of None \<Rightarrow> configurations st
      | Some config \<Rightarrow> snd (remove_prior_to (get_hash config) (configurations st)))"
  let ?st = "st\<lparr>configurations := cs\<rparr>"
  have "cfg_inv n cs"
    using assms(1) by (auto simp: cs_def pbft_inv_def cfg_inv_remove_prior split: option.splits)
  then have inv: "pbft_inv X n B V ?st" using assms(1) by (simp add: pbft_inv_configurations)
  have at: "op_at key ?st = op" using assms(2) by (simp add: op_at_def)
  have cs: "(case carried_config X (op_request (op_at key st)) of None \<Rightarrow> st
      | Some config \<Rightarrow> st\<lparr>configurations := snd (remove_prior_to (get_hash config) (configurations st))\<rparr>) = ?st"
    by (simp add: cs_def split: option.splits)
  note run = assms(3) [unfolded do_committed_def cs Let_def at]
  obtain op' where op': "end_commit_phase op = Inr op'" using run by blast
  define st1 where "st1 = change_op key (\<lambda>_. op') ?st"
  have "prepares_seen op' = prepares_seen op" and committed: "op_state op' = Op_committed"
    using op' by (auto simp: end_commit_phase_def split: if_splits)
  then have inv1: "pbft_inv X n B V st1"
    unfolding st1_def
    using change_op_inv [OF inv, of key op "\<lambda>_. op'"] op_step.end_commit [OF op'] assms(2) by simp
  have good: "good_op X n V (p_view st) key op'"
    using pbft_inv_op [OF inv1, of key op'] by (simp add: st1_def)
  obtain st2 k st3 where st2: "(if audit_enabled st1
      then broadcast (Wire_audit (Audit_pbft_commit \<lparr>pc_sender_uuid = p_uuid st1, pc_sequence_number = op_sequence op',
          pc_operation = request_hash (ShortDebugString X) (op_request op')\<rparr>)) st1 else Inr st1) = Inr st2"
    and last: "find_operation X (op_view op') (op_sequence op') (op_request op') st2 = Inr (k, st3)"
      "st' = emit [Post_apply (op_at k st3)] st3"
    using run unfolding op' bindE_simps st1_def [symmetric] by (elim bindE_InrE) (auto split: prod.splits)
  have inv2: "pbft_inv X n B V st2" and "\<exists>es. st2 = emit es st1"
    using st2 inv1 broadcast_inv [OF inv1] by (auto split: if_splits intro: exI [of _ "[]"])
  then have ops: "map_of (operations st2) key = Some op'" "p_view st2 = p_view st" by (auto simp: st1_def)
  have key: "key = (op_view op', op_sequence op', request_hash (ShortDebugString X) (op_request op'))"
    using good by (simp add: good_op_def get_operation_key_def)
  then have "st' = emit [Post_apply op'] st2"
    using last ops by (auto simp: find_operation_def op_at_def)
  moreover have "good_effect X n V (p_view st2) u acc (Post_apply op')" for u acc
    using good committed ops(2) by (auto simp: good_effect_def good_op_def)
  ultimately show ?thesis using emit_inv [OF inv2, of "[Post_apply op']"] by simp
qed

lemma maybe_advance_inv:
  assumes "pbft_inv X n B V st" "map_of (operations st) key = Some op"
    and "maybe_advance_operation_state X key st = Inr st'"
  shows "pbft_inv X n B V st'"
proof -
  obtain st1 where st1: "(if op_state (op_at key st) = Op_prepare \<and> is_prepared (op_at key st)
      then do_prepared X key st else Inr st) = Inr st1"
    and st': "(if op_state (op_at key st1) = Op_commit \<and> is_committed (op_at key st1)
      then do_committed X key st1 else Inr st1) = Inr st'"
    using assms(3) by (auto simp: maybe_advance_operation_state_def)
  have "pbft_inv X n B V st1" "\<exists>op. map_of (operations st1) key = Some op"
    using st1 assms do_prepared_inv [OF assms(1,2)] by (auto split: if_splits)
  then show ?thesis using st' do_committed_inv by (metis sum.inject(2))
qed

section \<open>Handlers\<close>

lemma pbft_inv_detector [simp]: "pbft_inv X n B V (st\<lparr>detector := d\<rparr>) = pbft_inv X n B V st"
  by (simp add: pbft_inv_def)

lemma pbft_inv_checkpoints [simp]:
  "pbft_inv X n B V (st\<lparr>local_unstable_checkpoints := l\<rparr>) = pbft_inv X n B V st"
  "pbft_inv X n B V (st\<lparr>unstable_checkpoint_proofs := p\<rparr>) = pbft_inv X n B V st"
  "pbft_inv X n B V (st\<lparr>stable_checkpoint := c\<rparr>) = pbft_inv X n B V st"
  "pbft_inv X n B V (st\<lparr>stable_checkpoint_proof := q\<rparr>) = pbft_inv X n B V st"
  "pbft_inv X n B V (st\<lparr>low_water_mark := w\<rparr>) = pbft_inv X n B V st"
  "pbft_inv X n B V (st\<lparr>high_water_mark := w\<rparr>) = pbft_inv X n B V st"
  "pbft_inv X n B V (st\<lparr>next_issued_sequence_number := w\<rparr>) = pbft_inv X n B V st"
  "pbft_inv X n B V (st\<lparr>audit_enabled := b\<rparr>) = pbft_inv X n B V st"
  by (simp_all add: pbft_inv_def)

lemma handle_vote_inv:
  assumes "pbft_inv X n B V st" "m_view msg = p_view st"
    and "op_step_fun = record_prepare s \<and> (s, msg_key X msg) \<in> V \<or> op_step_fun = record_commit s"
    and "bindE (find_operation X (m_view msg) (m_sequence msg) (msg_request msg) st) (\<lambda>(key, st).
       maybe_advance_operation_state X key (change_op key op_step_fun st)) = Inr st'"
  shows "pbft_inv X n B V st'"
proof -
  obtain key st1 where f: "find_operation X (p_view st) (m_sequence msg) (msg_request msg) st = Inr (key, st1)"
    and adv: "maybe_advance_operation_state X key (change_op key op_step_fun st1) = Inr st'"
    using assms(2,4) by (auto split: prod.splits)
  note found = find_operation_inv [OF assms(1) f]
  then obtain op where op: "map_of (operations st1) key = Some op" by blast
  have "key = msg_key X msg" using found(2) assms(2) by (simp add: msg_key_def)
  then have "op_step op (op_step_fun op)"
    "prepares_seen (op_step_fun op) \<subseteq> prepares_seen op \<union> {s. (s, key) \<in> V}"
    using assms(3) op_step.intros(2,3) by (auto simp: record_prepare_def record_commit_def)
  then have "pbft_inv X n B V (change_op key op_step_fun st1)" by (rule change_op_inv [OF found(1) op])
  then show ?thesis by (rule maybe_advance_inv [OF _ _ adv]) simp
qed

lemma handle_config_message_inv:
  "pbft_inv X n B V st \<Longrightarrow> pbft_inv X n B V (handle_config_message X msg key st)"
  by (auto simp: handle_config_message_def Let_def cfg_inv_add pbft_inv_configurations pbft_inv_def
      split: prod.splits)

lemma handle_config_message_fields [simp]:
  "operations (handle_config_message X msg key st) = operations st"
  "accepted_preprepares (handle_config_message X msg key st) = accepted_preprepares st"
  "p_uuid (handle_config_message X msg key st) = p_uuid st"
  "p_view (handle_config_message X msg key st) = p_view st"
  "effects (handle_config_message X msg key st) = effects st"
  by (simp_all add: handle_config_message_def Let_def split: prod.splits)

text \<open>Accepting a preprepare never replaces one accepted before.\<close>

lemma accept_inv:
  assumes "pbft_inv X n B V st" "key = (v, s, h)"
    and "map_of (accepted_preprepares st) (v, s) = None \<or> map_of (accepted_preprepares st) (v, s) = Some key"
  shows "pbft_inv X n B V (st\<lparr>accepted_preprepares := smap_set (v, s) key (accepted_preprepares st)\<rparr>)"
proof -
  have "map_of (accepted_preprepares st) \<subseteq>\<^sub>m (map_of (accepted_preprepares st))((v, s) \<mapsto> key)"
    using assms(3) by (auto simp: map_le_def)
  with assms(1,2) show ?thesis
    by (auto simp: pbft_inv_def acc_ok_upd intro: good_effect_mono map_le_trans)
qed

text \<open>The state in which a preprepare has been recorded and answered, before the operation is advanced.\<close>

lemma handle_preprepare_shape:
  assumes "pbft_inv X n B V st" "m_view msg = p_view st" "key = msg_key X msg"
    and "\<nexists>k. map_of (accepted_preprepares st) (m_view msg, m_sequence msg) = Some k \<and> snd (snd k) \<noteq> snd (snd key)"
    and "find_operation X (p_view st) (m_sequence msg) (msg_request msg) st = Inr (key, st1)"
  shows "\<exists>st' ps. handle_preprepare X msg st = maybe_advance_operation_state X key st' \<and> pbft_inv X n B V st'
     \<and> operations st' = operations (change_op key record_preprepare st1) \<and> length ps = n \<and> p_uuid st' = p_uuid st
     \<and> effects st' = effects st @ map (\<lambda>p. Send_str (make_endpoint p) (Wire_pbft (p_uuid st)
          (common_message_setup (record_preprepare (op_at key st1)) PBFT_MSG_PREPARE))) ps
     \<and> low_water_mark st' = low_water_mark st
     \<and> accepted_preprepares st' = smap_set (m_view msg, m_sequence msg) key (accepted_preprepares st)"
proof -
  let ?lk = "(m_view msg, m_sequence msg)"
  have h: "snd (snd key) = request_hash (ShortDebugString X) (msg_request msg)" by (simp add: assms(3) msg_key_def)
  have nc: "\<not> (case map_of (accepted_preprepares st) ?lk of
      Some key \<Rightarrow> snd (snd key) \<noteq> request_hash (ShortDebugString X) (msg_request msg) | None \<Rightarrow> False)"
    using assms(4) h by (auto split: option.splits)
  note found = find_operation_inv [OF assms(1,5)]
  obtain op where op: "map_of (operations st1) key = Some op" using found(3) by blast
  define st2 where "st2 = change_op key record_preprepare st1"
  have inv2: "pbft_inv X n B V st2"
    unfolding st2_def
    by (rule change_op_inv [OF found(1) op]) (simp_all add: op_step.preprepare, simp add: record_preprepare_def)
  have key: "key = (m_view msg, m_sequence msg, snd (snd key))" using found(2) assms(2) by simp
  have opkey: "get_operation_key (ShortDebugString X) (op_at key st2) = key"
    using pbft_inv_op [OF inv2, of key] by (auto simp: st2_def good_op_def)
  have acc: "accepted_preprepares st2 = accepted_preprepares st" "p_uuid st2 = p_uuid st" "effects st2 = effects st"
      "low_water_mark st2 = low_water_mark st"
    unfolding st2_def change_op_def by (subst found(4), simp)+
  define st3 where "st3 = st2\<lparr>accepted_preprepares := smap_set ?lk key (accepted_preprepares st2)\<rparr>"
  have "acc_ok (map_of (accepted_preprepares st))" using assms(1) by (simp add: pbft_inv_def)
  then have "map_of (accepted_preprepares st2) ?lk = None \<or> map_of (accepted_preprepares st2) ?lk = Some key"
    using assms(4) key acc by (cases "map_of (accepted_preprepares st) ?lk") (auto dest: acc_okD)
  then have inv3: "pbft_inv X n B V st3" unfolding st3_def by (rule accept_inv [OF inv2 key])
  define st4 where "st4 = (if m_request msg \<noteq> None \<and> req_type (msg_request msg) = PBFT_REQ_NEW_CONFIG
      then handle_config_message X msg key st3 else st3)"
  have inv4: "pbft_inv X n B V st4" using inv3 by (simp add: st4_def handle_config_message_inv)
  have same: "operations st4 = operations st2" "map_of (accepted_preprepares st4) ?lk = Some key" "p_uuid st4 = p_uuid st"
      "effects st4 = effects st" "low_water_mark st4 = low_water_mark st"
      "accepted_preprepares st4 = smap_set ?lk key (accepted_preprepares st)"
    using acc by (simp_all add: st4_def st3_def handle_config_message_def Let_def split: prod.splits)
  let ?m = "common_message_setup (op_at key st2) PBFT_MSG_PREPARE"
  have at: "op_at key st4 = op_at key st2" "op_at key st2 = record_preprepare (op_at key st1)"
    by (simp_all add: op_at_def same(1), simp add: st2_def op_at_def)
  obtain ps where ps: "current_peers st4 = Inr ps" "length ps = n" using current_peers_length [OF inv4] by blast
  define st5 where "st5 = emit (map (\<lambda>p. Send_str (make_endpoint p) (Wire_pbft (p_uuid st) ?m)) ps) st4"
  have pre: "do_preprepared key st4 = Inr st5"
    using ps same(3) at(1) by (simp add: do_preprepared_def broadcast_def wrap_message_def st5_def)
  have "handle_preprepare X msg st = maybe_advance_operation_state X key st5"
    by (simp only: handle_preprepare_def Let_def nc if_False assms(5) [folded assms(2)] bindE_simps prod.case
        st2_def [symmetric] opkey st3_def [symmetric] st4_def [symmetric] pre)
  moreover have mk: "msg_key X ?m = key" "m_type ?m = PBFT_MSG_PREPARE"
    using opkey by (simp_all add: msg_key_def common_message_setup_def get_operation_key_def msg_request_def)
  then have "(m_view ?m, m_sequence ?m) = ?lk" using key by (metis msg_key_def prod.inject)
  with mk have "pbft_inv X n B V st5"
    unfolding st5_def using same(2) by (intro emit_inv [OF inv4]) (auto simp: good_effect_def same(3))
  ultimately show ?thesis
    using ps(2) same at(2) by (intro exI [of _ st5] exI [of _ ps]) (simp add: st5_def st2_def)
qed

lemma handle_preprepare_inv:
  assumes "pbft_inv X n B V st" "m_view msg = p_view st" "handle_preprepare X msg st = Inr st'"
  shows "pbft_inv X n B V st'"
proof (cases "\<exists>k. map_of (accepted_preprepares st) (m_view msg, m_sequence msg) = Some k \<and> snd (snd k) \<noteq> snd (snd (msg_key X msg))")
  case True
  then have "st' = st" using assms(3) by (auto simp: handle_preprepare_def Let_def msg_key_def)
  with assms(1) show ?thesis by simp
next
  case False
  obtain ps where "current_peers st = Inr ps" using current_peers_length [OF assms(1)] by blast
  then obtain st1 where f: "find_operation X (p_view st) (m_sequence msg) (msg_request msg) st = Inr (msg_key X msg, st1)"
    by (cases "map_of (operations st) (msg_key X msg)") (auto simp: find_operation_def msg_key_def assms(2) Let_def)
  from handle_preprepare_shape [OF assms(1,2) refl False f] assms(3) obtain st5 where
      "maybe_advance_operation_state X (msg_key X msg) st5 = Inr st'" "pbft_inv X n B V st5"
      "operations st5 = operations (change_op (msg_key X msg) record_preprepare st1)" by auto
  then show ?thesis using maybe_advance_inv [of X n B V st5 "msg_key X msg"] change_op_at(1) by metis
qed

lemma maybe_stabilize_inv:
  assumes "pbft_inv X n B V st" "maybe_stabilize_checkpoint b cp st = Inr st'"
  shows "pbft_inv X n B V st'"
proof -
  have clear: "pbft_inv X n B V (clear_operations_until cp st)" if "pbft_inv X n B V st" for st
  proof -
    have "ops_ok X n V (p_view st) (map_of (filter (\<lambda>(_, op). \<not> op_sequence op \<le> fst cp) (operations st)))"
      using that by (auto simp: pbft_inv_def ops_ok_def map_of_filter_smap split: option.splits if_splits)
    with that show ?thesis by (simp add: pbft_inv_def clear_operations_until_def)
  qed
  show ?thesis
    using assms
    by (auto simp: maybe_stabilize_checkpoint_def Let_def clear clear_checkpoint_messages_until_def
        clear_local_checkpoints_until_def split: if_splits)
qed

lemma checkpoint_reached_inv:
  assumes "pbft_inv X n B V st" "checkpoint_reached_locally X s st = Inr st'"
  shows "pbft_inv X n B V st'"
proof -
  let ?st = "st\<lparr>local_unstable_checkpoints := sset_insert (s, state_hash_at X s) (local_unstable_checkpoints st)\<rparr>"
  let ?m = "default_pbft_msg\<lparr>m_type := PBFT_MSG_CHECKPOINT, m_view := p_view st, m_sequence := s,
      m_state_hash := state_hash_at X s\<rparr>"
  obtain st1 where b: "broadcast (wrap_message ?m ?st) ?st = Inr st1"
    and m: "maybe_stabilize_checkpoint True (s, state_hash_at X s) st1 = Inr st'"
    using assms(2) by (auto simp: checkpoint_reached_locally_def Let_def)
  have "pbft_inv X n B V ?st" using assms(1) by simp
  from broadcast_inv(1) [OF this b] have "pbft_inv X n B V st1"
    by (simp add: wrap_message_def good_pbft_send)
  then show ?thesis using m by (rule maybe_stabilize_inv)
qed

lemma handle_checkpoint_inv:
  "pbft_inv X n B V st \<Longrightarrow> handle_checkpoint X msg env st = Inr st' \<Longrightarrow> pbft_inv X n B V st'"
  by (auto simp: handle_checkpoint_def Let_def split: if_splits dest!: maybe_stabilize_inv [rotated])

lemma handle_message_inv:
  assumes "pbft_inv X n B V st" "handle_message X msg env st = Inr st'"
    and "m_type msg = PBFT_MSG_PREPARE \<Longrightarrow> (e_sender env, msg_key X msg) \<in> V"
  shows "pbft_inv X n B V st'"
proof (cases "preliminary_filter_msg msg st")
  case False
  with assms show ?thesis by (simp add: handle_message_def)
next
  case True
  define st1 where "st1 = (case m_request msg of None \<Rightarrow> st
      | Some req \<Rightarrow> st\<lparr>detector := request_seen (ShortDebugString X) req (detector st)\<rparr>)"
  have inv1: "pbft_inv X n B V st1" and view: "p_view st1 = p_view st"
    using assms(1) by (auto simp: st1_def split: option.splits)
  have v: "m_view msg = p_view st1"
    if "m_type msg \<in> {PBFT_MSG_PREPREPARE, PBFT_MSG_PREPARE, PBFT_MSG_COMMIT}"
    using True that view by (auto simp: preliminary_filter_msg_def split: if_splits)
  note run = assms(2) [unfolded handle_message_def Let_def, folded st1_def]
  show ?thesis
  proof (cases "m_type msg")
    case PBFT_MSG_PREPREPARE
    with run True v show ?thesis using handle_preprepare_inv [OF inv1] by simp
  next
    case PBFT_MSG_PREPARE
    with run True have "handle_prepare X msg env st1 = Inr st'" by simp
    from handle_vote_inv [OF inv1 v _ this [unfolded handle_prepare_def], of "e_sender env"] PBFT_MSG_PREPARE assms(3)
    show ?thesis by simp
  next
    case PBFT_MSG_COMMIT
    with run True have "handle_commit X msg env st1 = Inr st'" by simp
    from handle_vote_inv [OF inv1 v _ this [unfolded handle_commit_def], of "e_sender env"] PBFT_MSG_COMMIT
    show ?thesis by simp
  next
    case PBFT_MSG_CHECKPOINT
    with run True show ?thesis using handle_checkpoint_inv [OF inv1] by simp
  qed (use run True in simp_all)
qed

lemma setup_request_inv:
  assumes "pbft_inv X n B V st" "setup_request_operation X req session st = Inr (key, st')"
  shows "pbft_inv X n B V st' \<and> p_uuid st' = p_uuid st \<and> p_view st' = p_view st"
proof -
  let ?st = "st\<lparr>next_issued_sequence_number := next_issued_sequence_number st + 1\<rparr>"
  obtain st1 where f: "find_operation X (p_view ?st) (next_issued_sequence_number st) req ?st = Inr (key, st1)"
    and st': "st' = (case session of None \<Rightarrow> st1 | Some s \<Rightarrow> change_op key (set_session (Some s)) st1)"
    using assms(2) by (auto simp: setup_request_operation_def Let_def split: prod.splits)
  have "pbft_inv X n B V ?st" using assms(1) by simp
  note found = find_operation_inv [OF this f]
  then obtain op where op: "map_of (operations st1) key = Some op" by blast
  have "pbft_inv X n B V (change_op key (set_session (Some s)) st1)" for s
    by (rule change_op_inv [OF found(1) op]) (simp_all add: op_step.session, simp add: set_session_def)
  moreover have "p_uuid st1 = p_uuid st" "p_view st1 = p_view st" by (subst found(4), simp)+
  ultimately show ?thesis using found(1) by (simp add: st' split: option.splits)
qed

lemma request_preprepare_inv:
  assumes "pbft_inv X n B V st" "setup_request_operation X req session st = Inr (key, st1)"
    and "do_preprepare key st1 = Inr st'"
  shows "pbft_inv X n B V st'"
proof -
  have "pbft_inv X n B V st1" using setup_request_inv [OF assms(1,2)] by blast
  from broadcast_inv(1) [OF this assms(3) [unfolded do_preprepare_def]] show ?thesis
    by (simp add: wrap_message_def good_pbft_send common_message_setup_def)
qed

lemma audit_broadcast_inv:
  "pbft_inv X n B V st \<Longrightarrow> broadcast (Wire_audit a) st = Inr st' \<Longrightarrow> pbft_inv X n B V st'"
  by (rule broadcast_inv(1)) (assumption | rule good_other)+

lemma handle_request_inv:
  "pbft_inv X n B V st \<Longrightarrow> handle_request X req json session st = Inr st' \<Longrightarrow> pbft_inv X n B V st'"
  unfolding handle_request_def
  by (elim bindE_InrE) (auto split: if_splits intro: request_preprepare_inv emit_inv)

lemma handle_database_message_inv:
  "pbft_inv X n B V st \<Longrightarrow> handle_database_message X json session st = Inr st' \<Longrightarrow> pbft_inv X n B V st'"
  by (auto simp: handle_database_message_def Let_def split: option.splits intro!: emit_inv
      dest: handle_request_inv)

lemma handle_membership_inv:
  assumes "pbft_inv X n B V st" "handle_membership_message X msg st = Inr st'"
  shows "pbft_inv X n B V st'"
proof -
  have added: "pbft_inv X n B V (st\<lparr>configurations := snd (store_add c (configurations st))\<rparr>)" for c
    using assms(1) by (intro pbft_inv_configurations cfg_inv_add) (simp_all add: pbft_inv_def)
  have bc: "pbft_inv X n B V st'"
    if "broadcast_new_configuration X c (st\<lparr>configurations := snd (store_add c (configurations st))\<rparr>) = Inr st'" for c
    using that unfolding broadcast_new_configuration_def
    by (elim bindE_InrE) (auto intro: request_preprepare_inv [OF added])
  have "pbft_inv X n B V st'" if "handle_join_or_leave X m st = Inr st'" for m
    using that assms(1) unfolding handle_join_or_leave_def Let_def
    by (elim bindE_InrE) (auto split: if_splits option.splits prod.splits intro: bc)
  with assms show ?thesis
    by (auto simp: handle_membership_message_def split: option.splits payload.splits if_splits)
qed

lemma execute_handler_inv:
  "pbft_inv X n B V st \<Longrightarrow> execute_handler X req s st = Inr st' \<Longrightarrow> pbft_inv X n B V st'"
  by (auto simp: execute_handler_def Let_def split: if_splits dest: checkpoint_reached_inv [rotated])

lemma heartbeat_inv:
  "pbft_inv X n B V st \<Longrightarrow> handle_audit_heartbeat_timeout ec st = Inr st' \<Longrightarrow> pbft_inv X n B V st'"
  unfolding handle_audit_heartbeat_timeout_def
  by (auto split: if_splits intro!: emit_inv dest: audit_broadcast_inv)

lemma handle_failure_inv:
  "pbft_inv X n B V st \<Longrightarrow> handle_failure st = Inr st' \<Longrightarrow> pbft_inv X n B V st'"
  by (auto simp: handle_failure_def notify_audit_failure_detected_def split: if_splits dest: audit_broadcast_inv)

end
