(* ===== verification/Pbft_Safety.thy ===== *)
theory Pbft_Safety
  imports Pbft_Invariant
begin

text \<open>
  The replicas together. A system is the state of every correct replica and the set of messages on
  the network; a correct replica takes any of its handlers on any message that was ever sent, a
  faulty one sends anything under its own name. Messages can be lost, repeated, delayed and
  reordered without limit. Senders are taken to be authentic: the code does not check that the
  sender of a vote is a peer, so names outside the group count as faulty here.
\<close>

section \<open>The system\<close>

record system =
  nodes :: "uuid_t \<Rightarrow> pbft"
  net :: "(uuid_t \<times> pbft_msg) set"

definition sent :: "pbft \<Rightarrow> (uuid_t \<times> pbft_msg) set" where
  "sent st = {(s, m). \<exists>ep. Send_str ep (Wire_pbft s m) \<in> set (effects st)}"

text \<open>Everything that can happen to one replica.\<close>

inductive node_step :: "pbft_lib \<Rightarrow> (uuid_t \<times> pbft_msg) set \<Rightarrow> pbft \<Rightarrow> pbft \<Rightarrow> bool" for X N where
  message: "(s, m) \<in> N \<Longrightarrow> handle_bzn_message X \<lparr>e_sender = s, e_payload = Pay_pbft (Some m)\<rparr> st = Inr st'
    \<Longrightarrow> node_step X N st st'"
| membership: "handle_membership_message X env st = Inr st' \<Longrightarrow> node_step X N st st'"
| database: "handle_database_message X json session st = Inr st' \<Longrightarrow> node_step X N st st'"
| executed: "execute_handler X req sequence st = Inr st' \<Longrightarrow> node_step X N st st'"
| heartbeat: "handle_audit_heartbeat_timeout ec st = Inr st' \<Longrightarrow> node_step X N st st'"
| failure: "handle_failure st = Inr st' \<Longrightarrow> node_step X N st st'"
| timeout: "handle_timeout sds fd = Inr fd' \<Longrightarrow> node_step X N st (st\<lparr>detector := fd'\<rparr>)"
| audit: "node_step X N st (set_audit_enabled setting st)"

inductive system_step :: "pbft_lib \<Rightarrow> uuid_t set \<Rightarrow> uuid_t set \<Rightarrow> system \<Rightarrow> system \<Rightarrow> bool" for X C F where
  correct: "i \<in> C \<Longrightarrow> node_step X (net sys) (nodes sys i) st'
    \<Longrightarrow> system_step X C F sys (sys\<lparr>nodes := (nodes sys)(i := st'), net := net sys \<union> sent st'\<rparr>)"
| faulty: "s \<in> F \<Longrightarrow> system_step X C F sys (sys\<lparr>net := insert (s, m) (net sys)\<rparr>)"

text \<open>Every correct replica is constructed on a list of peers that gives \<open>n\<close> current peers.\<close>

definition system_init :: "pbft_lib \<Rightarrow> nat \<Rightarrow> uuid_t set \<Rightarrow> system \<Rightarrow> bool" where
  "system_init X n C sys \<longleftrightarrow> net sys = {}
     \<and> (\<forall>i \<in> C. \<exists>peers ps. new_pbft X peers i = Inr (nodes sys i)
          \<and> current_peers (nodes sys i) = Inr ps \<and> length ps = n)"

inductive reachable :: "pbft_lib \<Rightarrow> nat \<Rightarrow> uuid_t set \<Rightarrow> uuid_t set \<Rightarrow> system \<Rightarrow> bool" for X n C F where
  init: "system_init X n C sys \<Longrightarrow> reachable X n C F sys"
| step: "reachable X n C F sys \<Longrightarrow> system_step X C F sys sys' \<Longrightarrow> reachable X n C F sys'"

section \<open>The invariant\<close>

definition prepare_votes :: "pbft_lib \<Rightarrow> (uuid_t \<times> pbft_msg) set \<Rightarrow> votes" where
  "prepare_votes X N = {(s, msg_key X m) |s m. (s, m) \<in> N \<and> m_type m = PBFT_MSG_PREPARE}"

definition sys_inv :: "pbft_lib \<Rightarrow> nat \<Rightarrow> uuid_t set \<Rightarrow> uuid_t set \<Rightarrow> system \<Rightarrow> bool" where
  "sys_inv X n C F sys \<longleftrightarrow>
     (\<forall>i \<in> C. pbft_inv X n (i, 1, {}, Map.empty) (prepare_votes X (net sys)) (nodes sys i))
     \<and> (\<forall>(s, m) \<in> net sys. s \<in> C \<union> F \<and> (s \<in> C \<longrightarrow> s \<in> F \<or> (s, m) \<in> sent (nodes sys s)))"

lemma prepare_votes_mono: "N \<subseteq> M \<Longrightarrow> prepare_votes X N \<subseteq> prepare_votes X M"
  by (auto simp: prepare_votes_def)

text \<open>One step of a replica keeps its invariant, its name and view, and what it has sent.\<close>

lemma node_step_inv:
  assumes "node_step X N st st'" "pbft_inv X n B (prepare_votes X N) st"
  shows "pbft_inv X n B (prepare_votes X N) st'"
  using assms
proof (cases rule: node_step.cases)
  case (message s m)
  then have "handle_message X m \<lparr>e_sender = s, e_payload = Pay_pbft (Some m)\<rparr> st = Inr st'"
    by (simp add: handle_bzn_message_def)
  with assms(2) show ?thesis
    by (rule handle_message_inv) (use message(1) in \<open>auto simp: prepare_votes_def\<close>)
qed (auto simp: set_audit_enabled_def intro: handle_membership_inv handle_database_message_inv
    execute_handler_inv heartbeat_inv handle_failure_inv)

lemma node_step_grows:
  assumes "node_step X N st st'" "pbft_inv X n (u, v, {}, Map.empty) (prepare_votes X N) st"
  shows "set (effects st) \<subseteq> set (effects st')" "sent st \<subseteq> sent st'"
    "map_of (accepted_preprepares st) \<subseteq>\<^sub>m map_of (accepted_preprepares st')"
proof -
  have "pbft_inv X n (u, v, set (effects st), map_of (accepted_preprepares st)) (prepare_votes X N) st"
    using assms(2) by (simp add: pbft_inv_def)
  from node_step_inv [OF assms(1) this] show "set (effects st) \<subseteq> set (effects st')"
    and "map_of (accepted_preprepares st) \<subseteq>\<^sub>m map_of (accepted_preprepares st')"
    by (simp_all add: pbft_inv_def)
  then show "sent st \<subseteq> sent st'" by (auto simp: sent_def)
qed

lemma sent_own:
  "pbft_inv X n (u, v, E, A) V st \<Longrightarrow> (s, m) \<in> sent st \<Longrightarrow> s = u"
  by (auto simp: pbft_inv_def sent_def good_effect_def dest!: bspec)

lemma sent_prepare_accepted:
  "pbft_inv X n (u, v, E, A) V st \<Longrightarrow> (s, m) \<in> sent st \<Longrightarrow> m_type m = PBFT_MSG_PREPARE
   \<Longrightarrow> map_of (accepted_preprepares st) (m_view m, m_sequence m) = Some (msg_key X m)"
  by (auto simp: pbft_inv_def sent_def good_effect_def dest!: bspec)

lemma sys_inv_step:
  assumes "system_step X C F sys sys'" "sys_inv X n C F sys"
  shows "sys_inv X n C F sys'"
  using assms
proof (cases rule: system_step.cases)
  case (correct i st')
  let ?V = "prepare_votes X (net sys)" and ?V' = "prepare_votes X (net sys')"
  have V: "?V \<subseteq> ?V'" using correct(1) by (auto intro!: prepare_votes_mono)
  have i: "pbft_inv X n (i, 1, {}, Map.empty) ?V (nodes sys i)" using assms(2) correct(2) by (simp add: sys_inv_def)
  have i': "pbft_inv X n (i, 1, {}, Map.empty) ?V st'" using node_step_inv [OF correct(3) i] .
  have "sent (nodes sys j) \<subseteq> sent (nodes sys' j)" for j
    using node_step_grows(2) [OF correct(3) i] correct(1) by auto
  moreover have "\<forall>(s, m) \<in> sent st'. s = i" using sent_own [OF i'] by auto
  ultimately show ?thesis
    using assms(2) correct(1,2) pbft_inv_mono [OF i' V] pbft_inv_mono [OF _ V]
    by (fastforce simp: sys_inv_def)
next
  case (faulty s m)
  have V: "prepare_votes X (net sys) \<subseteq> prepare_votes X (net sys')"
    using faulty(1) by (auto intro!: prepare_votes_mono)
  show ?thesis using assms(2) faulty pbft_inv_mono [OF _ V] by (auto simp: sys_inv_def)
qed

lemma new_pbft_inv:
  assumes "new_pbft X peers i = Inr st" "current_peers st = Inr ps"
  shows "pbft_inv X (length ps) (i, 1, {}, Map.empty) V st"
proof -
  have "smap_ok (configs (configurations st))"
    using new_pbft_configurations [OF assms(1)] by (simp add: smap_ok_Cons)
  moreover have "\<exists>c. store_current (configurations st) = Some c \<and> length (get_peers c) = length ps"
    using assms(2) by (auto simp: current_peers_def split: option.splits)
  ultimately show ?thesis
    using assms(1)
    by (auto simp: pbft_inv_def cfg_inv_def new_pbft_def initialize_configuration_def Let_def ops_ok_def
        acc_ok_def split: if_splits prod.splits)
qed

lemma reachable_inv: "reachable X n C F sys \<Longrightarrow> sys_inv X n C F sys"
proof (induction rule: reachable.induct)
  case (init sys)
  then show ?case by (fastforce simp: system_init_def sys_inv_def intro: new_pbft_inv)
next
  case (step sys sys')
  then show ?case using sys_inv_step by blast
qed

section \<open>Agreement\<close>

text \<open>What the operations a correct replica has handed to its service carry: a prepare certificate.\<close>

definition posted :: "pbft \<Rightarrow> pbft_operation set" where
  "posted st = {op. Post_apply op \<in> set (effects st)}"

lemma posted_certificate:
  assumes "sys_inv X n C F sys" "i \<in> C" "op \<in> posted (nodes sys i)" "0 < n" "n < 2 ^ 64"
  shows "op_quorum n \<le> card (prepares_seen op)" "prepares_seen op \<subseteq> C \<union> F" "op_view op = 1"
    and "\<And>s. s \<in> prepares_seen op \<Longrightarrow> s \<in> C \<Longrightarrow> s \<notin> F
      \<Longrightarrow> map_of (accepted_preprepares (nodes sys s)) (op_view op, op_sequence op)
        = Some (get_operation_key (ShortDebugString X) op)"
proof -
  let ?key = "get_operation_key (ShortDebugString X) op"
  have inv: "pbft_inv X n (j, 1, {}, Map.empty) (prepare_votes X (net sys)) (nodes sys j)" if "j \<in> C" for j
    using assms(1) that by (simp add: sys_inv_def)
  have "good_op X n (prepare_votes X (net sys)) 1 ?key op" "op_state op = Op_committed"
    using inv [OF assms(2)] assms(3) by (auto simp: pbft_inv_def posted_def good_effect_def dest!: bspec)
  then have op: "op_reachable op" "length (op_peers op) = n" "op_view op = 1"
    and votes: "\<And>s. s \<in> prepares_seen op \<Longrightarrow> (s, ?key) \<in> prepare_votes X (net sys)"
    and state: "op_state op = Op_committed"
    by (auto simp: good_op_def)
  show "op_view op = 1" by (rule op(3))
  show "op_quorum n \<le> card (prepares_seen op)"
    using op_inv_reachable [OF op(1)] state assms(4,5) op(2)
    by (simp add: op_inv_def is_prepared_iff)
  show "prepares_seen op \<subseteq> C \<union> F"
    using votes assms(1) by (fastforce simp: prepare_votes_def sys_inv_def)
  fix s
  assume s: "s \<in> prepares_seen op" "s \<in> C" "s \<notin> F"
  then obtain m where m: "(s, m) \<in> net sys" "m_type m = PBFT_MSG_PREPARE" "msg_key X m = ?key"
    using votes by (force simp: prepare_votes_def)
  then have "(s, m) \<in> sent (nodes sys s)" using assms(1) s by (auto simp: sys_inv_def)
  from sent_prepare_accepted [OF inv [OF s(2)] this m(2)] m(3)
  show "map_of (accepted_preprepares (nodes sys s)) (op_view op, op_sequence op) = Some ?key"
    by (simp add: msg_key_def get_operation_key_def)
qed

lemma posted_agree:
  assumes "reachable X n C F sys" "C \<inter> F = {}" "finite (C \<union> F)" "card (C \<union> F) = n"
    and "n mod 3 = 1" "n < 2 ^ 64" "card F \<le> op_bound n"
    and "i \<in> C" "j \<in> C" "op \<in> posted (nodes sys i)" "op' \<in> posted (nodes sys j)"
    and "op_sequence op = op_sequence op'"
  shows "get_operation_key (ShortDebugString X) op = get_operation_key (ShortDebugString X) op'"
proof -
  have inv: "sys_inv X n C F sys" using assms(1) by (rule reachable_inv)
  have n: "0 < n" using assms(5) by (cases n) auto
  note c = posted_certificate [OF inv assms(8,10) n assms(6)]
  note c' = posted_certificate [OF inv assms(9,11) n assms(6)]
  have F: "finite F" using assms(3) by simp
  obtain s where s: "s \<in> prepares_seen op" "s \<in> prepares_seen op'" "s \<notin> F"
    using op_q.quorums_share_correct [of "C \<union> F" F "prepares_seen op" "prepares_seen op'"]
      assms(3,4,5,7) F c(1,2) c'(1,2) by metis
  then have "s \<in> C" using c(2) by auto
  with c(4) [of s] c'(4) [of s] s c(3) c'(3) assms(12) show ?thesis by simp
qed

section \<open>A run of one replica, for the witnesses\<close>

definition sample_lib :: pbft_lib where
  "sample_lib = \<lparr>ShortDebugString = (\<lambda>_. ''r''), config_lib = sample_ext, envelope_string = (\<lambda>_. ''''),
     decode_db = (\<lambda>_. Some default_database_msg), state_hash_at = (\<lambda>_. '''')\<rparr>"

definition sample_vote :: "pbft_msg_type \<Rightarrow> pbft_msg" where
  "sample_vote t = \<lparr>m_type = t, m_view = 1, m_sequence = 1,
     m_request = Some (default_request\<lparr>req_body := Req_operation default_database_msg\<rparr>), m_state_hash = ''''\<rparr>"

definition sample_deliver :: "pbft_msg_type \<Rightarrow> pbft \<Rightarrow> pbft res" where
  "sample_deliver t = handle_bzn_message sample_lib \<lparr>e_sender = ''a'', e_payload = Pay_pbft (Some (sample_vote t))\<rparr>"

primrec sample_run :: "nat \<Rightarrow> pbft res" where
  "sample_run 0 = new_pbft sample_lib [sample_member ''a'' 80] ''a''"
| "sample_run (Suc k) = bindE (sample_run k)
     (if k = 0 then handle_database_message sample_lib (Some ''t'') 7
      else if k = 1 then sample_deliver PBFT_MSG_PREPREPARE
      else if k = 2 then sample_deliver PBFT_MSG_PREPARE
      else sample_deliver PBFT_MSG_COMMIT)"

text \<open>Whether a replica has sent a message, and the operations it has posted, as executable checks.\<close>

definition has_sent :: "pbft_msg \<Rightarrow> pbft \<Rightarrow> bool" where
  "has_sent m st = list_ex (\<lambda>e. case e of Send_str _ (Wire_pbft s m') \<Rightarrow> s = p_uuid st \<and> m' = m | _ \<Rightarrow> False) (effects st)"

definition posted_list :: "pbft \<Rightarrow> pbft_operation list" where
  "posted_list st = concat (map (\<lambda>e. case e of Post_apply op \<Rightarrow> [op] | _ \<Rightarrow> []) (effects st))"

lemma has_sentD: "has_sent m st \<Longrightarrow> (p_uuid st, m) \<in> sent st"
proof -
  assume "has_sent m st"
  then obtain e where e: "e \<in> set (effects st)"
      "case e of Send_str _ (Wire_pbft s m') \<Rightarrow> s = p_uuid st \<and> m' = m | _ \<Rightarrow> False"
    by (auto simp: has_sent_def list_ex_iff)
  from e(2) obtain ep where "e = Send_str ep (Wire_pbft (p_uuid st) m)"
    by (auto split: effect.splits wire.splits)
  with e(1) show ?thesis unfolding sent_def by blast
qed

lemma posted_list_set: "set (posted_list st) = posted st"
  by (force simp: posted_list_def posted_def split: effect.splits)

lemma sample_checks:
  "case sample_run 1 of Inr st \<Rightarrow> has_sent (sample_vote PBFT_MSG_PREPREPARE) st \<and> p_uuid st = ''a'' | Inl _ \<Rightarrow> False"
  "case sample_run 2 of Inr st \<Rightarrow> has_sent (sample_vote PBFT_MSG_PREPARE) st \<and> p_uuid st = ''a'' | Inl _ \<Rightarrow> False"
  "case sample_run 3 of Inr st \<Rightarrow> has_sent (sample_vote PBFT_MSG_COMMIT) st \<and> p_uuid st = ''a'' | Inl _ \<Rightarrow> False"
  "case sample_run 4 of Inr st \<Rightarrow> map op_sequence (posted_list st) = [1] | Inl _ \<Rightarrow> False"
  by code_simp+

lemma sample_step:
  assumes "reachable sample_lib 1 {''a''} {} sys" "sent (nodes sys ''a'') \<subseteq> net sys"
    and "node_step sample_lib (sent (nodes sys ''a'')) (nodes sys ''a'') st'"
  shows "\<exists>sys'. reachable sample_lib 1 {''a''} {} sys' \<and> sent (nodes sys' ''a'') \<subseteq> net sys' \<and> nodes sys' ''a'' = st'"
proof -
  have "node_step sample_lib (net sys) (nodes sys ''a'') st'"
    using assms(3,2) by cases (auto intro: node_step.intros)
  then have "reachable sample_lib 1 {''a''} {}
      (sys\<lparr>nodes := (nodes sys)(''a'' := st'), net := net sys \<union> sent st'\<rparr>)"
    by (intro reachable.step [OF assms(1)] system_step.correct) simp_all
  then show ?thesis by (rule exI [where x = "sys\<lparr>nodes := (nodes sys)(''a'' := st'), net := net sys \<union> sent st'\<rparr>", OF conjI]) auto
qed

text \<open>The first step of the run: the primary, which is the only replica, has numbered a request.\<close>

lemma sample_reachable_1:
  "\<exists>sys. reachable sample_lib 1 {''a''} {} sys \<and> sent (nodes sys ''a'') \<subseteq> net sys
     \<and> sample_run 1 = Inr (nodes sys ''a'')"
proof -
  obtain st0 st1 where run: "sample_run 0 = Inr st0" "sample_run 1 = Inr st1"
    using sample_checks(1) by (auto split: sum.splits simp: eval_nat_numeral)
  then have step: "handle_database_message sample_lib (Some ''t'') 7 st0 = Inr st1" by simp
  have "case sample_run 0 of Inr st \<Rightarrow> current_peers st = Inr [sample_member ''a'' 80] | Inl _ \<Rightarrow> False"
    by code_simp
  then have "current_peers st0 = Inr [sample_member ''a'' 80]" using run(1) by simp
  then have "system_init sample_lib 1 {''a''} \<lparr>nodes = (\<lambda>_. st0), net = {}\<rparr>"
    using run(1) by (auto simp: system_init_def)
  then have r0: "reachable sample_lib 1 {''a''} {} \<lparr>nodes = (\<lambda>_. st0), net = {}\<rparr>" by (rule reachable.init)
  have "sent st0 = {}" using run(1)
    by (auto simp: sent_def new_pbft_def initialize_configuration_def Let_def split: prod.splits)
  with sample_step [OF r0, of st1] step obtain s1 where "reachable sample_lib 1 {''a''} {} s1"
      "sent (nodes s1 ''a'') \<subseteq> net s1" "nodes s1 ''a'' = st1"
    by (auto intro: node_step.database)
  with run(2) show ?thesis by metis
qed

lemma sample_reachable:
  "\<exists>sys. reachable sample_lib 1 {''a''} {} sys \<and> sent (nodes sys ''a'') \<subseteq> net sys
     \<and> sample_run 4 = Inr (nodes sys ''a'')"
proof -
  obtain st1 st2 st3 st4 where run: "sample_run 1 = Inr st1" "sample_run 2 = Inr st2"
      "sample_run 3 = Inr st3" "sample_run 4 = Inr st4"
    using sample_checks by (auto split: sum.splits simp: eval_nat_numeral)
  have sent: "(''a'', sample_vote PBFT_MSG_PREPREPARE) \<in> sent st1" "(''a'', sample_vote PBFT_MSG_PREPARE) \<in> sent st2"
    "(''a'', sample_vote PBFT_MSG_COMMIT) \<in> sent st3"
    using sample_checks(1-3) run has_sentD by force+
  have steps: "sample_deliver PBFT_MSG_PREPREPARE st1 = Inr st2" "sample_deliver PBFT_MSG_PREPARE st2 = Inr st3"
    "sample_deliver PBFT_MSG_COMMIT st3 = Inr st4"
    using run by (simp_all add: eval_nat_numeral)
  obtain s1 where s1: "reachable sample_lib 1 {''a''} {} s1" "sent (nodes s1 ''a'') \<subseteq> net s1" "nodes s1 ''a'' = st1"
    using sample_reachable_1 run(1) by auto
  from sample_step [OF s1(1,2), of st2] s1(3) sent(1) steps(1) obtain s2 where s2: "reachable sample_lib 1 {''a''} {} s2"
      "sent (nodes s2 ''a'') \<subseteq> net s2" "nodes s2 ''a'' = st2"
    by (auto simp: sample_deliver_def intro: node_step.message)
  from sample_step [OF s2(1,2), of st3] s2(3) sent(2) steps(2) obtain s3 where s3: "reachable sample_lib 1 {''a''} {} s3"
      "sent (nodes s3 ''a'') \<subseteq> net s3" "nodes s3 ''a'' = st3"
    by (auto simp: sample_deliver_def intro: node_step.message)
  from sample_step [OF s3(1,2), of st4] s3(3) sent(3) steps(3) obtain s4 where "reachable sample_lib 1 {''a''} {} s4"
      "sent (nodes s4 ''a'') \<subseteq> net s4" "nodes s4 ''a'' = st4"
    by (auto simp: sample_deliver_def intro: node_step.message)
  with run(4) show ?thesis by metis
qed

section \<open>Properties\<close>

text \<open>
  C1: Agreement. In a group of \<open>n = 3f + 1\<close> participants of which at most \<open>f\<close> are faulty, correct
  replicas never hand conflicting operations to their services: whatever the faulty ones send and
  however messages are lost, repeated and reordered, two operations that correct replicas have
  posted for the same sequence number are for the same request, up to its hash.
\<close>

theorem pbft_agreement:
  assumes "reachable X n C F sys" and "C \<inter> F = {}" "finite (C \<union> F)" "card (C \<union> F) = n"
    and "n mod 3 = 1" "n < 2 ^ 64" and "card F \<le> op_bound n"
    and "i \<in> C" "j \<in> C" and "Post_apply op \<in> set (effects (nodes sys i))"
    and "Post_apply op' \<in> set (effects (nodes sys j))" and "op_sequence op = op_sequence op'"
  shows "request_hash (ShortDebugString X) (op_request op) = request_hash (ShortDebugString X) (op_request op')"
  using posted_agree [OF assms(1-9), of op op'] assms(10-12)
  by (simp add: posted_def get_operation_key_def)

theorem pbft_agreement_witness:
  "\<exists>sys op op'. reachable sample_lib 1 {''a''} {} sys
     \<and> Post_apply op \<in> set (effects (nodes sys ''a'')) \<and> Post_apply op' \<in> set (effects (nodes sys ''a''))
     \<and> op_sequence op = 1 \<and> op_sequence op' = 1
     \<and> request_hash (ShortDebugString sample_lib) (op_request op)
       = request_hash (ShortDebugString sample_lib) (op_request op')"
proof -
  obtain sys where sys: "reachable sample_lib 1 {''a''} {} sys" "sample_run 4 = Inr (nodes sys ''a'')"
    using sample_reachable by blast
  then obtain op where "posted_list (nodes sys ''a'') = [op]" and seq: "op_sequence op = 1"
    using sample_checks(4) by auto
  then have "op \<in> posted (nodes sys ''a'')" using posted_list_set by (metis list.set_intros(1))
  with seq have op: "Post_apply op \<in> set (effects (nodes sys ''a''))" "op_sequence op = 1"
    by (simp_all add: posted_def)
  have "request_hash (ShortDebugString sample_lib) (op_request op)
      = request_hash (ShortDebugString sample_lib) (op_request op)"
    by (rule pbft_agreement [OF sys(1), of "''a''" "''a''"]) (simp_all add: op op_bound_def)
  with sys(1) op show ?thesis by blast
qed

text \<open>
  C6: A correct replica that has accepted a preprepare for a view and sequence number never replaces
  it: in every later state the entry is the same, and every prepare message it has ever sent is for
  the preprepare it has accepted at that place.
\<close>

theorem accepted_preprepare_final:
  assumes "reachable X n C F sys" "system_step X C F sys sys'" "i \<in> C"
    and "map_of (accepted_preprepares (nodes sys i)) k = Some key"
  shows "map_of (accepted_preprepares (nodes sys' i)) k = Some key
     \<and> (\<forall>(s, m) \<in> sent (nodes sys' i). s = i \<and> (m_type m = PBFT_MSG_PREPARE
          \<longrightarrow> map_of (accepted_preprepares (nodes sys' i)) (m_view m, m_sequence m) = Some (msg_key X m)))"
proof -
  have inv: "sys_inv X n C F sys" "sys_inv X n C F sys'"
    using reachable_inv assms(1) reachable.step [OF assms(1,2)] by blast+
  have i: "pbft_inv X n (i, 1, {}, Map.empty) (prepare_votes X (net sys)) (nodes sys i)"
    "pbft_inv X n (i, 1, {}, Map.empty) (prepare_votes X (net sys')) (nodes sys' i)"
    using inv assms(3) by (auto simp: sys_inv_def)
  have "map_of (accepted_preprepares (nodes sys' i)) k = Some key"
    using assms(2)
  proof (cases rule: system_step.cases)
    case (correct j st')
    then show ?thesis
      using assms(4) node_step_grows(3) [OF _ i(1), of st'] by (cases "j = i") (auto dest: map_le_Some)
  qed (use assms(4) in simp)
  with sent_own [OF i(2)] sent_prepare_accepted [OF i(2)] show ?thesis by blast
qed

theorem accepted_preprepare_final_witness:
  "\<exists>sys sys' key. system_step sample_lib {''a''} {} sys sys'
     \<and> map_of (accepted_preprepares (nodes sys ''a'')) (1, 1) = Some key
     \<and> map_of (accepted_preprepares (nodes sys' ''a'')) (1, 1) = Some key"
proof -
  obtain sys where sys: "reachable sample_lib 1 {''a''} {} sys" "sample_run 4 = Inr (nodes sys ''a'')"
    using sample_reachable by blast
  have "case sample_run 4 of Inr st \<Rightarrow> map_of (accepted_preprepares st) (1, 1) \<noteq> None | Inl _ \<Rightarrow> False"
    by code_simp
  with sys(2) obtain key where key: "map_of (accepted_preprepares (nodes sys ''a'')) (1, 1) = Some key" by auto
  obtain sys' where step: "system_step sample_lib {''a''} {} sys sys'"
    using system_step.correct [OF _ node_step.audit, of "''a''" "{''a''}"] by blast
  from accepted_preprepare_final [OF sys(1) step _ key] key step show ?thesis by blast
qed

end
