(* ===== verification/Pbft_Properties.thy ===== *)
theory Pbft_Properties
  imports Pbft_Safety
begin

text \<open>
  Properties of single operations of the replica: the primary, the filter on incoming messages, the
  numbering of requests, and checkpoints with their quorum.
\<close>

section \<open>The primary\<close>

lemma add_peers_compatible:
  "cfg_wf E c \<Longrightarrow> compatible (cfg_peers c @ ps)
   \<Longrightarrow> cfg_peers (snd (add_peers E ps g c)) = cfg_peers c @ ps \<and> cfg_wf E (snd (add_peers E ps g c))"
proof (induction ps arbitrary: g c)
  case (Cons p ps)
  have "valid_peer p" "\<not> conflicting_peer_exists (cfg_peers c) p"
    using Cons.prems(2) by (auto simp: compatible_def sorted_wrt_append conflicting_peer_exists_def list_ex_iff)
  then have "cfg_peers (snd (add_peer E p c)) = cfg_peers c @ [p]"
    by (simp add: add_peer_cases)
  with Cons.IH [of "snd (add_peer E p c)"] cfg_wf_add [OF Cons.prems(1), of p] Cons.prems(2)
  show ?case by (simp add: case_prod_beta Let_def)
qed simp

lemma new_pbft_peers:
  assumes "compatible peers" "new_pbft X peers uuid = Inr st"
  shows "current_peers st = Inr (sort_key pa_uuid peers)" "peers \<noteq> []" "p_view st = 1" "p_uuid st = uuid"
proof -
  have "cfg_peers (snd (add_peers (config_lib X) peers True new_configuration)) = peers"
    "cfg_wf (config_lib X) (snd (add_peers (config_lib X) peers True new_configuration))"
    using add_peers_compatible [OF cfg_wf_new [of "config_lib X"], of peers True] assms(1)
    by (simp_all add: new_configuration_def)
  then show "current_peers st = Inr (sort_key pa_uuid peers)"
    using new_pbft_current [OF assms(2)] by (simp add: get_peers_def cfg_wf_def)
  show "peers \<noteq> []" "p_view st = 1" "p_uuid st = uuid"
    using assms(2) by (auto simp: new_pbft_def initialize_configuration_def Let_def split: if_splits prod.splits)
qed

text \<open>
  Replicas that were given the same peers, in whatever order, agree on who the primary is: the
  primary is one of the peers, it is the same for both, and at most one of two differently named
  replicas takes itself for it.
\<close>

theorem primary_agreement:
  assumes "compatible peers" "compatible peers'" "set peers = set peers'" "length peers < 2 ^ 64"
    and "new_pbft X peers i = Inr a" "new_pbft X peers' j = Inr b"
  shows "get_primary a = get_primary b \<and> (\<exists>p \<in> set peers. get_primary a = Inr p)
     \<and> (is_primary a = Inr True \<and> is_primary b = Inr True \<longrightarrow> i = j)"
proof -
  note a = new_pbft_peers [OF assms(1,5)] and b = new_pbft_peers [OF assms(2,6)]
  let ?ps = "sort_key pa_uuid peers"
  have same: "sort_key pa_uuid peers' = ?ps"
    using sort_key_set_eq [OF assms(3)] assms(1,2) compatible_distinct_uuid by metis
  have "unat (p_view a mod word_of_nat (length peers)) < length peers"
    using a(2) assms(4) by (simp add: unat_mod unat_of_nat)
  then have "?ps ! unat (p_view a mod word_of_nat (length peers)) \<in> set peers"
    by (metis length_sort nth_mem set_sort)
  moreover have "length peers' = length peers" using same by (metis length_sort)
  moreover have "?ps \<noteq> []" using a(2) by (metis set_empty set_sort)
  ultimately show ?thesis
    using a b same by (auto simp: is_primary_def get_primary_def)
qed

theorem primary_agreement_witness:
  "\<exists>a b. new_pbft sample_lib [sample_member ''a'' 80, sample_member ''b'' 90] ''a'' = Inr a
     \<and> new_pbft sample_lib [sample_member ''b'' 90, sample_member ''a'' 80] ''b'' = Inr b
     \<and> get_primary a = get_primary b"
proof -
  let ?p = "[sample_member ''a'' 80, sample_member ''b'' 90]" and ?q = "[sample_member ''b'' 90, sample_member ''a'' 80]"
  have c: "compatible ?p" "compatible ?q"
    by (simp_all add: compatible_def valid_peer_def peers_conflict_def sample_member_def)
  obtain a b where "new_pbft sample_lib ?p ''a'' = Inr a" "new_pbft sample_lib ?q ''b'' = Inr b"
    by (simp add: new_pbft_def)
  with primary_agreement [OF c] show ?thesis by fastforce
qed

section \<open>Filtering and numbering\<close>

text \<open>
  The primary numbers requests consecutively: a request it receives is given the next sequence
  number, and exactly one preprepare with that number, the current view and the request itself goes
  out to every current peer. A replica that is not the primary only passes the request on to the
  primary.
\<close>

theorem request_numbering:
  assumes "current_peers st = Inr ps" "get_primary st = Inr p"
    and "map_of (operations st) (p_view st, next_issued_sequence_number st, request_hash (ShortDebugString X) req) = None"
  shows "if pa_uuid p = p_uuid st
     then \<exists>st'. handle_request X req json session st = Inr st'
        \<and> next_issued_sequence_number st' = next_issued_sequence_number st + 1
        \<and> effects st' = effects st @ map (\<lambda>q. Send_str (make_endpoint q) (Wire_pbft (p_uuid st)
             \<lparr>m_type = PBFT_MSG_PREPREPARE, m_view = p_view st, m_sequence = next_issued_sequence_number st,
              m_request = Some req, m_state_hash = ''''\<rparr>)) ps
     else handle_request X req json session st = Inr (st\<lparr>effects := effects st @ [Forward (make_endpoint p) json]\<rparr>)"
proof (cases "pa_uuid p = p_uuid st")
  case True
  let ?seq = "next_issued_sequence_number st" and ?h = "request_hash (ShortDebugString X) req"
  let ?st = "st\<lparr>next_issued_sequence_number := ?seq + 1,
      operations := smap_set (p_view st, ?seq, ?h) (new_operation (p_view st) ?seq req ps) (operations st)\<rparr>"
  have peers: "current_peers (st\<lparr>next_issued_sequence_number := k\<rparr>) = Inr ps"
    "current_peers (st\<lparr>next_issued_sequence_number := k, operations := os\<rparr>) = Inr ps" for k os
    using assms(1) by (simp_all add: current_peers_def)
  have "setup_request_operation X req session st = Inr ((p_view st, ?seq, ?h),
      case session of None \<Rightarrow> ?st | Some s \<Rightarrow> change_op (p_view st, ?seq, ?h) (set_session (Some s)) ?st)"
    using assms(3) peers
    by (simp add: setup_request_operation_def find_operation_def Let_def)
  then show ?thesis
    using True assms(2) peers
    by (cases session)
      (simp_all add: handle_request_def is_primary_def do_preprepare_def broadcast_def wrap_message_def
        common_message_setup_def change_op_def op_at_def set_session_def new_operation_def)
next
  case False
  then show ?thesis using assms(2) by (simp add: handle_request_def is_primary_def)
qed

theorem request_numbering_witness:
  "\<exists>st st'. sample_run 0 = Inr st \<and> handle_request sample_lib default_request None None st = Inr st'
     \<and> next_issued_sequence_number st' = 2"
proof -
  have "case sample_run 0 of Inr st \<Rightarrow> current_peers st = Inr [sample_member ''a'' 80]
      \<and> get_primary st = Inr (sample_member ''a'' 80) \<and> operations st = [] \<and> p_uuid st = ''a''
      \<and> next_issued_sequence_number st = 1 | Inl _ \<Rightarrow> False"
    by code_simp
  then obtain st where st: "sample_run 0 = Inr st" "current_peers st = Inr [sample_member ''a'' 80]"
      "get_primary st = Inr (sample_member ''a'' 80)" "operations st = []" "p_uuid st = ''a''"
      "next_issued_sequence_number st = 1"
    by (auto split: sum.splits)
  with request_numbering [OF st(2,3), of sample_lib default_request None None]
  show ?thesis by (auto simp: sample_member_def)
qed

text \<open>
  The primary does not check the water marks before numbering a request. A preprepare whose
  number is above a replica's high water mark leaves that replica's state unchanged, and nothing in
  the code sends it again: the operation of that number is lost to every replica whose high water
  mark was lower when the preprepare arrived, the primary included.
\<close>

theorem request_above_window_lost:
  assumes "m_type msg = PBFT_MSG_PREPREPARE" "high_water_mark st < m_sequence msg"
  shows "handle_bzn_message X \<lparr>e_sender = s, e_payload = Pay_pbft (Some msg)\<rparr> st = Inr st"
  using assms by (simp add: handle_bzn_message_def handle_message_def preliminary_filter_msg_def)

theorem request_above_window_lost_witness:
  "\<exists>st. sample_run 0 = Inr st \<and> handle_bzn_message sample_lib
     \<lparr>e_sender = ''a'', e_payload = Pay_pbft (Some ((sample_vote PBFT_MSG_PREPREPARE)\<lparr>m_sequence := 201\<rparr>))\<rparr> st = Inr st"
proof -
  have "case sample_run 0 of Inr st \<Rightarrow> high_water_mark st = 200 | Inl _ \<Rightarrow> False" by code_simp
  then obtain st where "sample_run 0 = Inr st" "high_water_mark st = 200" by (auto split: sum.splits)
  with request_above_window_lost [of "(sample_vote PBFT_MSG_PREPREPARE)\<lparr>m_sequence := 201\<rparr>" st sample_lib "''a''"]
  show ?thesis by (simp add: sample_vote_def)
qed

section \<open>Checkpoints\<close>

definition checkpoint_quorum :: "nat \<Rightarrow> nat" where
  "checkpoint_quorum n = 1 + 2 * (n div 3)"

lemma quorum_size_eq: "current_peers st = Inr ps \<Longrightarrow> quorum_size st = Inr (checkpoint_quorum (length ps))"
  by (simp add: quorum_size_def max_faulty_nodes_def checkpoint_quorum_def)

lemma op_bound_thirds:
  assumes "0 < n"
  obtains k r where "n = 3 * k + r" "n div 3 = k" "n mod 3 = r" "r < 3" "op_bound n = (if r = 0 then k - 1 else k)"
proof -
  have "op_bound n = (if n mod 3 = 0 then n div 3 - 1 else n div 3)"
    using assms unfolding op_bound_def by presburger
  then show thesis using that [of "n div 3" "n mod 3"] by simp
qed

interpretation cp_q: live_quorum_size op_bound checkpoint_quorum "\<lambda>n. 0 < n \<and> n mod 3 \<noteq> 2"
proof unfold_locales
  fix n :: nat
  assume n: "0 < n \<and> n mod 3 \<noteq> 2"
  then obtain k r where "n = 3 * k + r" "n div 3 = k" "n mod 3 = r" "r < 3" "op_bound n = (if r = 0 then k - 1 else k)"
    using op_bound_thirds by blast
  with n show "n + op_bound n < 2 * checkpoint_quorum n" "checkpoint_quorum n + op_bound n \<le> n"
    unfolding checkpoint_quorum_def by (auto split: if_splits)
qed



definition cp_ok :: "pbft \<Rightarrow> bool" where
  "cp_ok st \<longleftrightarrow> sset_ok (local_unstable_checkpoints st) \<and> smap_ok (unstable_checkpoint_proofs st)
     \<and> (\<forall>cp m. map_of (unstable_checkpoint_proofs st) cp = Some m \<longrightarrow> umap_ok m)"

text \<open>The proof a replica holds for a checkpoint.\<close>

definition proofs_of :: "pbft \<Rightarrow> checkpoint_t \<Rightarrow> (uuid_t, string) umap" where
  "proofs_of st cp = (case map_of (unstable_checkpoint_proofs st) cp of None \<Rightarrow> [] | Some p \<Rightarrow> p)"

lemma maybe_stabilize_eq:
  assumes "current_peers st = Inr ps" "cp \<in> set (local_unstable_checkpoints st)"
    and "checkpoint_quorum (length ps) \<le> length (proofs_of st cp)"
  shows "maybe_stabilize_checkpoint False cp st = Inr (st\<lparr>stable_checkpoint := cp,
     stable_checkpoint_proof := proofs_of st cp,
     local_unstable_checkpoints := erase_until (\<lambda>c. c) (fst cp + 1, '''') (local_unstable_checkpoints st),
     unstable_checkpoint_proofs := erase_until fst (fst cp + 1, '''')
       (smap_set cp (proofs_of st cp) (unstable_checkpoint_proofs st)),
     operations := filter (\<lambda>(_, op). \<not> op_sequence op \<le> fst cp) (operations st),
     low_water_mark := max (low_water_mark st) (fst cp),
     high_water_mark := max (high_water_mark st) (fst cp + high_water_interval)\<rparr>)"
proof -
  have "current_peers (st\<lparr>unstable_checkpoint_proofs := p\<rparr>) = Inr ps" for p
    using assms(1) by (simp add: current_peers_def)
  then show ?thesis
    using assms(2,3)
    by (simp add: maybe_stabilize_checkpoint_def proofs_of_def quorum_size_eq Let_def
        clear_local_checkpoints_until_def clear_checkpoint_messages_until_def clear_operations_until_def)
qed

lemma maybe_stabilize_no_quorum:
  assumes "current_peers st = Inr ps"
    and "cp \<notin> set (local_unstable_checkpoints st) \<or> length (proofs_of st cp) < checkpoint_quorum (length ps)"
  shows "\<exists>p. maybe_stabilize_checkpoint b cp st = Inr (st\<lparr>unstable_checkpoint_proofs := p\<rparr>)"
proof -
  have "current_peers (st\<lparr>unstable_checkpoint_proofs := p\<rparr>) = Inr ps" for p
    using assms(1) by (simp add: current_peers_def)
  moreover have "\<exists>p. st = st\<lparr>unstable_checkpoint_proofs := p\<rparr>"
    by (rule exI [of _ "unstable_checkpoint_proofs st"]) simp
  ultimately show ?thesis
    using assms(2)
    by (cases "cp \<in> set (local_unstable_checkpoints st)")
      (auto simp: maybe_stabilize_checkpoint_def proofs_of_def quorum_size_eq Let_def)
qed

text \<open>
  C36: A checkpoint message makes a checkpoint stable exactly when the replica has reached that
  checkpoint itself and, with this message, holds proofs for it from a quorum of distinct senders.
  Then the water marks move up, no operation at or below the checkpoint remains and none above it is
  dropped; otherwise the stable checkpoint, the marks and the operations stay as they are.
\<close>

theorem checkpoint_stabilises:
  assumes "cp_ok st" "current_peers st = Inr ps" "fst (stable_checkpoint st) < m_sequence msg"
    and "cp = (m_sequence msg, m_state_hash msg)"
  shows "\<exists>st'. handle_checkpoint X msg env st = Inr st' \<and>
     (if cp \<in> set (local_unstable_checkpoints st)
         \<and> checkpoint_quorum (length ps) \<le> card (insert (e_sender env) (fst ` set (proofs_of st cp)))
      then stable_checkpoint st' = cp
         \<and> fst ` set (stable_checkpoint_proof st') = insert (e_sender env) (fst ` set (proofs_of st cp))
         \<and> low_water_mark st' = max (low_water_mark st) (fst cp)
         \<and> high_water_mark st' = max (high_water_mark st) (fst cp + 200)
         \<and> set (operations st') = {e \<in> set (operations st). fst cp < op_sequence (snd e)}
      else stable_checkpoint st' = stable_checkpoint st \<and> low_water_mark st' = low_water_mark st
         \<and> high_water_mark st' = high_water_mark st \<and> operations st' = operations st)"
proof -
  let ?new = "AList.update (e_sender env) (envelope_string X env) (proofs_of st cp)"
  let ?st = "st\<lparr>unstable_checkpoint_proofs := smap_set cp ?new (unstable_checkpoint_proofs st)\<rparr>"
  have run: "handle_checkpoint X msg env st = maybe_stabilize_checkpoint False cp ?st"
    using assms(3) [unfolded not_le [symmetric]] unfolding handle_checkpoint_def Let_def assms(4) [symmetric] proofs_of_def by simp
  have peers: "current_peers ?st = Inr ps" using assms(2) by (simp add: current_peers_def)
  have new: "proofs_of ?st cp = ?new" by (simp add: proofs_of_def)
  have "umap_ok m" if "map_of (unstable_checkpoint_proofs st) cp = Some m" for m
    using assms(1) that unfolding cp_ok_def by blast
  then have "umap_ok (proofs_of st cp)" by (simp add: proofs_of_def split: option.splits)
  then have len: "length ?new = card (insert (e_sender env) (fst ` set (proofs_of st cp)))"
    by (simp add: umap_size umap_ok_update dom_map_of_conv_image_fst [symmetric])
  have keys: "fst ` set ?new = insert (e_sender env) (fst ` set (proofs_of st cp))"
    by (simp add: dom_map_of_conv_image_fst [symmetric])
  show ?thesis
  proof (cases "cp \<in> set (local_unstable_checkpoints st) \<and> checkpoint_quorum (length ps) \<le> length ?new")
    case True
    then show ?thesis
      using maybe_stabilize_eq [OF peers, of cp] run new keys len
      by (auto simp: high_water_interval_def not_le)
  next
    case False
    then show ?thesis
      using maybe_stabilize_no_quorum [OF peers, of cp False] run new len by fastforce
  qed
qed

definition sample_checkpoint :: pbft_msg where
  "sample_checkpoint = default_pbft_msg\<lparr>m_type := PBFT_MSG_CHECKPOINT, m_view := 1, m_sequence := 100\<rparr>"

lemma sample_start:
  obtains st where "sample_run 0 = Inr st" "current_peers st = Inr [sample_member ''a'' 80]"
    "stable_checkpoint st = (0, INITIAL_CHECKPOINT_HASH)" "unstable_checkpoint_proofs st = []"
    "low_water_mark st = 0" "local_unstable_checkpoints st = []"
proof -
  have "case sample_run 0 of Inr st \<Rightarrow> current_peers st = Inr [sample_member ''a'' 80]
      \<and> stable_checkpoint st = (0, INITIAL_CHECKPOINT_HASH) \<and> unstable_checkpoint_proofs st = []
      \<and> low_water_mark st = 0 \<and> local_unstable_checkpoints st = [] | Inl _ \<Rightarrow> False"
    by code_simp
  then show thesis using that by (auto split: sum.splits)
qed

theorem checkpoint_stabilises_witness:
  "\<exists>st st'. handle_checkpoint sample_lib sample_checkpoint \<lparr>e_sender = ''a'', e_payload = Pay_other\<rparr> st = Inr st'
     \<and> stable_checkpoint st' = (100, '''') \<and> low_water_mark st' = 100"
proof -
  obtain st0 where st0: "current_peers st0 = Inr [sample_member ''a'' 80]"
    "stable_checkpoint st0 = (0, INITIAL_CHECKPOINT_HASH)" "unstable_checkpoint_proofs st0 = []"
    "low_water_mark st0 = 0" "local_unstable_checkpoints st0 = []"
    by (rule sample_start)
  define st where "st = st0\<lparr>local_unstable_checkpoints := [(100, '''')]\<rparr>"
  have ok: "cp_ok st" "current_peers st = Inr [sample_member ''a'' 80]"
    using st0 by (simp_all add: st_def cp_ok_def sset_ok_def current_peers_def)
  have "fst (stable_checkpoint st) < m_sequence sample_checkpoint"
    using st0 by (simp add: st_def sample_checkpoint_def)
  from checkpoint_stabilises [OF ok this, of "(100, '''')" sample_lib "\<lparr>e_sender = ''a'', e_payload = Pay_other\<rparr>"]
  show ?thesis
    using st0 by (auto simp: sample_checkpoint_def default_pbft_msg_def st_def proofs_of_def checkpoint_quorum_def)
qed

text \<open>
  When a replica reaches a checkpoint for which a quorum of proofs has already arrived, the
  stabilisation goes through a reference into \<open>local_unstable_checkpoints\<close> whose element it erases
  half-way: the behaviour from there on is undefined.
\<close>

theorem late_local_checkpoint_undefined:
  assumes "current_peers st = Inr ps" "sequence + 1 \<noteq> 0" "sset_ok (local_unstable_checkpoints st)"
    and "checkpoint_quorum (length ps) \<le> length (proofs_of st (sequence, state_hash_at X sequence))"
  shows "checkpoint_reached_locally X sequence st = Inl (Undefined_behaviour ''reference to an erased element'')"
proof -
  let ?cp = "(sequence, state_hash_at X sequence)"
  let ?l = "sset_insert ?cp (local_unstable_checkpoints st)"
  have less: "?cp \<le> (sequence + 1, '''')"
    using word_less_plus_one [OF assms(2)] by (simp add: less_eq_prod_def)
  have "sorted_wrt (<) (map (\<lambda>c. c) ?l)" using sset_ok_insert [OF assms(3)] by (simp add: sset_ok_def)
  then have gone: "?cp \<notin> set (erase_until (\<lambda>c. c) (sequence + 1, '''') ?l)"
    using leD [OF less] unfolding erase_until_filter [OF \<open>sorted_wrt (<) (map (\<lambda>c. c) ?l)\<close>] set_filter by blast
  have "current_peers (st\<lparr>local_unstable_checkpoints := l\<rparr>) = Inr ps"
    "current_peers (st\<lparr>local_unstable_checkpoints := l, effects := es\<rparr>) = Inr ps"
    "current_peers (st\<lparr>local_unstable_checkpoints := l, effects := es, unstable_checkpoint_proofs := p\<rparr>) = Inr ps"
    for l es p
    using assms(1) by (simp_all add: current_peers_def)
  then show ?thesis
    using assms(4) gone
    by (simp add: checkpoint_reached_locally_def broadcast_def wrap_message_def maybe_stabilize_checkpoint_def
        proofs_of_def quorum_size_eq clear_local_checkpoints_until_def Let_def)
qed

theorem late_local_checkpoint_undefined_witness:
  "\<exists>st. checkpoint_reached_locally sample_lib 100 st = Inl (Undefined_behaviour ''reference to an erased element'')"
proof -
  obtain st0 where st0: "current_peers st0 = Inr [sample_member ''a'' 80]" "local_unstable_checkpoints st0 = []"
    by (rule sample_start)
  define st where "st = st0\<lparr>unstable_checkpoint_proofs := [((100, ''''), [(''a'', '''')])]\<rparr>"
  have "current_peers st = Inr [sample_member ''a'' 80]" "sset_ok (local_unstable_checkpoints st)"
    using st0 by (simp_all add: st_def current_peers_def)
  moreover have "checkpoint_quorum (length [sample_member ''a'' 80])
      \<le> length (proofs_of st (100, state_hash_at sample_lib 100))"
    by (simp add: st_def proofs_of_def checkpoint_quorum_def sample_lib_def)
  ultimately show ?thesis using late_local_checkpoint_undefined [of st _ 100 sample_lib] by auto
qed

section \<open>Progress of the water marks\<close>

text \<open>The part of the state that only checkpoints change.\<close>

definition marks :: "pbft \<Rightarrow> (checkpoint_t \<times> u64 \<times> u64) \<times> checkpoint_t list
    \<times> (checkpoint_t, (uuid_t, string) umap) smap" where
  "marks st = ((stable_checkpoint st, low_water_mark st, high_water_mark st),
     local_unstable_checkpoints st, unstable_checkpoint_proofs st)"

lemma marks_update [simp]:
  "marks (st\<lparr>operations := os\<rparr>) = marks st" "marks (st\<lparr>effects := es\<rparr>) = marks st"
  "marks (st\<lparr>configurations := cs\<rparr>) = marks st" "marks (st\<lparr>accepted_preprepares := a\<rparr>) = marks st"
  "marks (st\<lparr>detector := d\<rparr>) = marks st" "marks (st\<lparr>next_issued_sequence_number := k\<rparr>) = marks st"
  "marks (st\<lparr>audit_enabled := b\<rparr>) = marks st" "marks (change_op key f st) = marks st"
  by (simp_all add: marks_def change_op_def)

lemma find_operation_marks: "find_operation X v s r st = Inr (k, st') \<Longrightarrow> marks st' = marks st"
  by (auto simp: find_operation_def Let_def split: option.splits)

lemma broadcast_marks: "broadcast w st = Inr st' \<Longrightarrow> marks st' = marks st"
  by (auto simp: broadcast_def)

lemma advance_marks:
  assumes "maybe_advance_operation_state X k st = Inr st'"
  shows "marks st' = marks st"
proof -
  have p: "do_prepared X k st = Inr st' \<Longrightarrow> marks st' = marks st" for st st'
    by (auto simp: do_prepared_def Let_def dest!: broadcast_marks split: option.splits)
  have c: "do_committed X k st = Inr st' \<Longrightarrow> marks st' = marks st" for st st'
    by (auto simp: do_committed_def Let_def dest!: broadcast_marks find_operation_marks split: option.splits if_splits)
  show ?thesis
    using assms by (auto simp: maybe_advance_operation_state_def dest!: p c split: if_splits)
qed

lemma vote_marks:
  shows "handle_preprepare X msg st = Inr st' \<Longrightarrow> marks st' = marks st"
    and "handle_prepare X msg env st = Inr st' \<Longrightarrow> marks st' = marks st"
    and "handle_commit X msg env st = Inr st' \<Longrightarrow> marks st' = marks st"
  by (auto simp: handle_preprepare_def do_preprepared_def handle_config_message_def Let_def
      handle_prepare_def handle_commit_def
      dest!: find_operation_marks broadcast_marks advance_marks split: if_splits prod.splits)

lemma request_marks:
  "setup_request_operation X req session st = Inr (k, st') \<Longrightarrow> marks st' = marks st"
  by (auto simp: setup_request_operation_def Let_def dest!: find_operation_marks split: option.splits)

text \<open>How the checkpoint state may move in one step.\<close>

definition advances :: "pbft \<Rightarrow> pbft \<Rightarrow> bool" where
  "advances st st' \<longleftrightarrow> cp_ok st' \<and> fst (stable_checkpoint st) \<le> fst (stable_checkpoint st')
     \<and> low_water_mark st \<le> low_water_mark st' \<and> high_water_mark st \<le> high_water_mark st'"

lemma advances_marks:
  assumes "marks a = marks b"
  shows "advances st a \<longleftrightarrow> advances st b" "advances a st \<longleftrightarrow> advances b st" "cp_ok a \<longleftrightarrow> cp_ok b"
  using assms by (simp_all add: marks_def advances_def cp_ok_def)

lemma advances_refl: "cp_ok st \<Longrightarrow> advances st st"
  by (simp add: advances_def)

lemma umap_ok_filtered:
  assumes "smap_ok m" "\<forall>k v. map_of m k = Some v \<longrightarrow> umap_ok v" "map_of (filter P m) k = Some v"
  shows "umap_ok v"
proof -
  have "map_of m k = Some v" using assms(3) map_of_filter_smap [OF assms(1), of P k]
    by (auto split: option.splits if_splits)
  with assms(2) show ?thesis by blast
qed

lemma stabilize_advances:
  assumes "maybe_stabilize_checkpoint b cp st = Inr st'" "b \<or> fst (stable_checkpoint st) \<le> fst cp" "cp_ok st"
  shows "advances st st'"
proof -
  let ?p = "smap_set cp (proofs_of st cp) (unstable_checkpoint_proofs st)"
  have ok: "smap_ok ?p" "\<forall>k v. map_of ?p k = Some v \<longrightarrow> umap_ok v" and loc: "sset_ok (local_unstable_checkpoints st)"
    using assms(3) unfolding cp_ok_def proofs_of_def by (auto split: option.splits)
  have el: "erase_until (\<lambda>c. c) d (local_unstable_checkpoints st) = filter (\<lambda>c. d < c) (local_unstable_checkpoints st)"
    and ep: "erase_until fst d ?p = filter (\<lambda>e. d < fst e) ?p" for d
    using loc ok(1) erase_until_filter [of "\<lambda>c. c" "local_unstable_checkpoints st" d] erase_until_filter [of fst ?p d]
    by (simp_all add: sset_ok_def smap_ok_def)
  have wrap: "fst (stable_checkpoint st) \<le> fst cp" if b "(fst cp + 1, '''') < cp"
  proof -
    from that(2) have "\<not> fst cp < fst cp + 1" by (cases cp) auto
    then have "fst cp + 1 = 0" using word_less_plus_one by blast
    then have "fst cp = - 1" by (simp add: eq_neg_iff_add_eq_0)
    then show ?thesis by simp
  qed
  consider "\<exists>q. st' = st\<lparr>unstable_checkpoint_proofs := q\<rparr> \<and> (q = unstable_checkpoint_proofs st \<or> q = ?p)"
    | "fst (stable_checkpoint st) \<le> fst cp" "stable_checkpoint st' = cp" "low_water_mark st \<le> low_water_mark st'"
      "high_water_mark st \<le> high_water_mark st'"
      "local_unstable_checkpoints st' = filter (\<lambda>c. (fst cp + 1, '''') < c) (local_unstable_checkpoints st)"
      "unstable_checkpoint_proofs st' = filter (\<lambda>e. (fst cp + 1, '''') < fst e) ?p"
  proof (cases "cp \<in> set (local_unstable_checkpoints st)")
    case False
    then have "st' = st\<lparr>unstable_checkpoint_proofs := unstable_checkpoint_proofs st\<rparr>"
      using assms(1) by (simp add: maybe_stabilize_checkpoint_def)
    then show ?thesis using that(1) by blast
  next
    case True
    define st1 where "st1 = st\<lparr>unstable_checkpoint_proofs := ?p\<rparr>"
    from True assms(1) obtain q where q: "quorum_size st1 = Inr q"
      and st': "(if length (proofs_of st cp) < q then Inr st1
        else let st = clear_local_checkpoints_until cp (st1\<lparr>stable_checkpoint := cp, stable_checkpoint_proof := proofs_of st cp\<rparr>) in
          if b \<and> cp \<notin> set (local_unstable_checkpoints st)
          then Inl (Undefined_behaviour ''reference to an erased element'')
          else let st = clear_operations_until cp (clear_checkpoint_messages_until cp st) in
            Inr (st\<lparr>low_water_mark := max (low_water_mark st) (fst cp),
              high_water_mark := max (high_water_mark st) (fst cp + high_water_interval)\<rparr>)) = Inr st'"
      unfolding maybe_stabilize_checkpoint_def Let_def st1_def proofs_of_def by auto
    show ?thesis
    proof (cases "length (proofs_of st cp) < q")
      case True
      with st' that(1) show ?thesis by (auto simp: st1_def)
    next
      case False
      then have "\<not> b \<or> (fst cp + 1, '''') < cp" and res: "stable_checkpoint st' = cp"
        "low_water_mark st \<le> low_water_mark st'" "high_water_mark st \<le> high_water_mark st'"
        "local_unstable_checkpoints st' = filter (\<lambda>c. (fst cp + 1, '''') < c) (local_unstable_checkpoints st)"
        "unstable_checkpoint_proofs st' = filter (\<lambda>e. (fst cp + 1, '''') < fst e) ?p"
        using st' by (auto simp: st1_def clear_local_checkpoints_until_def clear_checkpoint_messages_until_def
            clear_operations_until_def el ep Let_def simp del: less_prod_simp split: if_splits)
      then show ?thesis using that(2) wrap assms(2) by blast
    qed
  qed
  then show ?thesis
  proof cases
    case 1
    then show ?thesis using ok assms(3) by (auto simp: advances_def cp_ok_def)
  next
    case 2
    then show ?thesis using ok loc umap_ok_filtered [OF ok] by (simp add: advances_def cp_ok_def)
  qed
qed

lemma handle_message_advances:
  assumes "handle_message X msg env st = Inr st'" "cp_ok st"
  shows "advances st st'"
proof -
  define st1 where "st1 = (case m_request msg of None \<Rightarrow> st
      | Some req \<Rightarrow> st\<lparr>detector := request_seen (ShortDebugString X) req (detector st)\<rparr>)"
  have m1: "marks st1 = marks st" by (auto simp: st1_def split: option.splits)
  then have ok: "cp_ok st1" using assms(2) advances_marks by blast
  have same: "advances st st'" if "marks st' = marks st1"
    using that m1 assms(2) advances_refl advances_marks by metis
  note votes = vote_marks [where st = st1 and X = X and msg = msg]
  have cp: "advances st1 st'" if "handle_checkpoint X msg env st1 = Inr st'"
  proof (cases "m_sequence msg \<le> fst (stable_checkpoint st1)")
    case True
    then show ?thesis using that ok by (simp add: handle_checkpoint_def advances_refl)
  next
    case False
    let ?cp = "(m_sequence msg, m_state_hash msg)"
    let ?st = "st1\<lparr>unstable_checkpoint_proofs := smap_set ?cp (AList.update (e_sender env)
        (envelope_string X env) (proofs_of st1 ?cp)) (unstable_checkpoint_proofs st1)\<rparr>"
    have run: "maybe_stabilize_checkpoint False ?cp ?st = Inr st'"
      using that False by (simp add: handle_checkpoint_def proofs_of_def Let_def)
    have "cp_ok ?st" using ok unfolding cp_ok_def proofs_of_def by (auto split: option.splits)
    from stabilize_advances [OF run _ this] False show ?thesis by (simp add: advances_def)
  qed
  have "advances st1 st' \<Longrightarrow> advances st st'" using advances_marks(2) [OF m1] by simp
  with assms(1) same votes cp assms(2) show ?thesis
    unfolding handle_message_def Let_def st1_def [symmetric]
    by (auto split: if_splits pbft_msg_type.splits simp: advances_refl)
qed

lemma checkpoint_reached_advances:
  assumes "checkpoint_reached_locally X s st = Inr st'" "cp_ok st"
  shows "advances st st'"
proof -
  let ?cp = "(s, state_hash_at X s)"
  let ?st = "st\<lparr>local_unstable_checkpoints := sset_insert ?cp (local_unstable_checkpoints st)\<rparr>"
  obtain st1 w where b: "broadcast w ?st = Inr st1" and m: "maybe_stabilize_checkpoint True ?cp st1 = Inr st'"
    using assms(1) by (auto simp: checkpoint_reached_locally_def Let_def)
  have "cp_ok ?st" using assms(2) unfolding cp_ok_def by auto
  then have "cp_ok st1" using advances_marks(3) [OF broadcast_marks [OF b]] by blast
  from stabilize_advances [OF m _ this] broadcast_marks [OF b] show ?thesis
    by (simp add: advances_def marks_def)
qed

lemma node_step_advances:
  assumes "node_step X N st st'" "cp_ok st"
  shows "advances st st'"
proof -
  have keep: "advances st st'" if "marks st' = marks st"
    using that assms(2) advances_refl advances_marks by metis
  have req: "setup_request_operation X r ss a = Inr (k, b) \<Longrightarrow> do_preprepare k b = Inr c \<Longrightarrow> marks c = marks a" for r ss a k b c
    by (auto simp: do_preprepare_def dest!: request_marks broadcast_marks)
  have handle: "handle_request X r j ss a = Inr c \<Longrightarrow> marks c = marks a" for r j ss a c
    unfolding handle_request_def by (elim bindE_InrE) (auto split: if_splits dest: req)
  have new: "broadcast_new_configuration X cf a = Inr c \<Longrightarrow> marks c = marks a" for cf a c
    unfolding broadcast_new_configuration_def by (elim bindE_InrE) (auto dest: req)
  have join: "handle_join_or_leave X m st = Inr st' \<Longrightarrow> marks st' = marks st" for m
    unfolding handle_join_or_leave_def Let_def
    by (elim bindE_InrE) (auto split: if_splits option.splits prod.splits dest: new)
  from assms(1) show ?thesis
  proof cases
    case (message s m)
    then show ?thesis using handle_message_advances assms(2) by (simp add: handle_bzn_message_def)
  next
    case (membership env)
    then have "marks st' = marks st"
      by (auto simp: handle_membership_message_def split: option.splits payload.splits if_splits dest: join)
    then show ?thesis by (rule keep)
  next
    case (database json session)
    then have "marks st' = marks st"
      by (auto simp: handle_database_message_def Let_def split: option.splits dest: handle)
    then show ?thesis by (rule keep)
  next
    case (executed req s)
    let ?st = "st\<lparr>detector := request_executed (ShortDebugString X) req (detector st)\<rparr>"
    have m: "marks ?st = marks st" by simp
    have "cp_ok ?st" using assms(2) advances_marks(3) [OF m] by blast
    with executed keep m checkpoint_reached_advances [of X s ?st st'] advances_marks(2) [OF m] show ?thesis
      by (auto simp: execute_handler_def Let_def split: if_splits)
  next
    case (heartbeat ec)
    then have "marks st' = marks st" unfolding handle_audit_heartbeat_timeout_def
      by (auto split: if_splits dest: broadcast_marks)
    then show ?thesis by (rule keep)
  next
    case failure
    then have "marks st' = marks st"
      by (auto simp: handle_failure_def notify_audit_failure_detected_def split: if_splits dest: broadcast_marks)
    then show ?thesis by (rule keep)
  next
    case (timeout sds fd fd')
    show ?thesis by (rule keep) (simp add: timeout(1))
  next
    case (audit setting)
    show ?thesis by (rule keep) (simp add: audit set_audit_enabled_def)
  qed
qed

lemma new_pbft_cp_ok: "new_pbft X peers i = Inr st \<Longrightarrow> cp_ok st"
  by (auto simp: new_pbft_def initialize_configuration_def Let_def cp_ok_def split: if_splits prod.splits)

lemma reachable_cp_ok: "reachable X n C F sys \<Longrightarrow> i \<in> C \<Longrightarrow> cp_ok (nodes sys i)"
proof (induction rule: reachable.induct)
  case (init sys)
  then obtain peers where "new_pbft X peers i = Inr (nodes sys i)" by (auto simp: system_init_def)
  then show ?case by (rule new_pbft_cp_ok)
next
  case (step sys sys')
  then have ok: "cp_ok (nodes sys i)" by blast
  from step(2) show ?case
  proof cases
    case (correct j st')
    then show ?thesis using ok node_step_advances [of X "net sys" "nodes sys i" st'] by (auto simp: advances_def)
  qed (use ok in simp)
qed

text \<open>
  C37: The stable checkpoint and both water marks of a correct replica never move back, in any run
  with any behaviour of the others.
\<close>

theorem water_marks_monotone:
  assumes "reachable X n C F sys" "system_step X C F sys sys'" "i \<in> C"
  shows "fst (stable_checkpoint (nodes sys i)) \<le> fst (stable_checkpoint (nodes sys' i))
     \<and> low_water_mark (nodes sys i) \<le> low_water_mark (nodes sys' i)
     \<and> high_water_mark (nodes sys i) \<le> high_water_mark (nodes sys' i)"
  using assms(2)
proof cases
  case (correct j st')
  then show ?thesis
    using node_step_advances [OF _ reachable_cp_ok [OF assms(1,3)], of X "net sys" st'] by (auto simp: advances_def)
qed simp

theorem water_marks_monotone_witness:
  "\<exists>sys sys'. system_step sample_lib {''a''} {} sys sys'
     \<and> low_water_mark (nodes sys ''a'') \<le> low_water_mark (nodes sys' ''a'')"
proof -
  obtain sys where sys: "reachable sample_lib 1 {''a''} {} sys" using sample_reachable by blast
  obtain sys' where step: "system_step sample_lib {''a''} {} sys sys'"
    using system_step.correct [OF _ node_step.audit, of "''a''" "{''a''}"] by blast
  from water_marks_monotone [OF sys step] step show ?thesis by blast
qed

end
