(* ===== verification/Pbft_Progress.thy ===== *)
theory Pbft_Progress
  imports Pbft_Properties
begin

text \<open>
  Progress of the replicas. An operation never waits with a complete certificate: whenever a handler
  returns, every operation in the table has been moved as far as the votes recorded for it allow, a
  replica that has recorded a preprepare has sent its prepare, one that is past the prepare phase has
  sent its commit, and the operations handed to the service are each handed over once. From this
  follows that the votes of enough correct replicas are enough: a preprepare that is on the network
  can be executed by every correct replica whose window it is in, whatever state the group is in.
\<close>

section \<open>The invariant\<close>

definition settled :: "pbft_operation \<Rightarrow> bool" where
  "settled op \<longleftrightarrow> (op_state op = Op_prepare \<longrightarrow> \<not> is_prepared op) \<and> (op_state op = Op_commit \<longrightarrow> \<not> is_committed op)"

definition post_keys :: "pbft_lib \<Rightarrow> pbft \<Rightarrow> operation_key_t list" where
  "post_keys X st = map (get_operation_key (ShortDebugString X)) (posted_list st)"

definition voted :: "pbft_lib \<Rightarrow> pbft_msg_type \<Rightarrow> operation_key_t \<Rightarrow> pbft \<Rightarrow> bool" where
  "voted X t k st \<longleftrightarrow> (\<exists>m. (p_uuid st, m) \<in> sent st \<and> m_type m = t \<and> msg_key X m = k)"

definition op_told :: "pbft_lib \<Rightarrow> pbft \<Rightarrow> operation_key_t \<Rightarrow> pbft_operation \<Rightarrow> bool" where
  "op_told X st k op \<longleftrightarrow> (op_state op = Op_committed \<longrightarrow> k \<in> set (post_keys X st))
     \<and> (preprepare_seen op \<longrightarrow> voted X PBFT_MSG_PREPARE k st)
     \<and> (op_state op \<noteq> Op_prepare \<longrightarrow> voted X PBFT_MSG_COMMIT k st)"

text \<open>\<open>K\<close> holds the key of the operation a handler is working on, if any.\<close>

definition prog :: "pbft_lib \<Rightarrow> operation_key_t set \<Rightarrow> pbft \<Rightarrow> bool" where
  "prog X K st \<longleftrightarrow>
     (\<forall>k op. map_of (operations st) k = Some op \<longrightarrow> k \<in> K \<or> settled op \<and> op_told X st k op)
     \<and> distinct (post_keys X st)
     \<and> (\<forall>k \<in> set (post_keys X st). fst (snd k) \<le> low_water_mark st
          \<or> (\<exists>op. map_of (operations st) k = Some op \<and> op_state op = Op_committed))"

lemma posted_list_emit [simp]:
  "posted_list (emit es st) = posted_list st @ concat (map (\<lambda>e. case e of Post_apply op \<Rightarrow> [op] | _ \<Rightarrow> []) es)"
  by (simp add: posted_list_def)

lemma posted_list_sends [simp]: "posted_list (emit (map (\<lambda>p. Send_str (f p) w) ps) st) = posted_list st"
  by (induction ps) (simp_all add: posted_list_def)

lemma post_keys_cong: "effects st' = effects st \<Longrightarrow> post_keys X st' = post_keys X st"
  by (simp add: post_keys_def posted_list_def)

lemma sent_cong: "effects st' = effects st \<Longrightarrow> sent st' = sent st"
  by (simp add: sent_def)

lemma op_told_mono:
  "op_told X st k op \<Longrightarrow> set (post_keys X st) \<subseteq> set (post_keys X st') \<Longrightarrow> sent st \<subseteq> sent st' \<Longrightarrow> p_uuid st' = p_uuid st
   \<Longrightarrow> op_told X st' k op"
  unfolding op_told_def voted_def by auto

text \<open>What a change of the state that concerns none of this keeps.\<close>

lemma prog_frame:
  assumes "prog X K st" "operations st' = operations st" "post_keys X st' = post_keys X st"
    and "sent st \<subseteq> sent st'" "p_uuid st' = p_uuid st" "low_water_mark st' = low_water_mark st"
  shows "prog X K st'"
proof -
  have "op_told X st' k op" if "op_told X st k op" for k op
    by (rule op_told_mono [OF that]) (use assms in simp_all)
  with assms show ?thesis unfolding prog_def by metis
qed

lemma prog_update [simp]:
  "prog X K (st\<lparr>configurations := cs\<rparr>) = prog X K st" "prog X K (st\<lparr>detector := d\<rparr>) = prog X K st"
  "prog X K (st\<lparr>accepted_preprepares := a\<rparr>) = prog X K st" "prog X K (st\<lparr>audit_enabled := b\<rparr>) = prog X K st"
  "prog X K (st\<lparr>next_issued_sequence_number := k\<rparr>) = prog X K st"
  "prog X K (st\<lparr>local_unstable_checkpoints := l\<rparr>) = prog X K st"
  "prog X K (st\<lparr>unstable_checkpoint_proofs := p\<rparr>) = prog X K st"
  by (simp_all add: prog_def op_told_def voted_def post_keys_def posted_list_def sent_def)

lemma broadcast_shape:
  assumes "pbft_inv X n B V st" "broadcast w st = Inr st'"
  shows "\<exists>ps. length ps = n \<and> st' = emit (map (\<lambda>p. Send_str (make_endpoint p) w) ps) st"
  using current_peers_length [OF assms(1)] assms(2) by (auto simp: broadcast_def)

lemma emit_sends_sent:
  "sent (emit (map (\<lambda>p. Send_str (f p) (Wire_pbft u m)) ps) st) = sent st \<union> (if ps = [] then {} else {(u, m)})"
  by (cases "f (hd ps)"; cases ps) (auto simp: sent_def)

lemma prog_broadcast:
  assumes "prog X K st" "broadcast w st = Inr st'"
  shows "prog X K st'"
proof -
  obtain ps where "st' = emit (map (\<lambda>p. Send_str (make_endpoint p) w) ps) st"
    using assms(2) by (auto simp: broadcast_def)
  then show ?thesis by (intro prog_frame [OF assms(1)]) (auto simp: post_keys_def sent_def)
qed

lemma prog_emit:
  "prog X K st \<Longrightarrow> \<forall>op. Post_apply op \<notin> set es \<Longrightarrow> prog X K (emit es st)"
  by (rule prog_frame) (auto simp: post_keys_def sent_def posted_list_def split: effect.splits)

lemma settled_new [simp]: "settled (new_operation v s r ps)"
  by (simp add: settled_def new_operation_def is_prepared_def)

lemma prog_find_operation:
  assumes "prog X K st" "find_operation X v s r st = Inr (key, st')"
  shows "prog X K st'"
proof -
  have "op_told X st k (new_operation v s r ps)" for k ps
    by (simp add: op_told_def new_operation_def)
  moreover have "op_told X (st\<lparr>operations := os\<rparr>) = op_told X st" for os
    by (simp add: fun_eq_iff op_told_def voted_def post_keys_def posted_list_def sent_def)
  moreover have "post_keys X (st\<lparr>operations := os\<rparr>) = post_keys X st" for os by (rule post_keys_cong) simp
  ultimately have "prog X K (st\<lparr>operations := smap_set k (new_operation v s r ps) (operations st)\<rparr>)"
    if "map_of (operations st) k = None" for k ps
    using assms(1) that unfolding prog_def by (simp del: split_paired_All) (metis option.distinct(1))
  with assms show ?thesis by (auto simp: find_operation_def Let_def split: option.splits)
qed

section \<open>Advancing an operation\<close>

lemma op_state_certificates [simp]:
  "is_prepared (op\<lparr>op_state := s\<rparr>) = is_prepared op" "is_committed (op\<lparr>op_state := s\<rparr>) = is_committed op"
  by (simp_all add: is_prepared_def is_committed_def)

lemma get_operation_key_state [simp]: "get_operation_key sds (op\<lparr>op_state := s\<rparr>) = get_operation_key sds op"
  by (simp add: get_operation_key_def)

lemma broadcast_total: "pbft_inv X n B V st \<Longrightarrow> \<exists>st'. broadcast w st = Inr st'"
  using current_peers_length [of X n B V st] by (auto simp: broadcast_def)

lemma change_op_marks [simp]: "low_water_mark (change_op key f st) = low_water_mark st"
  by (simp add: change_op_def)

lemma operations_change_op [simp]:
  "map_of (operations (change_op key f st)) = (map_of (operations st))(key \<mapsto> f (op_at key st))"
  by (simp add: change_op_def)

text \<open>Each phase change returns, moves only the operation of the key, and tells the peers or the service.\<close>

lemma do_prepared_shape:
  assumes "pbft_inv X n B V st" "0 < n" "map_of (operations st) key = Some op"
    and "op_state op = Op_prepare" "is_prepared op"
  shows "\<exists>st'. do_prepared X key st = Inr st'
     \<and> map_of (operations st') = (map_of (operations st))(key \<mapsto> op\<lparr>op_state := Op_commit\<rparr>)
     \<and> post_keys X st' = post_keys X st \<and> sent st \<subseteq> sent st' \<and> p_uuid st' = p_uuid st
     \<and> voted X PBFT_MSG_COMMIT key st'"
proof -
  define cs where "cs = (case carried_config X (op_request op) of None \<Rightarrow> configurations st
      | Some config \<Rightarrow> snd (enable (get_hash config) True (configurations st)))"
  let ?op = "op\<lparr>op_state := Op_commit\<rparr>"
  define st1 where "st1 = change_op key (\<lambda>_. ?op) (st\<lparr>configurations := cs\<rparr>)"
  have at: "op_at key st = op" using assms(3) by (simp add: op_at_def)
  have run: "do_prepared X key st = broadcast (wrap_message (common_message_setup ?op PBFT_MSG_COMMIT) st1) st1"
    using assms(4,5) at unfolding do_prepared_def st1_def cs_def
    by (auto simp: begin_commit_phase_def op_at_def Let_def split: option.splits)
  have "cfg_inv n (configurations st1)"
    using assms(1) by (auto simp: st1_def cs_def pbft_inv_def cfg_inv_enable split: option.splits)
  then obtain ps where ps: "current_peers st1 = Inr ps" "length ps = n"
    by (auto simp: cfg_inv_def current_peers_def)
  have key: "msg_key X (common_message_setup ?op PBFT_MSG_COMMIT) = key"
    using pbft_inv_op [OF assms(1,3)]
    by (auto simp: msg_key_def common_message_setup_def msg_request_def good_op_def get_operation_key_def)
  let ?st = "emit (map (\<lambda>p. Send_str (make_endpoint p) (Wire_pbft (p_uuid st) (common_message_setup ?op PBFT_MSG_COMMIT))) ps) st1"
  have "do_prepared X key st = Inr ?st"
    using run ps by (simp add: broadcast_def wrap_message_def st1_def)
  moreover have "sent ?st = insert (p_uuid st, common_message_setup ?op PBFT_MSG_COMMIT) (sent st1)"
    using ps(2) assms(2) by (subst emit_sends_sent) auto
  moreover have "sent st1 = sent st" by (rule sent_cong) (simp add: st1_def)
  moreover have "post_keys X ?st = post_keys X st" by (simp add: post_keys_def posted_list_def st1_def)
  moreover have "voted X PBFT_MSG_COMMIT key ?st"
    unfolding voted_def using key calculation(2)
    by (intro exI [of _ "common_message_setup ?op PBFT_MSG_COMMIT"]) (auto simp: st1_def common_message_setup_def)
  ultimately show ?thesis by (intro exI [of _ ?st]) (auto simp: st1_def)
qed

lemma do_committed_shape:
  assumes "pbft_inv X n B V st" "map_of (operations st) key = Some op"
    and "op_state op = Op_commit" "is_committed op"
  shows "\<exists>st'. do_committed X key st = Inr st'
     \<and> map_of (operations st') = (map_of (operations st))(key \<mapsto> op\<lparr>op_state := Op_committed\<rparr>)
     \<and> post_keys X st' = post_keys X st @ [key] \<and> sent st \<subseteq> sent st' \<and> p_uuid st' = p_uuid st"
proof -
  define cs where "cs = (case carried_config X (op_request op) of None \<Rightarrow> configurations st
      | Some config \<Rightarrow> snd (remove_prior_to (get_hash config) (configurations st)))"
  let ?op = "op\<lparr>op_state := Op_committed\<rparr>"
  define st1 where "st1 = change_op key (\<lambda>_. ?op) (st\<lparr>configurations := cs\<rparr>)"
  let ?w = "Wire_audit (Audit_pbft_commit \<lparr>pc_sender_uuid = p_uuid st1, pc_sequence_number = op_sequence ?op,
      pc_operation = request_hash (ShortDebugString X) (op_request ?op)\<rparr>)"
  have at: "op_at key st = op" using assms(2) by (simp add: op_at_def)
  have run: "do_committed X key st = bindE (if audit_enabled st1 then broadcast ?w st1 else Inr st1)
      (\<lambda>st. bindE (find_operation X (op_view ?op) (op_sequence ?op) (op_request ?op) st) (\<lambda>(k, st).
          Inr (emit [Post_apply (op_at k st)] st)))"
    using assms(3,4) at unfolding do_committed_def st1_def cs_def
    by (auto simp: end_commit_phase_def op_at_def Let_def split: option.splits)
  have "cfg_inv n (configurations st1)"
    using assms(1) by (auto simp: st1_def cs_def pbft_inv_def cfg_inv_remove_prior split: option.splits)
  then obtain ps where ps: "current_peers st1 = Inr ps" by (auto simp: cfg_inv_def current_peers_def)
  define st2 where "st2 = (if audit_enabled st1 then emit (map (\<lambda>p. Send_str (make_endpoint p) ?w) ps) st1 else st1)"
  have st2: "(if audit_enabled st1 then broadcast ?w st1 else Inr st1) = Inr st2"
    by (simp add: st2_def broadcast_def ps)
  have ops: "map_of (operations st2) = (map_of (operations st))(key \<mapsto> ?op)" by (simp add: st2_def st1_def)
  have key: "key = get_operation_key (ShortDebugString X) op"
    using pbft_inv_op [OF assms(1,2)] by (simp add: good_op_def)
  have "find_operation X (op_view ?op) (op_sequence ?op) (op_request ?op) st2 = Inr (key, st2)"
    using ops by (simp add: find_operation_def Let_def key get_operation_key_def)
  then have "do_committed X key st = Inr (emit [Post_apply ?op] st2)"
    using run st2 ops by (simp add: op_at_def)
  moreover have "effects st1 = effects st" "p_uuid st1 = p_uuid st" by (simp_all add: st1_def)
  moreover from this have "posted_list st2 = posted_list st" by (simp add: st2_def) (simp add: posted_list_def)
  ultimately show ?thesis
    using ops key by (intro exI [of _ "emit [Post_apply ?op] st2"]) (auto simp: post_keys_def sent_def st2_def)
qed

text \<open>The outcome of trying to advance: the operation is settled, and what that took has been sent.\<close>

definition moved :: "pbft_lib \<Rightarrow> operation_key_t \<Rightarrow> pbft_operation \<Rightarrow> pbft_operation_state \<Rightarrow> pbft \<Rightarrow> pbft \<Rightarrow> bool" where
  "moved X key op s st st' \<longleftrightarrow> map_of (operations st') = (map_of (operations st))(key \<mapsto> op\<lparr>op_state := s\<rparr>)
     \<and> settled (op\<lparr>op_state := s\<rparr>) \<and> (op_state op = Op_committed \<longrightarrow> s = Op_committed)
     \<and> post_keys X st' = post_keys X st @ (if s = Op_committed \<and> op_state op \<noteq> Op_committed then [key] else [])
     \<and> sent st \<subseteq> sent st' \<and> p_uuid st' = p_uuid st"

lemma second_phase_shape:
  assumes "pbft_inv X n B V st" "map_of (operations st) key = Some op" "op_state op = Op_prepare \<longrightarrow> \<not> is_prepared op"
  shows "\<exists>st' s. (if op_state (op_at key st) = Op_commit \<and> is_committed (op_at key st)
     then do_committed X key st else Inr st) = Inr st'
     \<and> moved X key op s st st' \<and> (op_state op = Op_prepare \<longrightarrow> s = Op_prepare)"
proof (cases "op_state op = Op_commit \<and> is_committed op")
  case True
  with do_committed_shape [OF assms(1,2)] obtain st' where "do_committed X key st = Inr st'"
      "map_of (operations st') = (map_of (operations st))(key \<mapsto> op\<lparr>op_state := Op_committed\<rparr>)"
      "post_keys X st' = post_keys X st @ [key]" "sent st \<subseteq> sent st'" "p_uuid st' = p_uuid st"
    by auto
  with True assms(2) show ?thesis
    by (intro exI [of _ st'] exI [of _ Op_committed]) (auto simp: op_at_def settled_def moved_def)
next
  case False
  with assms(2,3) show ?thesis
    by (intro exI [of _ st] exI [of _ "op_state op"]) (auto simp: op_at_def settled_def moved_def)
qed

lemma advance_shape:
  assumes "pbft_inv X n B V st" "0 < n" "map_of (operations st) key = Some op"
  shows "\<exists>st' s. maybe_advance_operation_state X key st = Inr st' \<and> moved X key op s st st'
     \<and> (op_state op = Op_prepare \<and> s \<noteq> Op_prepare \<longrightarrow> voted X PBFT_MSG_COMMIT key st')"
proof (cases "op_state op = Op_prepare \<and> is_prepared op")
  case False
  with second_phase_shape [OF assms(1,3)] assms(3) show ?thesis
    by (auto simp: maybe_advance_operation_state_def op_at_def)
next
  case True
  let ?op = "op\<lparr>op_state := Op_commit\<rparr>"
  from do_prepared_shape [OF assms] True obtain st1 where st1: "do_prepared X key st = Inr st1"
      "map_of (operations st1) = (map_of (operations st))(key \<mapsto> ?op)"
      "post_keys X st1 = post_keys X st" "sent st \<subseteq> sent st1" "p_uuid st1 = p_uuid st" "voted X PBFT_MSG_COMMIT key st1"
    by blast
  have "map_of (operations st1) key = Some ?op" using st1(2) by simp
  from second_phase_shape [OF do_prepared_inv(1) [OF assms(1,3) st1(1)] this] obtain st' s where
      run: "(if op_state (op_at key st1) = Op_commit \<and> is_committed (op_at key st1)
        then do_committed X key st1 else Inr st1) = Inr st'" and m: "moved X key ?op s st1 st'"
    by auto
  have "maybe_advance_operation_state X key st = Inr st'"
    using True assms(3) st1(1) run by (simp add: maybe_advance_operation_state_def op_at_def)
  moreover have "moved X key op s st st'"
    using m True st1 by (auto simp: moved_def)
  moreover have "voted X PBFT_MSG_COMMIT key st'"
    using st1(5,6) m by (auto simp: voted_def moved_def)
  ultimately show ?thesis by blast
qed

section \<open>Handling a vote\<close>

text \<open>The votes recorded for an operation only grow.\<close>

definition kept :: "pbft_operation option \<Rightarrow> pbft_operation \<Rightarrow> bool" where
  "kept old op \<longleftrightarrow> (case old of None \<Rightarrow> True
     | Some before \<Rightarrow> (preprepare_seen before \<longrightarrow> preprepare_seen op)
         \<and> prepares_seen before \<subseteq> prepares_seen op \<and> commits_seen before \<subseteq> commits_seen op)"

definition has_vote :: "pbft_msg_type \<Rightarrow> uuid_t \<Rightarrow> pbft_operation \<Rightarrow> bool" where
  "has_vote t s op \<longleftrightarrow> (t = PBFT_MSG_PREPREPARE \<longrightarrow> preprepare_seen op)
     \<and> (t = PBFT_MSG_PREPARE \<longrightarrow> s \<in> prepares_seen op) \<and> (t = PBFT_MSG_COMMIT \<longrightarrow> s \<in> commits_seen op)"

lemma kept_refl [simp]: "kept (Some op) op"
  by (simp add: kept_def)

lemma kept_trans: "kept old op \<Longrightarrow> kept (Some op) op' \<Longrightarrow> kept old op'"
  by (auto simp: kept_def split: option.splits)

lemma kept_records [simp]:
  "kept (Some op) (record_preprepare op)" "kept (Some op) (record_prepare s op)" "kept (Some op) (record_commit s op)"
  "kept old (op\<lparr>op_state := x\<rparr>) = kept old op" "has_vote t s (op\<lparr>op_state := x\<rparr>) = has_vote t s op"
  by (auto simp: kept_def has_vote_def op_record_defs split: option.splits)

lemma vote_advance:
  assumes "pbft_inv X n B V st" "0 < n" "prog X {key} st" "map_of (operations st) key = Some op"
    and "low_water_mark st < fst (snd key)" "op_told X st key op"
  shows "\<exists>st' s. maybe_advance_operation_state X key st = Inr st' \<and> prog X {} st'
     \<and> map_of (operations st') = (map_of (operations st))(key \<mapsto> op\<lparr>op_state := s\<rparr>)"
proof -
  obtain st' s where adv: "maybe_advance_operation_state X key st = Inr st'" and m: "moved X key op s st st'"
    and v: "op_state op = Op_prepare \<and> s \<noteq> Op_prepare \<longrightarrow> voted X PBFT_MSG_COMMIT key st'"
    using advance_shape [OF assms(1,2,4)] by blast
  have lwm: "low_water_mark st' = low_water_mark st" using advance_marks [OF adv] by (simp add: marks_def)
  have ops: "map_of (operations st') = (map_of (operations st))(key \<mapsto> op\<lparr>op_state := s\<rparr>)"
    and settled: "settled (op\<lparr>op_state := s\<rparr>)" and c: "op_state op = Op_committed \<longrightarrow> s = Op_committed"
    and keys: "post_keys X st' = post_keys X st @ (if s = Op_committed \<and> op_state op \<noteq> Op_committed then [key] else [])"
    and mono: "set (post_keys X st) \<subseteq> set (post_keys X st')" "sent st \<subseteq> sent st'" "p_uuid st' = p_uuid st"
    using m by (auto simp: moved_def)
  have fresh: "key \<notin> set (post_keys X st)" if "op_state op \<noteq> Op_committed"
    using assms(3,4,5) that unfolding prog_def by (metis linorder_not_le option.inject)
  have told: "op_told X st' key (op\<lparr>op_state := s\<rparr>)"
    using op_told_mono [OF assms(6) mono] v keys c
    by (cases s; cases "op_state op") (auto simp: op_told_def)
  have others: "settled op' \<and> op_told X st' k op'" if "map_of (operations st) k = Some op'" "k \<noteq> key" for k op'
    using assms(3) that op_told_mono [OF _ mono] unfolding prog_def by blast
  have "prog X {} st'"
    unfolding prog_def
  proof (intro conjI allI impI ballI)
    fix k op' assume "map_of (operations st') k = Some op'"
    then show "k \<in> {} \<or> settled op' \<and> op_told X st' k op'"
      using ops told settled others [of k op'] by (cases "k = key") auto
  next
    show "distinct (post_keys X st')" using assms(3) fresh keys by (auto simp: prog_def)
  next
    fix k assume k: "k \<in> set (post_keys X st')"
    have "fst (snd k) \<le> low_water_mark st' \<or> (\<exists>op'. map_of (operations st) k = Some op' \<and> op_state op' = Op_committed)"
      if "k \<noteq> key" using assms(3) k keys lwm that unfolding prog_def by (auto split: if_splits)
    moreover have "s = Op_committed" if "k = key"
      using k that keys fresh c by (cases "op_state op = Op_committed") (auto split: if_splits)
    ultimately show "fst (snd k) \<le> low_water_mark st'
        \<or> (\<exists>op'. map_of (operations st') k = Some op' \<and> op_state op' = Op_committed)"
      using ops by (cases "k = key") auto
  qed
  with adv ops show ?thesis by blast
qed

lemma find_operation_shape:
  assumes "pbft_inv X n B V st" "key = (p_view st, s, request_hash (ShortDebugString X) r)"
  shows "\<exists>st' op. find_operation X (p_view st) s r st = Inr (key, st') \<and> st' = st\<lparr>operations := operations st'\<rparr>
     \<and> map_of (operations st') = (map_of (operations st))(key \<mapsto> op) \<and> kept (map_of (operations st) key) op"
proof (cases "map_of (operations st) key")
  case None
  with assms current_peers_length [OF assms(1)] show ?thesis
    by (auto simp: find_operation_def kept_def Let_def)
next
  case (Some op)
  moreover from this have "(map_of (operations st))(key \<mapsto> op) = map_of (operations st)" by auto
  ultimately show ?thesis using assms(2) by (intro exI [of _ st] exI [of _ op]) (auto simp: find_operation_def)
qed

lemma prog_change_op:
  assumes "prog X {} st" "map_of (operations st) key = Some op" "op_state (f op) = op_state op"
  shows "prog X {key} (change_op key f st)"
proof -
  have "op_at key st = op" using assms(2) by (simp add: op_at_def)
  moreover have "op_told X (change_op key f st) = op_told X st" "post_keys X (change_op key f st) = post_keys X st"
    by (simp_all add: fun_eq_iff op_told_def voted_def post_keys_def posted_list_def sent_def)
  ultimately show ?thesis using assms unfolding prog_def by (auto simp del: split_paired_All)
qed

text \<open>
  What handling a vote comes to, with the work between recording it and advancing the operation
  described by the state \<open>st3\<close> that it leaves.
\<close>

lemma vote_outcome:
  assumes "pbft_inv X n B V st" "0 < n" "prog X {} st" "low_water_mark st < fst (snd key)"
    and "st1 = st\<lparr>operations := operations st1\<rparr>" "prog X {} st1" "map_of (operations st1) = (map_of (operations st))(key \<mapsto> op)"
    and "kept (map_of (operations st) key) op" "kept (Some op) (f op)" "op_state (f op) = op_state op"
    and "pbft_inv X n B V st3" "operations st3 = operations (change_op key f st1)" "post_keys X st3 = post_keys X st1"
    and "sent st1 \<subseteq> sent st3" "p_uuid st3 = p_uuid st1" "low_water_mark st3 = low_water_mark st"
    and "preprepare_seen (f op) \<longrightarrow> preprepare_seen op \<or> voted X PBFT_MSG_PREPARE key st3"
  shows "\<exists>st' op'. maybe_advance_operation_state X key st3 = Inr st' \<and> prog X {} st'
     \<and> map_of (operations st') = (map_of (operations st))(key \<mapsto> op') \<and> kept (map_of (operations st) key) op'
     \<and> (\<forall>t s. has_vote t s (f op) \<longrightarrow> has_vote t s op')"
proof -
  have op: "map_of (operations st1) key = Some op" using assms(7) by simp
  have lwm1: "low_water_mark st1 = low_water_mark st" by (subst assms(5)) simp
  have ops3: "map_of (operations st3) = (map_of (operations st))(key \<mapsto> f op)"
    using assms(7,12) op by (simp add: op_at_def)
  have eff: "effects (change_op key f st1) = effects st1" by simp
  have "prog X {key} st3"
    by (rule prog_frame [OF prog_change_op [where f = f, OF assms(6) op assms(10)]])
      (use assms(12-16) lwm1 post_keys_cong [OF eff] sent_cong [OF eff] in simp_all)
  moreover have "op_told X st1 key op" using assms(6) op unfolding prog_def by blast
  then have "op_told X st3 key op" by (rule op_told_mono) (use assms(13-15) in simp_all)
  then have "op_told X st3 key (f op)" using assms(10,17) by (auto simp: op_told_def)
  ultimately obtain st' s where "maybe_advance_operation_state X key st3 = Inr st'" "prog X {} st'"
      "map_of (operations st') = (map_of (operations st3))(key \<mapsto> (f op)\<lparr>op_state := s\<rparr>)"
    using vote_advance [OF assms(11,2), of key "f op"] ops3 assms(4,16) by auto
  with ops3 kept_trans [OF assms(8,9)] show ?thesis
    by (intro exI [of _ st'] exI [of _ "(f op)\<lparr>op_state := s\<rparr>"]) auto
qed

lemma handle_vote_outcome:
  assumes "pbft_inv X n B V st" "0 < n" "prog X {} st" "m_view msg = p_view st" "low_water_mark st < m_sequence msg"
    and "f = record_prepare s \<and> (s, msg_key X msg) \<in> V \<or> f = record_commit s"
  shows "\<exists>st' op'. bindE (find_operation X (m_view msg) (m_sequence msg) (msg_request msg) st) (\<lambda>(key, st).
       maybe_advance_operation_state X key (change_op key f st)) = Inr st' \<and> prog X {} st'
     \<and> map_of (operations st') = (map_of (operations st))(msg_key X msg \<mapsto> op')
     \<and> kept (map_of (operations st) (msg_key X msg)) op'
     \<and> has_vote (if f = record_commit s then PBFT_MSG_COMMIT else PBFT_MSG_PREPARE) s op'"
proof -
  let ?key = "msg_key X msg"
  obtain st1 op where f: "find_operation X (p_view st) (m_sequence msg) (msg_request msg) st = Inr (?key, st1)"
    and st1: "st1 = st\<lparr>operations := operations st1\<rparr>" "map_of (operations st1) = (map_of (operations st))(?key \<mapsto> op)"
      "kept (map_of (operations st) ?key) op"
    using find_operation_shape [OF assms(1), of ?key "m_sequence msg" "msg_request msg"] assms(4)
    by (auto simp: msg_key_def)
  have inv1: "pbft_inv X n B V st1" and op: "map_of (operations st1) ?key = Some op"
    using find_operation_inv(1) [OF assms(1) f] st1(2) by simp_all
  have step: "op_step op (f op)" "prepares_seen (f op) \<subseteq> prepares_seen op \<union> {s. (s, ?key) \<in> V}"
    "kept (Some op) (f op)" "op_state (f op) = op_state op" "preprepare_seen (f op) = preprepare_seen op"
    using assms(6) op_step.intros(2,3) by (auto simp: op_record_defs kept_def)
  have vote: "has_vote (if f = record_commit s then PBFT_MSG_COMMIT else PBFT_MSG_PREPARE) s (f op)"
    using assms(6) by (auto simp: has_vote_def op_record_defs)
  have "low_water_mark st1 = low_water_mark st" by (subst st1(1)) simp
  with vote_outcome [where f = f, OF assms(1-3) _ st1(1) prog_find_operation [OF assms(3) f] st1(2,3) step(3,4)
      change_op_inv [where f = f, OF inv1 op step(1,2)]] step(5) assms(5)
  obtain st' op' where "maybe_advance_operation_state X ?key (change_op ?key f st1) = Inr st'" "prog X {} st'"
     "map_of (operations st') = (map_of (operations st))(?key \<mapsto> op')" "kept (map_of (operations st) ?key) op'"
     "\<forall>t s. has_vote t s (f op) \<longrightarrow> has_vote t s op'"
    by (auto simp: post_keys_def posted_list_def sent_def msg_key_def)
  with f vote assms(4) show ?thesis by auto
qed

lemma handle_preprepare_outcome:
  assumes "pbft_inv X n B V st" "0 < n" "prog X {} st" "m_view msg = p_view st" "low_water_mark st < m_sequence msg"
    and "\<nexists>k. map_of (accepted_preprepares st) (m_view msg, m_sequence msg) = Some k \<and> snd (snd k) \<noteq> snd (snd (msg_key X msg))"
  shows "\<exists>st' op'. handle_preprepare X msg st = Inr st' \<and> prog X {} st'
     \<and> map_of (operations st') = (map_of (operations st))(msg_key X msg \<mapsto> op')
     \<and> kept (map_of (operations st) (msg_key X msg)) op' \<and> has_vote PBFT_MSG_PREPREPARE s op'"
proof -
  let ?key = "msg_key X msg"
  obtain st1 op where f: "find_operation X (p_view st) (m_sequence msg) (msg_request msg) st = Inr (?key, st1)"
    and st1: "st1 = st\<lparr>operations := operations st1\<rparr>" "map_of (operations st1) = (map_of (operations st))(?key \<mapsto> op)"
      "kept (map_of (operations st) ?key) op"
    using find_operation_shape [OF assms(1), of ?key "m_sequence msg" "msg_request msg"] assms(4)
    by (auto simp: msg_key_def)
  have inv1: "pbft_inv X n B V st1" and op: "map_of (operations st1) ?key = Some op"
    using find_operation_inv(1) [OF assms(1) f] st1(2) by simp_all
  have same: "effects st1 = effects st" "p_uuid st1 = p_uuid st" by (subst st1(1), simp)+
  let ?m = "common_message_setup (record_preprepare op) PBFT_MSG_PREPARE"
  obtain st3 ps where st3: "handle_preprepare X msg st = maybe_advance_operation_state X ?key st3" "pbft_inv X n B V st3"
      "operations st3 = operations (change_op ?key record_preprepare st1)" "length ps = n" "p_uuid st3 = p_uuid st"
      "effects st3 = effects st @ map (\<lambda>p. Send_str (make_endpoint p) (Wire_pbft (p_uuid st) ?m)) ps"
      "low_water_mark st3 = low_water_mark st"
    using handle_preprepare_shape [OF assms(1,4) refl assms(6) f] op by (auto simp: op_at_def)
  have st3': "sent st3 = insert (p_uuid st, ?m) (sent st1)"
    using emit_sends_sent [where f = make_endpoint and u = "p_uuid st" and m = ?m and ps = ps and st = st] st3(4,6) same(1) assms(2) by (auto simp: sent_def)
  have "get_operation_key (ShortDebugString X) op = ?key" using pbft_inv_op [OF inv1 op] by (simp add: good_op_def)
  then have "msg_key X ?m = ?key"
    by (simp add: msg_key_def common_message_setup_def get_operation_key_def msg_request_def record_preprepare_def)
  then have "voted X PBFT_MSG_PREPARE ?key st3"
    unfolding voted_def st3' st3(5) by (intro exI [of _ ?m]) (simp add: common_message_setup_def)
  moreover have "post_keys X st3 = post_keys X st1"
    using posted_list_sends [where f = make_endpoint and w = "Wire_pbft (p_uuid st) ?m" and ps = ps and st = st] st3(6) same(1)
    by (simp add: post_keys_def posted_list_def)
  ultimately obtain st' op' where "maybe_advance_operation_state X ?key st3 = Inr st'" "prog X {} st'"
     "map_of (operations st') = (map_of (operations st))(?key \<mapsto> op')" "kept (map_of (operations st) ?key) op'"
     "\<forall>t s. has_vote t s (record_preprepare op) \<longrightarrow> has_vote t s op'"
    using vote_outcome [where f = record_preprepare, OF assms(1-3) _ st1(1) prog_find_operation [OF assms(3) f] st1(2,3) _ _ st3(2,3)]
      st3' same st3(5,7) assms(5)
    by (auto simp: record_preprepare_def msg_key_def kept_def)
  with st3(1) show ?thesis by (auto simp: has_vote_def record_preprepare_def)
qed

text \<open>
  A vote is relevant to a replica if it is for the replica's view and window and, being a preprepare,
  does not conflict with one accepted before.
\<close>

abbreviation vote_types :: "pbft_msg_type set" where
  "vote_types \<equiv> {PBFT_MSG_PREPREPARE, PBFT_MSG_PREPARE, PBFT_MSG_COMMIT}"

definition admits :: "pbft \<Rightarrow> operation_key_t \<Rightarrow> bool" where
  "admits st key \<longleftrightarrow> fst key = p_view st \<and> low_water_mark st < fst (snd key) \<and> fst (snd key) \<le> high_water_mark st
     \<and> (case map_of (accepted_preprepares st) (fst key, fst (snd key)) of None \<Rightarrow> True | Some k \<Rightarrow> k = key)"

lemma handle_message_outcome:
  assumes "pbft_inv X n B V st" "0 < n" "prog X {} st" "admits st (msg_key X msg)" "m_type msg \<in> vote_types"
    and "m_type msg = PBFT_MSG_PREPARE \<Longrightarrow> (e_sender env, msg_key X msg) \<in> V"
  shows "\<exists>st' op'. handle_message X msg env st = Inr st' \<and> prog X {} st'
     \<and> map_of (operations st') = (map_of (operations st))(msg_key X msg \<mapsto> op')
     \<and> kept (map_of (operations st) (msg_key X msg)) op' \<and> has_vote (m_type msg) (e_sender env) op'"
proof -
  define st1 where "st1 = (case m_request msg of None \<Rightarrow> st
      | Some req \<Rightarrow> st\<lparr>detector := request_seen (ShortDebugString X) req (detector st)\<rparr>)"
  have st1: "pbft_inv X n B V st1" "prog X {} st1" "operations st1 = operations st" "p_view st1 = p_view st"
      "accepted_preprepares st1 = accepted_preprepares st" "low_water_mark st1 = low_water_mark st"
    using assms(1,3) by (auto simp: st1_def split: option.splits)
  have adm: "m_view msg = p_view st1" "low_water_mark st1 < m_sequence msg"
    using assms(4) st1 by (auto simp: admits_def msg_key_def)
  have acc: "\<nexists>k. map_of (accepted_preprepares st1) (m_view msg, m_sequence msg) = Some k
      \<and> snd (snd k) \<noteq> snd (snd (msg_key X msg))"
    using assms(4) st1(5) by (auto simp: admits_def msg_key_def)
  have "preliminary_filter_msg msg st"
    using assms(4) by (auto simp: preliminary_filter_msg_def admits_def msg_key_def)
  then have run: "handle_message X msg env st = (case m_type msg of
      PBFT_MSG_PREPREPARE \<Rightarrow> handle_preprepare X msg st1 | PBFT_MSG_PREPARE \<Rightarrow> handle_prepare X msg env st1
    | PBFT_MSG_COMMIT \<Rightarrow> handle_commit X msg env st1 | PBFT_MSG_CHECKPOINT \<Rightarrow> handle_checkpoint X msg env st1
    | PBFT_MSG_UNDEFINED \<Rightarrow> Inl (Runtime_error ''Unsupported message type''))"
    by (simp add: handle_message_def st1_def Let_def cong: pbft_msg_type.case_cong)
  show ?thesis
  proof (cases "m_type msg")
    case PBFT_MSG_PREPREPARE
    with handle_preprepare_outcome [OF st1(1) assms(2) st1(2) adm acc] run st1(3) show ?thesis by simp
  next
    case PBFT_MSG_PREPARE
    have "record_prepare (e_sender env) (new_operation 0 0 default_request []) \<noteq> record_commit (e_sender env) (new_operation 0 0 default_request [])"
      by (simp add: op_record_defs new_operation_def)
    then have "record_prepare (e_sender env) \<noteq> record_commit (e_sender env)" by metis
    with handle_vote_outcome [OF st1(1) assms(2) st1(2) adm, of "record_prepare (e_sender env)" "e_sender env"]
      run st1(3) PBFT_MSG_PREPARE assms(6) show ?thesis by (simp add: handle_prepare_def)
  next
    case PBFT_MSG_COMMIT
    with handle_vote_outcome [OF st1(1) assms(2) st1(2) adm, of "record_commit (e_sender env)" "e_sender env"]
      run st1(3) show ?thesis by (simp add: handle_commit_def)
  qed (use assms(5) in simp_all)
qed

text \<open>A vote that is handled leaves the replica open to the other votes for the same operation.\<close>

lemma advance_accepted:
  assumes "maybe_advance_operation_state X k st = Inr st'"
  shows "accepted_preprepares st' = accepted_preprepares st"
proof -
  have b: "broadcast w st = Inr st' \<Longrightarrow> accepted_preprepares st' = accepted_preprepares st" for w st st'
    by (auto simp: broadcast_def)
  have f: "find_operation X v s r st = Inr (key, st') \<Longrightarrow> accepted_preprepares st' = accepted_preprepares st" for v s r st key st'
    by (auto simp: find_operation_def Let_def split: option.splits)
  have p: "do_prepared X k st = Inr st' \<Longrightarrow> accepted_preprepares st' = accepted_preprepares st" for st st'
    by (auto simp: do_prepared_def Let_def dest!: b split: option.splits)
  have c: "do_committed X k st = Inr st' \<Longrightarrow> accepted_preprepares st' = accepted_preprepares st" for st st'
    by (auto simp: do_committed_def Let_def dest!: b f split: option.splits if_splits)
  show ?thesis
    using assms by (auto simp: maybe_advance_operation_state_def dest!: p c split: if_splits)
qed

lemma vote_accepted:
  assumes "pbft_inv X n B V st" "m_view msg = p_view st"
    and "(handle_preprepare X msg st = Inr st' \<and> admits st (msg_key X msg)) \<or> handle_prepare X msg env st = Inr st'
      \<or> handle_commit X msg env st = Inr st'"
  shows "map_of (accepted_preprepares st') = map_of (accepted_preprepares st)
     \<or> map_of (accepted_preprepares st') = (map_of (accepted_preprepares st))((m_view msg, m_sequence msg) \<mapsto> msg_key X msg)"
proof -
  have f: "accepted_preprepares st1 = accepted_preprepares st"
    if "find_operation X v s r st = Inr (key, st1)" for v s r key st1
    using that by (auto simp: find_operation_def Let_def split: option.splits)
  have "accepted_preprepares st' = accepted_preprepares st"
    if "handle_prepare X msg env st = Inr st' \<or> handle_commit X msg env st = Inr st'"
    using that by (auto simp: handle_prepare_def handle_commit_def dest!: advance_accepted f)
  moreover have "map_of (accepted_preprepares st') = (map_of (accepted_preprepares st))((m_view msg, m_sequence msg) \<mapsto> msg_key X msg)"
    if run: "handle_preprepare X msg st = Inr st'" and adm: "admits st (msg_key X msg)"
  proof -
    have nc: "\<nexists>k. map_of (accepted_preprepares st) (m_view msg, m_sequence msg) = Some k \<and> snd (snd k) \<noteq> snd (snd (msg_key X msg))"
      using adm by (auto simp: admits_def msg_key_def)
    obtain st1 where "find_operation X (p_view st) (m_sequence msg) (msg_request msg) st = Inr (msg_key X msg, st1)"
      using find_operation_shape [OF assms(1), of "msg_key X msg" "m_sequence msg" "msg_request msg"] assms(2)
      by (auto simp: msg_key_def)
    from handle_preprepare_shape [OF assms(1,2) refl nc this] run obtain st5 where
        "maybe_advance_operation_state X (msg_key X msg) st5 = Inr st'"
        "accepted_preprepares st5 = smap_set (m_view msg, m_sequence msg) (msg_key X msg) (accepted_preprepares st)" by auto
    then show ?thesis by (simp add: advance_accepted)
  qed
  ultimately show ?thesis using assms(3) by auto
qed

lemma admits_kept:
  assumes "pbft_inv X n B V st" "admits st (msg_key X msg)" "m_type msg \<in> vote_types"
    and "m_type msg = PBFT_MSG_PREPARE \<Longrightarrow> (e_sender env, msg_key X msg) \<in> V"
    and "handle_message X msg env st = Inr st'"
  shows "admits st' (msg_key X msg)"
proof -
  define st1 where "st1 = (case m_request msg of None \<Rightarrow> st
      | Some req \<Rightarrow> st\<lparr>detector := request_seen (ShortDebugString X) req (detector st)\<rparr>)"
  have st1: "pbft_inv X n B V st1" "p_view st1 = p_view st" "marks st1 = marks st"
      "accepted_preprepares st1 = accepted_preprepares st"
    using assms(1) by (auto simp: st1_def split: option.splits)
  have "admits st1 (msg_key X msg)" using assms(2) st1(3) unfolding admits_def marks_def st1(2,4) by auto
  moreover have "m_view msg = p_view st1" using assms(2) st1(2) by (simp add: admits_def msg_key_def)
  moreover have run: "(handle_preprepare X msg st1 = Inr st' \<and> m_type msg = PBFT_MSG_PREPREPARE)
      \<or> handle_prepare X msg env st1 = Inr st' \<or> handle_commit X msg env st1 = Inr st'"
    using assms(2,3,5) unfolding handle_message_def Let_def st1_def [symmetric]
    by (auto simp: preliminary_filter_msg_def admits_def msg_key_def split: pbft_msg_type.splits if_splits)
  ultimately have acc: "map_of (accepted_preprepares st') = map_of (accepted_preprepares st)
     \<or> map_of (accepted_preprepares st') = (map_of (accepted_preprepares st))((m_view msg, m_sequence msg) \<mapsto> msg_key X msg)"
    using vote_accepted [OF st1(1), of msg st' env] st1(4) by auto
  have "marks st' = marks st" using run vote_marks st1(3) by metis
  moreover have "p_view st' = p_view st"
    using handle_message_inv [OF assms(1,5,4)] assms(1) by (simp add: pbft_inv_def)
  ultimately show ?thesis
    using acc assms(2) by (auto simp: admits_def marks_def msg_key_def split: option.splits)
qed

section \<open>Every handler keeps the invariant\<close>

lemma prog_stabilize:
  assumes "pbft_inv X n B V st" "prog X {} st" "maybe_stabilize_checkpoint b cp st = Inr st'"
  shows "prog X {} st'"
proof -
  let ?P = "\<lambda>(_, op). \<not> op_sequence op \<le> fst cp"
  have clear: "map_of (filter ?P (operations st)) k
      = (case map_of (operations st) k of None \<Rightarrow> None | Some op \<Rightarrow> if fst (snd k) \<le> fst cp then None else Some op)" for k
    using pbft_inv_op [OF assms(1), of k] assms(1)
    by (auto simp: map_of_filter_smap pbft_inv_def good_op_def get_operation_key_def split: option.splits)
  have keep: "prog X {} t" if t: "operations t = filter ?P (operations st)" "effects t = effects st" "p_uuid t = p_uuid st"
    "low_water_mark t = max (low_water_mark st) (fst cp)" for t
  proof -
    have told: "op_told X t = op_told X st" "post_keys X t = post_keys X st"
      using t(2,3) by (simp_all add: fun_eq_iff op_told_def voted_def post_keys_def posted_list_def sent_def)
    show ?thesis
      unfolding prog_def t(1,4) told clear
      using assms(2) unfolding prog_def by (fastforce simp del: split_paired_All simp: le_max_iff_disj split: option.splits if_splits)
  qed
  show ?thesis
    using assms(3) assms(2)
    by (auto simp: maybe_stabilize_checkpoint_def Let_def clear_operations_until_def clear_checkpoint_messages_until_def
        clear_local_checkpoints_until_def split: if_splits) (rule keep; simp)+
qed

lemma prog_checkpoint_reached:
  assumes "pbft_inv X n B V st" "prog X {} st" "checkpoint_reached_locally X s st = Inr st'"
  shows "prog X {} st'"
proof -
  let ?st = "st\<lparr>local_unstable_checkpoints := sset_insert (s, state_hash_at X s) (local_unstable_checkpoints st)\<rparr>"
  obtain st1 m where b: "broadcast (Wire_pbft (p_uuid ?st) m) ?st = Inr st1" "m_type m = PBFT_MSG_CHECKPOINT"
    and m: "maybe_stabilize_checkpoint True (s, state_hash_at X s) st1 = Inr st'"
    using assms(3) by (auto simp: checkpoint_reached_locally_def Let_def wrap_message_def)
  have "pbft_inv X n B V ?st" "prog X {} ?st" using assms(1,2) by simp_all
  from broadcast_inv(1) [OF this(1) b(1)] prog_broadcast [OF this(2) b(1)] b(2)
  have "pbft_inv X n B V st1" "prog X {} st1" by (simp_all add: good_pbft_send)
  then show ?thesis using m by (rule prog_stabilize)
qed

lemma prog_request:
  assumes "prog X {} st" "setup_request_operation X req session st = Inr (key, st1)" "do_preprepare key st1 = Inr st'"
  shows "prog X {} st'"
proof -
  let ?st = "st\<lparr>next_issued_sequence_number := next_issued_sequence_number st + 1\<rparr>"
  obtain st0 where f: "find_operation X (p_view ?st) (next_issued_sequence_number st) req ?st = Inr (key, st0)"
    and st1: "st1 = (case session of None \<Rightarrow> st0 | Some s \<Rightarrow> change_op key (set_session (Some s)) st0)"
    using assms(2) by (auto simp: setup_request_operation_def Let_def split: prod.splits)
  have prog0: "prog X {} st0" by (rule prog_find_operation [OF _ f]) (simp add: assms(1))
  have "\<exists>op. map_of (operations st0) key = Some op"
    using f by (auto simp: find_operation_def Let_def split: option.splits)
  then have at: "map_of (operations st0) key = Some (op_at key st0)" by (auto simp: op_at_def)
  have told: "op_told X (change_op key g st0) k (set_session s op) = op_told X st0 k op"
    "op_told X (change_op key g st0) k op = op_told X st0 k op" "settled (set_session s op) = settled op"
    "post_keys X (change_op key g st0) = post_keys X st0" for g k s op
    by (simp_all add: op_told_def voted_def post_keys_def posted_list_def sent_def set_session_def settled_def
        is_prepared_def is_committed_def)
  have "prog X {} (change_op key (set_session s) st0)" for s
    using prog0 at unfolding prog_def
    by (simp del: split_paired_All add: told) (auto simp del: split_paired_All simp: set_session_def op_told_def)
  with prog0 have "prog X {} st1" by (simp add: st1 split: option.splits)
  then show ?thesis using assms(3) unfolding do_preprepare_def by (rule prog_broadcast)
qed

lemma prog_handle_request:
  "prog X {} st \<Longrightarrow> handle_request X req json session st = Inr st' \<Longrightarrow> prog X {} st'"
  unfolding handle_request_def
  by (elim bindE_InrE) (auto split: if_splits intro: prog_request prog_emit)

lemma prog_message:
  assumes "pbft_inv X n B V st" "0 < n" "prog X {} st" "handle_message X msg env st = Inr st'"
    and "m_type msg = PBFT_MSG_PREPARE \<Longrightarrow> (e_sender env, msg_key X msg) \<in> V"
  shows "prog X {} st'"
proof (cases "preliminary_filter_msg msg st")
  case True
  define st1 where "st1 = (case m_request msg of None \<Rightarrow> st
      | Some req \<Rightarrow> st\<lparr>detector := request_seen (ShortDebugString X) req (detector st)\<rparr>)"
  have st1: "pbft_inv X n B V st1" "prog X {} st1" using assms(1,3) by (auto simp: st1_def split: option.splits)
  note run = assms(4) [unfolded handle_message_def Let_def, folded st1_def]
  have w: "m_view msg = p_view st1" "low_water_mark st1 < m_sequence msg" if "m_type msg \<in> vote_types"
    using True that by (auto simp: preliminary_filter_msg_def st1_def split: if_splits option.splits)
  show ?thesis
  proof (cases "m_type msg")
    case PBFT_MSG_PREPREPARE
    with run True have r: "handle_preprepare X msg st1 = Inr st'" by simp
    then show ?thesis
    proof (cases "\<exists>k. map_of (accepted_preprepares st1) (m_view msg, m_sequence msg) = Some k
        \<and> snd (snd k) \<noteq> snd (snd (msg_key X msg))")
      case False
      with handle_preprepare_outcome [OF st1(1) assms(2) st1(2) w] PBFT_MSG_PREPREPARE r show ?thesis by auto
    qed (use st1(2) in \<open>auto simp: handle_preprepare_def Let_def msg_key_def\<close>)
  next
    case PBFT_MSG_PREPARE
    with run True handle_vote_outcome [OF st1(1) assms(2) st1(2) w, of "record_prepare (e_sender env)" "e_sender env"] assms(5)
    show ?thesis by (auto simp: handle_prepare_def)
  next
    case PBFT_MSG_COMMIT
    with run True handle_vote_outcome [OF st1(1) assms(2) st1(2) w, of "record_commit (e_sender env)" "e_sender env"]
    show ?thesis by (auto simp: handle_commit_def)
  next
    case PBFT_MSG_CHECKPOINT
    with run True have "handle_checkpoint X msg env st1 = Inr st'" by simp
    then show ?thesis
      using st1 by (auto simp: handle_checkpoint_def Let_def split: if_splits
          dest!: prog_stabilize [rotated 2, where n = n and B = B and V = V and X = X])
  qed (use run True in simp_all)
qed (use assms in \<open>simp add: handle_message_def\<close>)

lemma prog_membership:
  assumes "prog X {} st" "handle_membership_message X msg st = Inr st'"
  shows "prog X {} st'"
proof -
  have bc: "prog X {} st'"
    if "broadcast_new_configuration X c (st\<lparr>configurations := cs\<rparr>) = Inr st'" for c cs
  proof -
    have "prog X {} (st\<lparr>configurations := cs\<rparr>)" using assms(1) by simp
    from that obtain r key st1 where
        "setup_request_operation X r None (st\<lparr>configurations := cs\<rparr>) = Inr (key, st1)" "do_preprepare key st1 = Inr st'"
      unfolding broadcast_new_configuration_def by (elim bindE_InrE) (auto split: prod.splits)
    then show ?thesis by (rule prog_request [OF \<open>prog X {} (st\<lparr>configurations := cs\<rparr>)\<close>])
  qed
  have "prog X {} st'" if "handle_join_or_leave X m st = Inr st'" for m
    using that assms(1) unfolding handle_join_or_leave_def Let_def
    by (elim bindE_InrE) (auto split: if_splits option.splits prod.splits intro: bc)
  with assms show ?thesis
    by (auto simp: handle_membership_message_def split: option.splits payload.splits if_splits)
qed

lemma prog_node_step:
  assumes "node_step X N st st'" "pbft_inv X n B (prepare_votes X N) st" "0 < n" "prog X {} st"
  shows "prog X {} st'"
  using assms(1)
proof cases
  case (message s m)
  then have "handle_message X m \<lparr>e_sender = s, e_payload = Pay_pbft (Some m)\<rparr> st = Inr st'"
    by (simp add: handle_bzn_message_def)
  then show ?thesis
    by (rule prog_message [OF assms(2-4)]) (use message(1) in \<open>auto simp: prepare_votes_def\<close>)
next
  case (membership env)
  then show ?thesis using prog_membership assms(4) by blast
next
  case (database json session)
  then show ?thesis
    using assms(4) by (auto simp: handle_database_message_def Let_def split: option.splits
        intro!: prog_emit dest: prog_handle_request)
next
  case (executed req s)
  then show ?thesis
    using assms(2,4) by (auto simp: execute_handler_def Let_def split: if_splits
        dest: prog_checkpoint_reached [rotated 2])
next
  case (heartbeat ec)
  then show ?thesis
    using assms(4) unfolding handle_audit_heartbeat_timeout_def
    by (auto split: if_splits intro!: prog_emit dest: prog_broadcast)
next
  case failure
  then show ?thesis
    using assms(4) by (auto simp: handle_failure_def notify_audit_failure_detected_def split: if_splits dest: prog_broadcast)
qed (use assms(4) in \<open>simp_all add: set_audit_enabled_def\<close>)

section \<open>The system\<close>

lemma new_pbft_empty: "new_pbft X peers i = Inr st \<Longrightarrow> operations st = [] \<and> effects st = []"
  by (auto simp: new_pbft_def initialize_configuration_def Let_def split: if_splits prod.splits)

lemma reachable_prog:
  assumes "reachable X n C F sys" "0 < n" "i \<in> C"
  shows "prog X {} (nodes sys i) \<and> sent (nodes sys i) \<subseteq> net sys"
  using assms(1,3)
proof (induction rule: reachable.induct)
  case (init sys)
  then obtain peers where new: "new_pbft X peers i = Inr (nodes sys i)" by (auto simp: system_init_def)
  from new_pbft_empty [OF new] show ?case by (simp add: prog_def post_keys_def posted_list_def sent_def)
next
  case (step sys sys')
  have inv: "pbft_inv X n (i, 1, {}, Map.empty) (prepare_votes X (net sys)) (nodes sys i)"
    using reachable_inv [OF step(1)] step(4) by (simp add: sys_inv_def)
  from step(2) show ?case
  proof cases
    case (correct j st')
    then show ?thesis using step inv prog_node_step [of X "net sys" "nodes sys i" st' n, OF _ inv assms(2)] by auto
  qed (use step in auto)
qed

lemma sys_inv_node:
  "reachable X n C F sys \<Longrightarrow> i \<in> C
   \<Longrightarrow> pbft_inv X n (i, 1, {}, Map.empty) (prepare_votes X (net sys)) (nodes sys i)"
  using reachable_inv by (auto simp: sys_inv_def)

text \<open>
  A system that is ready for the operation of a key: every correct replica admits votes for it. It
  stays ready while such votes are delivered, and nothing recorded is lost.
\<close>

definition ready :: "pbft_lib \<Rightarrow> nat \<Rightarrow> uuid_t set \<Rightarrow> uuid_t set \<Rightarrow> operation_key_t \<Rightarrow> system \<Rightarrow> bool" where
  "ready X n C F key sys \<longleftrightarrow> reachable X n C F sys \<and> (\<forall>i \<in> C. admits (nodes sys i) key)"

definition extends :: "operation_key_t \<Rightarrow> system \<Rightarrow> system \<Rightarrow> bool" where
  "extends key sys sys' \<longleftrightarrow> net sys \<subseteq> net sys' \<and> (\<forall>i op. map_of (operations (nodes sys i)) key = Some op
     \<longrightarrow> (\<exists>op'. map_of (operations (nodes sys' i)) key = Some op' \<and> kept (Some op) op'))"

lemma extends_refl [simp]: "extends key sys sys"
  by (auto simp: extends_def)

lemma extends_trans: "extends key a b \<Longrightarrow> extends key b c \<Longrightarrow> extends key a c"
  unfolding extends_def by (meson kept_trans order_trans)

definition recorded :: "operation_key_t \<Rightarrow> pbft_msg_type \<Rightarrow> uuid_t \<Rightarrow> uuid_t \<Rightarrow> system \<Rightarrow> bool" where
  "recorded key t s i sys \<longleftrightarrow> (\<exists>op. map_of (operations (nodes sys i)) key = Some op \<and> has_vote t s op)"

lemma recorded_extends: "recorded key t s i sys \<Longrightarrow> extends key sys sys' \<Longrightarrow> recorded key t s i sys'"
  unfolding recorded_def extends_def has_vote_def kept_def option.case by (meson subsetD)

lemma deliver_vote:
  assumes "ready X n C F key sys" "0 < n" "i \<in> C" "(s, m) \<in> net sys" "msg_key X m = key" "m_type m \<in> vote_types"
  shows "\<exists>sys'. system_step X C F sys sys' \<and> ready X n C F key sys' \<and> extends key sys sys'
     \<and> recorded key (m_type m) s i sys'"
proof -
  let ?env = "\<lparr>e_sender = s, e_payload = Pay_pbft (Some m)\<rparr>" and ?st = "nodes sys i"
  have r: "reachable X n C F sys" and adm: "\<forall>j \<in> C. admits (nodes sys j) key" using assms(1) by (auto simp: ready_def)
  note inv = sys_inv_node [OF r assms(3)]
  have vote: "(e_sender ?env, msg_key X m) \<in> prepare_votes X (net sys)" if "m_type m = PBFT_MSG_PREPARE"
    using that assms(4) by (auto simp: prepare_votes_def)
  have a: "admits ?st (msg_key X m)" using adm assms(3,5) by simp
  obtain st' op' where run: "handle_message X m ?env ?st = Inr st'"
    and op': "map_of (operations st') = (map_of (operations ?st))(key \<mapsto> op')"
      "kept (map_of (operations ?st) key) op'" "has_vote (m_type m) s op'"
    using handle_message_outcome [OF inv assms(2) _ a assms(6) vote] reachable_prog [OF r assms(2,3)] assms(5) by auto
  let ?sys = "sys\<lparr>nodes := (nodes sys)(i := st'), net := net sys \<union> sent st'\<rparr>"
  have step: "system_step X C F sys ?sys"
    using run assms(4) by (intro system_step.correct assms(3) node_step.message) (auto simp: handle_bzn_message_def)
  have "admits st' key" using admits_kept [OF inv a assms(6) vote run] assms(5) by simp
  then have "ready X n C F key ?sys" using reachable.step [OF r step] adm by (simp add: ready_def)
  moreover have "extends key sys ?sys" using op'(1,2) by (auto simp: extends_def)
  moreover have "recorded key (m_type m) s i ?sys" using op'(1,3) by (simp add: recorded_def)
  ultimately show ?thesis using step by blast
qed

text \<open>One round: every correct replica is handed the votes of one kind of all the senders in \<open>J\<close>.\<close>

lemma deliver_votes:
  assumes "ready X n C F key sys" "0 < n"
    and "\<forall>(i, s, m) \<in> set ds. i \<in> C \<and> (s, m) \<in> net sys \<and> msg_key X m = key \<and> m_type m = t" "t \<in> vote_types"
  shows "\<exists>sys'. (system_step X C F)\<^sup>*\<^sup>* sys sys' \<and> ready X n C F key sys' \<and> extends key sys sys'
     \<and> (\<forall>(i, s, m) \<in> set ds. recorded key t s i sys')"
  using assms
proof (induction ds arbitrary: sys)
  case (Cons d ds)
  obtain i s m where d: "d = (i, s, m)" by (cases d) auto
  from deliver_vote [OF Cons.prems(1,2), of i s m] Cons.prems(3,4) d obtain sys1 where
      s1: "system_step X C F sys sys1" "ready X n C F key sys1" "extends key sys sys1" "recorded key t s i sys1"
    by auto
  have "\<forall>(i, s, m) \<in> set ds. i \<in> C \<and> (s, m) \<in> net sys1 \<and> msg_key X m = key \<and> m_type m = t"
    using Cons.prems(3) s1(3) by (auto simp: extends_def)
  from Cons.IH [OF s1(2) Cons.prems(2) this Cons.prems(4)] obtain sys' where
      "(system_step X C F)\<^sup>*\<^sup>* sys1 sys'" "ready X n C F key sys'" "extends key sys1 sys'"
      "\<forall>(i, s, m) \<in> set ds. recorded key t s i sys'"
    by blast
  with s1 d show ?case
    by (intro exI [of _ sys']) (auto intro: converse_rtranclp_into_rtranclp extends_trans recorded_extends)
qed auto

lemma deliver_round:
  assumes "ready X n C F key sys" "0 < n" "finite C" "finite J" "t \<in> vote_types"
    and "\<forall>j \<in> J. \<exists>m. (j, m) \<in> net sys \<and> m_type m = t \<and> msg_key X m = key"
  shows "\<exists>sys'. (system_step X C F)\<^sup>*\<^sup>* sys sys' \<and> ready X n C F key sys' \<and> extends key sys sys'
     \<and> (\<forall>i \<in> C. \<forall>j \<in> J. recorded key t j i sys')"
proof -
  obtain f where f: "\<forall>j \<in> J. (j, f j) \<in> net sys \<and> m_type (f j) = t \<and> msg_key X (f j) = key"
    using bchoice [OF assms(6)] by blast
  obtain ds where ds: "set ds = (\<lambda>(i, j). (i, j, f j)) ` (C \<times> J)"
    using finite_list [of "(\<lambda>(i, j). (i, j, f j)) ` (C \<times> J)"] assms(3,4) by auto
  have "\<forall>(i, s, m) \<in> set ds. i \<in> C \<and> (s, m) \<in> net sys \<and> msg_key X m = key \<and> m_type m = t"
    using f ds by auto
  from deliver_votes [OF assms(1,2) this assms(5)] ds show ?thesis by fastforce
qed

text \<open>What the recorded votes have led to.\<close>

lemma ready_op:
  assumes "ready X n C F key sys" "0 < n" "i \<in> C" "map_of (operations (nodes sys i)) key = Some op"
  shows "settled op" "op_told X (nodes sys i) key op" "length (op_peers op) = n" "op_inv op"
    "voted X t key (nodes sys i) \<Longrightarrow> \<exists>m. (i, m) \<in> net sys \<and> m_type m = t \<and> msg_key X m = key"
proof -
  have r: "reachable X n C F sys" using assms(1) by (simp add: ready_def)
  note inv = sys_inv_node [OF r assms(3)] and p = reachable_prog [OF r assms(2,3)]
  show "settled op" "op_told X (nodes sys i) key op" using p assms(4) unfolding prog_def by blast+
  show "length (op_peers op) = n" "op_inv op"
    using pbft_inv_op [OF inv assms(4)] op_inv_reachable by (auto simp: good_op_def)
  show "\<exists>m. (i, m) \<in> net sys \<and> m_type m = t \<and> msg_key X m = key" if "voted X t key (nodes sys i)"
    using that p inv by (auto simp: voted_def pbft_inv_def)
qed

lemma recorded_quorum:
  assumes "map_of (operations (nodes sys i)) key = Some op" "op_inv op" "finite C"
  shows "\<forall>j \<in> C. recorded key PBFT_MSG_PREPARE j i sys \<Longrightarrow> card C \<le> card (prepares_seen op)"
    "\<forall>j \<in> C. recorded key PBFT_MSG_COMMIT j i sys \<Longrightarrow> card C \<le> card (commits_seen op)"
  using assms by (auto simp: recorded_def has_vote_def op_inv_def intro!: card_mono)

lemma votes_prepare:
  assumes "ready X n C F key sys" "0 < n" "n < 2 ^ 64" "finite C" "op_quorum n \<le> card C" "i \<in> C"
    and "recorded key PBFT_MSG_PREPREPARE s i sys" "\<forall>j \<in> C. recorded key PBFT_MSG_PREPARE j i sys"
  shows "\<exists>m. (i, m) \<in> net sys \<and> m_type m = PBFT_MSG_COMMIT \<and> msg_key X m = key"
    and "\<forall>j \<in> C. recorded key PBFT_MSG_COMMIT j i sys \<Longrightarrow> key \<in> set (post_keys X (nodes sys i))"
proof -
  obtain op where op: "map_of (operations (nodes sys i)) key = Some op" "preprepare_seen op"
    using assms(7) by (auto simp: recorded_def has_vote_def)
  note r = ready_op [OF assms(1,2,6) op(1)]
  have p: "is_prepared op"
    using op(2) r(3,4) assms(2,3,5) recorded_quorum(1) [OF op(1) r(4) assms(4,8)] by (simp add: is_prepared_iff)
  then have "op_state op \<noteq> Op_prepare" using r(1) by (auto simp: settled_def)
  then show "\<exists>m. (i, m) \<in> net sys \<and> m_type m = PBFT_MSG_COMMIT \<and> msg_key X m = key"
    using r(2,5) by (auto simp: op_told_def)
  assume "\<forall>j \<in> C. recorded key PBFT_MSG_COMMIT j i sys"
  with p r(3,4) assms(2-5) have "is_committed op"
    using recorded_quorum(2) [OF op(1) r(4) assms(4)] by (simp add: is_committed_iff)
  then have "op_state op = Op_committed"
    using r(1) p by (cases "op_state op") (auto simp: settled_def)
  then show "key \<in> set (post_keys X (nodes sys i))" using r(2) by (auto simp: op_told_def)
qed

lemma ready_executes:
  assumes "ready X n C F key sys" "0 < n" "n < 2 ^ 64" "finite C" "op_quorum n \<le> card C"
    and "(s, m) \<in> net sys" "m_type m = PBFT_MSG_PREPREPARE" "msg_key X m = key"
  shows "\<exists>sys'. (system_step X C F)\<^sup>*\<^sup>* sys sys' \<and> ready X n C F key sys'
     \<and> (\<forall>i \<in> C. key \<in> set (post_keys X (nodes sys' i)))"
proof -
  have "\<forall>j \<in> {s}. \<exists>m. (j, m) \<in> net sys \<and> m_type m = PBFT_MSG_PREPREPARE \<and> msg_key X m = key"
    using assms(6-8) by blast
  from deliver_round [OF assms(1,2,4) _ _ this] obtain sys1 where
      s1: "(system_step X C F)\<^sup>*\<^sup>* sys sys1" "ready X n C F key sys1"
      "\<forall>i \<in> C. recorded key PBFT_MSG_PREPREPARE s i sys1"
    by auto
  have "\<forall>j \<in> C. \<exists>m. (j, m) \<in> net sys1 \<and> m_type m = PBFT_MSG_PREPARE \<and> msg_key X m = key"
  proof
    fix j assume j: "j \<in> C"
    with s1(3) obtain op where "map_of (operations (nodes sys1 j)) key = Some op" "preprepare_seen op"
      by (auto simp: recorded_def has_vote_def)
    with ready_op(2,5) [OF s1(2) assms(2) j] show "\<exists>m. (j, m) \<in> net sys1 \<and> m_type m = PBFT_MSG_PREPARE \<and> msg_key X m = key"
      by (auto simp: op_told_def)
  qed
  from deliver_round [OF s1(2) assms(2,4,4) _ this] obtain sys2 where
      s2: "(system_step X C F)\<^sup>*\<^sup>* sys1 sys2" "ready X n C F key sys2" "extends key sys1 sys2"
      "\<forall>i \<in> C. \<forall>j \<in> C. recorded key PBFT_MSG_PREPARE j i sys2"
    by auto
  have pp2: "\<forall>i \<in> C. recorded key PBFT_MSG_PREPREPARE s i sys2"
    using s1(3) s2(3) recorded_extends by blast
  have "\<forall>j \<in> C. \<exists>m. (j, m) \<in> net sys2 \<and> m_type m = PBFT_MSG_COMMIT \<and> msg_key X m = key"
    using votes_prepare(1) [OF s2(2) assms(2-5)] pp2 s2(4) by blast
  from deliver_round [OF s2(2) assms(2,4,4) _ this] obtain sys3 where
      s3: "(system_step X C F)\<^sup>*\<^sup>* sys2 sys3" "ready X n C F key sys3" "extends key sys2 sys3"
      "\<forall>i \<in> C. \<forall>j \<in> C. recorded key PBFT_MSG_COMMIT j i sys3"
    by auto
  have "\<forall>i \<in> C. key \<in> set (post_keys X (nodes sys3 i))"
    using votes_prepare(2) [OF s3(2) assms(2-5)] pp2 s2(4) s3(3,4) recorded_extends by blast
  with s1(1) s2(1) s3(1,2) show ?thesis by (meson rtranclp_trans)
qed

section \<open>Properties\<close>



lemma posted_sequences_distinct:
  assumes "reachable X n C F sys" "C \<inter> F = {}" "finite (C \<union> F)" "card (C \<union> F) = n"
    and "n mod 3 = 1" "n < 2 ^ 64" "card F \<le> op_bound n" and "i \<in> C"
  shows "distinct (map op_sequence (posted_list (nodes sys i)))"
proof -
  let ?l = "posted_list (nodes sys i)" and ?k = "get_operation_key (ShortDebugString X)"
  have n: "0 < n" using assms(5) by (cases n) auto
  have d: "distinct (map ?k ?l)"
    using reachable_prog [OF assms(1) n assms(8)] by (simp add: prog_def post_keys_def)
  have "op = op'" if "op \<in> set ?l" "op' \<in> set ?l" "op_sequence op = op_sequence op'" for op op'
  proof -
    have "?k op = ?k op'"
      by (rule posted_agree [OF assms(1-8,8)]) (use that in \<open>simp_all add: posted_list_set\<close>)
    moreover have "inj_on ?k (set ?l)" using d by (simp only: distinct_map)
    ultimately show ?thesis using that(1,2) by (simp only: inj_on_eq_iff)
  qed
  then have "inj_on op_sequence (set ?l)" by (rule inj_onI)
  moreover have "distinct ?l" using d by (simp only: distinct_map)
  ultimately show ?thesis by (simp only: distinct_map)
qed

text \<open>
  C4: In a group of \<open>3f + 1\<close> participants with at most \<open>f\<close> faulty ones, a correct replica hands each
  sequence number to its service at most once, and an operation whose certificate is complete has
  been handed over: whenever a handler has returned, an operation in the table with the preprepare
  and the votes of a quorum for both phases is among those the service was given.
\<close>

theorem executed_exactly_once:
  assumes "reachable X n C F sys" "C \<inter> F = {}" "finite (C \<union> F)" "card (C \<union> F) = n"
    and "n mod 3 = 1" "n < 2 ^ 64" "card F \<le> op_bound n" and "i \<in> C"
  shows "distinct (map op_sequence (posted_list (nodes sys i)))
     \<and> (\<forall>key op. map_of (operations (nodes sys i)) key = Some op \<and> preprepare_seen op
          \<and> op_quorum n \<le> card (prepares_seen op) \<and> op_quorum n \<le> card (commits_seen op)
          \<longrightarrow> (\<exists>op' \<in> set (posted_list (nodes sys i)). get_operation_key (ShortDebugString X) op' = key))"
proof -
  have n: "0 < n" using assms(5) by (cases n) auto
  have p: "prog X {} (nodes sys i)" using reachable_prog [OF assms(1) n assms(8)] by blast
  have "distinct (map op_sequence (posted_list (nodes sys i)))" by (rule posted_sequences_distinct [OF assms])
  moreover have "key \<in> set (post_keys X (nodes sys i))"
    if op: "map_of (operations (nodes sys i)) key = Some op" and v: "preprepare_seen op"
      "op_quorum n \<le> card (prepares_seen op)" "op_quorum n \<le> card (commits_seen op)" for key op
  proof -
    have "length (op_peers op) = n" using pbft_inv_op [OF sys_inv_node [OF assms(1,8)] op] by (simp add: good_op_def)
    with v n assms(6) have "is_committed op" "is_prepared op" by (simp_all add: is_committed_iff is_prepared_iff)
    moreover have "settled op" "op_told X (nodes sys i) key op" using p op unfolding prog_def by blast+
    ultimately show ?thesis by (cases "op_state op") (auto simp: settled_def op_told_def)
  qed
  ultimately show ?thesis unfolding post_keys_def set_map image_iff by blast
qed

theorem executed_exactly_once_witness:
  "\<exists>sys. reachable sample_lib 1 {''a''} {} sys \<and> sample_run 4 = Inr (nodes sys ''a'')
     \<and> distinct (map op_sequence (posted_list (nodes sys ''a'')))"
proof -
  obtain sys where sys: "reachable sample_lib 1 {''a''} {} sys" "sample_run 4 = Inr (nodes sys ''a'')"
    using sample_reachable by blast
  from executed_exactly_once [OF sys(1), of "''a''"] have "distinct (map op_sequence (posted_list (nodes sys ''a'')))"
    by (simp add: op_bound_def)
  with sys show ?thesis by blast
qed

end
