(* ===== verification/Raft_Log.thy ===== *)
theory Raft_Log
  imports Messages "HOL-Library.Sublist"
begin

text \<open>
  The replicated log of the Raft component: \<open>raft/log_entry.hpp\<close> and \<open>raft/raft_log.cpp\<close>. The
  in-memory vector, the log file and the output stream that \<open>append_log_disk\<close> keeps open are the
  fields of the record \<open>raft_log\<close>; entries go to the file through \<open>operator<<\<close> and come back
  through \<open>operator>>\<close>, both modelled on characters. JSON writing with base64 on top is a pair of
  functions in the parameter \<open>log_codec\<close>.

  A removed file keeps the stream that is open on it: what is written afterwards goes to the
  unlinked file and is not found under the path any more (POSIX).
\<close>

section \<open>Entries\<close>

text \<open>
  The JSON documents that occur as the payload of an entry. A peer object is read through
  \<open>isMember\<close>, \<open>asString\<close> and \<open>asUInt\<close>; an absent member reads as the empty string or zero. An absent
  or null peer list is \<open>None\<close>. \<open>Msg_other\<close> is a document with no member \<open>msg\<close>.
\<close>

record raft_peer =
  rp_host :: string
  rp_port :: u32
  rp_http_port :: u32
  rp_name :: string
  rp_uuid :: "uuid_t option"
  rp_signature :: "string option"

datatype entry_msg =
    Msg_null
  | Msg_database string
  | Msg_single "raft_peer list option"
  | Msg_joint "raft_peer list option" "raft_peer list option" \<comment> \<open>old, new\<close>
  | Msg_other

datatype log_entry_type = LE_database | LE_single_quorum | LE_joint_quorum | LE_undefined | LE_unnamed char

record log_entry =
  entry_type :: log_entry_type
  log_index :: u32
  le_term :: u32
  le_msg :: entry_msg

record log_codec =
  json_encode :: "entry_msg \<Rightarrow> string"
  json_decode :: "string \<Rightarrow> entry_msg option"

section \<open>Stream input and output\<close>

definition type_byte :: "log_entry_type \<Rightarrow> char" where
  "type_byte t = (case t of LE_database \<Rightarrow> CHR 0x00 | LE_single_quorum \<Rightarrow> CHR 0x01
     | LE_joint_quorum \<Rightarrow> CHR 0x02 | LE_undefined \<Rightarrow> CHR 0x03 | LE_unnamed c \<Rightarrow> c)"

definition byte_type :: "char \<Rightarrow> log_entry_type" where
  "byte_type c = (if c = CHR 0x00 then LE_database else if c = CHR 0x01 then LE_single_quorum
     else if c = CHR 0x02 then LE_joint_quorum else if c = CHR 0x03 then LE_undefined else LE_unnamed c)"

definition print_entry :: "log_codec \<Rightarrow> log_entry \<Rightarrow> string" where
  "print_entry C e = type_byte (entry_type e) # '' '' @ show_nat (unat (log_index e)) @ '' ''
     @ show_nat (unat (le_term e)) @ '' '' @ json_encode C (le_msg e) @ [CHR 0x0A]"

text \<open>Formatted extraction in the classic locale: white space is skipped, the longest fitting prefix taken.\<close>

definition is_space :: "char \<Rightarrow> bool" where
  "is_space c \<longleftrightarrow> c \<in> {CHR 0x20, CHR 0x09, CHR 0x0A, CHR 0x0B, CHR 0x0C, CHR 0x0D}"

definition skip_ws :: "string \<Rightarrow> string" where
  "skip_ws s = dropWhile is_space s"

definition read_char :: "string \<Rightarrow> (char \<times> string) option" where
  "read_char s = (case skip_ws s of [] \<Rightarrow> None | c # t \<Rightarrow> Some (c, t))"

definition is_digit :: "char \<Rightarrow> bool" where
  "is_digit c \<longleftrightarrow> digit_val c \<noteq> None"

definition read_word :: "string \<Rightarrow> (string \<times> string) option" where
  "read_word s = (let t = skip_ws s; w = takeWhile (\<lambda>c. \<not> is_space c) t in
     if w = [] then None else Some (w, drop (length w) t))"

definition read_unsigned :: "string \<Rightarrow> (u32 \<times> string) option" where
  "read_unsigned s =
     (let ds = takeWhile is_digit s; n = the (read_digits 0 ds) in
      if ds = [] \<or> 2 ^ 32 \<le> n then None else Some (word_of_nat n, drop (length ds) s))"

definition read_u32 :: "string \<Rightarrow> (u32 \<times> string) option" where
  "read_u32 s =
     (case skip_ws s of
        [] \<Rightarrow> None
      | c # t \<Rightarrow>
          if c = CHR ''-'' then map_option (\<lambda>(w, r). (- w, r)) (read_unsigned t)
          else if c = CHR ''+'' then read_unsigned t
          else read_unsigned (c # t))"

definition MSG_ERROR_ENCOUNTERED_INVALID_ENTRY_IN_LOG :: string where
  "MSG_ERROR_ENCOUNTERED_INVALID_ENTRY_IN_LOG = ''ENCOUNTERED_INVALID_ENTRY_IN_LOG''"

text \<open>\<open>operator>>\<close>: \<open>Inr None\<close> is a stream in the failed state.\<close>

definition read_entry :: "log_codec \<Rightarrow> string \<Rightarrow> (log_entry \<times> string) option res" where
  "read_entry C s =
     (case read_char s of
        None \<Rightarrow> Inr None
      | Some (b, s) \<Rightarrow> (case read_u32 s of
        None \<Rightarrow> Inr None
      | Some (i, s) \<Rightarrow> (case read_u32 s of
        None \<Rightarrow> Inr None
      | Some (t, s) \<Rightarrow> (case read_word s of
        None \<Rightarrow> Inr None
      | Some (w, s) \<Rightarrow> (case json_decode C w of
        None \<Rightarrow> Inl (Runtime_error MSG_ERROR_ENCOUNTERED_INVALID_ENTRY_IN_LOG)
      | Some m \<Rightarrow> Inr (Some (\<lparr>entry_type = byte_type b, log_index = i, le_term = t, le_msg = m\<rparr>, s)))))))"

lemma read_char_length: "read_char s = Some (c, r) \<Longrightarrow> length r < length s"
  unfolding read_char_def skip_ws_def
  by (auto split: list.splits) (metis length_Cons length_dropWhile_le less_eq_Suc_le)

lemma read_word_length: "read_word s = Some (w, r) \<Longrightarrow> length r \<le> length s"
  unfolding read_word_def skip_ws_def Let_def
  by (auto split: if_splits) (meson diff_le_self le_trans length_dropWhile_le)

lemma read_unsigned_length: "read_unsigned s = Some (w, r) \<Longrightarrow> length r \<le> length s"
  by (auto simp: read_unsigned_def Let_def split: if_splits)

lemma read_u32_length: "read_u32 s = Some (w, r) \<Longrightarrow> length r \<le> length s"
proof -
  assume r: "read_u32 s = Some (w, r)"
  then obtain c t where s: "skip_ws s = c # t" by (auto simp: read_u32_def split: list.splits)
  then have "Suc (length t) \<le> length s"
    unfolding skip_ws_def by (metis length_Cons length_dropWhile_le)
  with r s show ?thesis
    by (auto simp: read_u32_def split: if_splits dest!: read_unsigned_length)
qed

lemma read_entry_length: "read_entry C s = Inr (Some (e, r)) \<Longrightarrow> length r < length s"
  by (auto simp: read_entry_def split: option.splits
      dest!: read_char_length read_u32_length read_word_length)

text \<open>\<open>while (is >> log_entry) log_entries.emplace_back(log_entry)\<close>.\<close>

function read_entries :: "log_codec \<Rightarrow> string \<Rightarrow> log_entry list res" where
  "read_entries C s = bindE (read_entry C s) (\<lambda>r. case r of
       None \<Rightarrow> Inr []
     | Some (e, rest) \<Rightarrow> bindE (read_entries C rest) (\<lambda>es. Inr (e # es)))"
  by pat_completeness auto
termination
  by (relation "measure (length \<circ> snd)") (auto dest: read_entry_length)

declare read_entries.simps [simp del]

section \<open>The log\<close>

text \<open>
  \<open>rl_file\<close> is the text found under \<open>entries_log_path\<close>; the stream is closed, open on that file, or
  open on a file that has been removed since.
\<close>

datatype out_stream = Stream_closed | Stream_open | Stream_unlinked string

record raft_log =
  log_entries :: "log_entry list"
  total_memory_used :: nat
  maximum_storage :: nat
  rl_file :: "string option"
  log_entry_out_stream :: out_stream

definition MSG_ERROR_EMPTY_LOG_ENTRY_FILE :: string where
  "MSG_ERROR_EMPTY_LOG_ENTRY_FILE = ''Empty log entry file. Please delete .state folder.''"

definition MSG_NO_PEERS_IN_LOG :: string where
  "MSG_NO_PEERS_IN_LOG = ''Unable to find peers in log entries.''"

definition MSG_TRYING_TO_INSERT_INVALID_ENTRY :: string where
  "MSG_TRYING_TO_INSERT_INVALID_ENTRY = ''Trying to insert an invalid log entry.''"

definition new_raft_log :: "log_codec \<Rightarrow> string option \<Rightarrow> nat \<Rightarrow> raft_log res" where
  "new_raft_log C file max_storage =
     bindE (case file of None \<Rightarrow> Inr [] | Some txt \<Rightarrow> read_entries C txt) (\<lambda>es.
       if es = [] then Inl (Runtime_error MSG_ERROR_EMPTY_LOG_ENTRY_FILE)
       else Inr \<lparr>log_entries = es, total_memory_used = (case file of None \<Rightarrow> 0 | Some txt \<Rightarrow> length txt),
          maximum_storage = max_storage, rl_file = file, log_entry_out_stream = Stream_closed\<rparr>)"

definition entry_at :: "raft_log \<Rightarrow> nat \<Rightarrow> log_entry res" where
  "entry_at L i = (if i < length (log_entries L) then Inr (log_entries L ! i) else Inl Out_of_range)"

definition is_quorum_entry :: "log_entry \<Rightarrow> bool" where
  "is_quorum_entry e \<longleftrightarrow> entry_type e = LE_single_quorum \<or> entry_type e = LE_joint_quorum"

definition last_quorum_entry :: "raft_log \<Rightarrow> log_entry res" where
  "last_quorum_entry L =
     (case find is_quorum_entry (rev (log_entries L)) of
        None \<Rightarrow> Inl (Runtime_error MSG_NO_PEERS_IN_LOG)
      | Some e \<Rightarrow> Inr e)"

text \<open>
  The directory of the log file exists, since the constructor has found the file there; a stream is
  opened in append mode and creates the file when it is missing.
\<close>

definition append_log_disk :: "log_codec \<Rightarrow> log_entry \<Rightarrow> raft_log \<Rightarrow> raft_log" where
  "append_log_disk C e L =
     (let text = print_entry C e in
      case log_entry_out_stream L of
        Stream_unlinked u \<Rightarrow>
          L\<lparr>log_entry_out_stream := Stream_unlinked (u @ text), total_memory_used := length (u @ text)\<rparr>
      | _ \<Rightarrow>
          (let f = (case rl_file L of None \<Rightarrow> [] | Some f \<Rightarrow> f) in
           L\<lparr>log_entry_out_stream := Stream_open, rl_file := Some (f @ text),
             total_memory_used := length (f @ text)\<rparr>))"

definition rewrite_log :: "log_codec \<Rightarrow> raft_log \<Rightarrow> raft_log" where
  "rewrite_log C L =
     (let L' = (case log_entry_out_stream L of
             Stream_open \<Rightarrow> L\<lparr>rl_file := None,
               log_entry_out_stream := Stream_unlinked (case rl_file L of None \<Rightarrow> [] | Some f \<Rightarrow> f)\<rparr>
           | _ \<Rightarrow> L\<lparr>rl_file := None\<rparr>)
      in fold (append_log_disk C) (log_entries L') L')"

definition leader_append_entry :: "log_codec \<Rightarrow> log_entry \<Rightarrow> raft_log \<Rightarrow> raft_log" where
  "leader_append_entry C e L = append_log_disk C e (L\<lparr>log_entries := log_entries L @ [e]\<rparr>)"

definition follower_insert_entry :: "log_codec \<Rightarrow> nat \<Rightarrow> log_entry \<Rightarrow> raft_log \<Rightarrow> raft_log res" where
  "follower_insert_entry C index e L =
     (if index < length (log_entries L) \<and> le_term e = le_term (log_entries L ! index) then Inr L
      else if index < length (log_entries L) \<and> le_term e \<noteq> le_term (log_entries L ! index)
      then Inr (append_log_disk C e (rewrite_log C (L\<lparr>log_entries := take index (log_entries L) @ [e]\<rparr>)))
      else if index = length (log_entries L)
      then Inr (append_log_disk C e (L\<lparr>log_entries := log_entries L @ [e]\<rparr>))
      else Inl (Runtime_error MSG_TRYING_TO_INSERT_INVALID_ENTRY))"

text \<open>
  \<open>size() - 1\<close> is a \<open>size_t\<close>: for an empty log it is the largest one, and every 32 bit index is below
  it. \<open>operator[]\<close> is unchecked.
\<close>

definition entry_accepted :: "nat \<Rightarrow> nat \<Rightarrow> raft_log \<Rightarrow> bool res" where
  "entry_accepted previous_index previous_term L =
     (if log_entries L = [] \<or> previous_index < length (log_entries L) - 1 then Inr False
      else if previous_index < length (log_entries L)
      then Inr (previous_term = unat (le_term (log_entries L ! previous_index)))
      else Inl (Undefined_behaviour ''vector index out of range''))"

definition log_size :: "raft_log \<Rightarrow> nat" where
  "log_size L = length (log_entries L)"

definition memory_used :: "raft_log \<Rightarrow> nat" where
  "memory_used L = total_memory_used L"

definition maximum_storage_exceeded :: "raft_log \<Rightarrow> bool" where
  "maximum_storage_exceeded L \<longleftrightarrow> maximum_storage L < total_memory_used L"

section \<open>Reading back what was written\<close>

text \<open>
  What the file needs of the encoding of the documents \<open>M\<close>: it is read back, and it is a word
  without white space, as base64 text of a written document is.
\<close>

definition codec_wf :: "log_codec \<Rightarrow> entry_msg set \<Rightarrow> bool" where
  "codec_wf C M \<longleftrightarrow> (\<forall>m \<in> M. json_decode C (json_encode C m) = Some m \<and> json_encode C m \<noteq> []
     \<and> (\<forall>c \<in> set (json_encode C m). \<not> is_space c))"

definition named_type :: "log_entry_type \<Rightarrow> bool" where
  "named_type t \<longleftrightarrow> t \<in> {LE_database, LE_single_quorum, LE_joint_quorum, LE_undefined}"

lemma byte_type_byte [simp]: "named_type t \<Longrightarrow> byte_type (type_byte t) = t"
  by (auto simp: named_type_def byte_type_def type_byte_def)

lemma type_byte_no_space [simp]: "named_type t \<Longrightarrow> \<not> is_space (type_byte t)"
  by (auto simp: named_type_def type_byte_def is_space_def)

lemma digit_no_space: "is_digit c \<Longrightarrow> \<not> is_space c \<and> c \<noteq> CHR ''-'' \<and> c \<noteq> CHR ''+''"
  by (auto simp: is_digit_def digit_val_def is_space_def)

lemma show_nat_digits: "c \<in> set (show_nat n) \<Longrightarrow> is_digit c"
  using digit_val_show_nat by (auto simp: is_digit_def)

lemma takeWhile_until:
  "(\<forall>c \<in> set w. P c) \<Longrightarrow> \<not> P x \<Longrightarrow> takeWhile P (w @ x # r) = w"
  by (induction w) auto

lemma skip_ws_Nil [simp]: "skip_ws [] = []"
  by (simp add: skip_ws_def)

lemma skip_ws_Cons [simp]: "skip_ws (c # s) = (if is_space c then skip_ws s else c # s)"
  by (simp add: skip_ws_def)

lemma space_chars [simp]: "is_space CHR '' ''" "is_space CHR 0x0A" "\<not> is_digit CHR '' ''"
  by (simp_all add: is_space_def is_digit_def digit_val_def)

lemma read_u32_show:
  "read_u32 (CHR '' '' # show_nat (unat (w::u32)) @ CHR '' '' # r) = Some (w, CHR '' '' # r)"
proof -
  let ?d = "show_nat (unat w)"
  obtain c t where d: "?d = c # t" using show_nat_nonempty by (meson list.exhaust)
  have c: "is_digit c" using show_nat_digits [of c "unat w"] d by simp
  have "unat w < 2 ^ LENGTH(32)" by (rule unsigned_less)
  then have lt: "unat w < 2 ^ 32" by simp
  have "takeWhile is_digit (?d @ CHR '' '' # r) = ?d"
    by (rule takeWhile_until) (auto dest: show_nat_digits)
  then have "read_unsigned (?d @ CHR '' '' # r) = Some (w, CHR '' '' # r)"
    using lt by (simp add: read_unsigned_def Let_def)
  with d digit_no_space [OF c] show ?thesis by (simp add: read_u32_def)
qed

lemma read_word_encoded:
  assumes "w \<noteq> []" "\<forall>c \<in> set w. \<not> is_space c"
  shows "read_word (CHR '' '' # w @ CHR 0x0A # r) = Some (w, CHR 0x0A # r)"
proof -
  have skip: "skip_ws (CHR '' '' # w @ CHR 0x0A # r) = w @ CHR 0x0A # r"
    using assms by (cases w) auto
  have "takeWhile (\<lambda>c. \<not> is_space c) (w @ CHR 0x0A # r) = w"
    using assms(2) by (intro takeWhile_until) auto
  with assms(1) skip show ?thesis unfolding read_word_def Let_def by simp
qed

lemma read_char_type: "named_type t \<Longrightarrow> skip_ws s = type_byte t # r \<Longrightarrow> read_char s = Some (type_byte t, r)"
  by (simp add: read_char_def)

lemma read_entry_print:
  assumes "codec_wf C M" "le_msg e \<in> M" "named_type (entry_type e)" "skip_ws s = print_entry C e @ r"
  shows "read_entry C s = Inr (Some (e, CHR 0x0A # r))"
proof -
  have "json_encode C (le_msg e) \<noteq> []" "\<forall>c \<in> set (json_encode C (le_msg e)). \<not> is_space c"
    and dec: "json_decode C (json_encode C (le_msg e)) = Some (le_msg e)"
    using assms(1,2) by (auto simp: codec_wf_def)
  note rw = read_word_encoded [OF this(1,2)]
  have "read_char s = Some (type_byte (entry_type e),
      CHR '' '' # show_nat (unat (log_index e)) @ CHR '' '' # show_nat (unat (le_term e)) @ CHR '' ''
        # json_encode C (le_msg e) @ CHR 0x0A # r)"
    using assms(3,4) by (intro read_char_type) (auto simp: print_entry_def)
  then show ?thesis
    using assms(3) rw dec by (simp add: read_entry_def read_u32_show)
qed

lemma read_entries_blank: "skip_ws s = [] \<Longrightarrow> read_entries C s = Inr []"
  by (subst read_entries.simps) (simp add: read_entry_def read_char_def)

definition print_entries :: "log_codec \<Rightarrow> log_entry list \<Rightarrow> string" where
  "print_entries C es = concat (map (print_entry C) es)"

lemma print_entry_skip:
  "named_type (entry_type e) \<Longrightarrow> skip_ws (print_entry C e @ r) = print_entry C e @ r"
  by (simp add: print_entry_def)

lemma read_entries_print:
  assumes "codec_wf C M" "le_msg ` set es \<subseteq> M" "\<forall>e \<in> set es. named_type (entry_type e)"
    "skip_ws s = print_entries C es"
  shows "read_entries C s = Inr es"
  using assms(2-)
proof (induction es arbitrary: s)
  case Nil
  then show ?case by (simp add: print_entries_def read_entries_blank)
next
  case (Cons e es)
  have "read_entry C s = Inr (Some (e, CHR 0x0A # print_entries C es))"
    using Cons.prems by (intro read_entry_print [OF assms(1)]) (auto simp: print_entries_def)
  moreover have "skip_ws (CHR 0x0A # print_entries C es) = print_entries C es"
    using Cons.prems(2) by (cases es) (auto simp: print_entries_def print_entry_skip)
  then have "read_entries C (CHR 0x0A # print_entries C es) = Inr es"
    using Cons by auto
  ultimately show ?case by (subst read_entries.simps) simp
qed

section \<open>Memory and disk\<close>

text \<open>The file under the path holds exactly the entries in memory.\<close>

definition disk_synced :: "log_codec \<Rightarrow> raft_log \<Rightarrow> bool" where
  "disk_synced C L \<longleftrightarrow> rl_file L = Some (print_entries C (log_entries L))
     \<and> (\<forall>u. log_entry_out_stream L \<noteq> Stream_unlinked u)"

lemma append_log_disk_memory [simp]:
  "log_entries (append_log_disk C e L) = log_entries L"
  "maximum_storage (append_log_disk C e L) = maximum_storage L"
  by (simp_all add: append_log_disk_def Let_def split: out_stream.splits)

lemma fold_append_memory [simp]:
  "log_entries (fold (append_log_disk C) es L) = log_entries L"
  by (induction es arbitrary: L) simp_all

lemma log_entries_rewrite [simp]: "log_entries (rewrite_log C L) = log_entries L"
  by (simp add: rewrite_log_def Let_def split: out_stream.splits)

lemma fold_append_file:
  assumes "\<forall>u. log_entry_out_stream L \<noteq> Stream_unlinked u" "es \<noteq> []"
  shows "rl_file (fold (append_log_disk C) es L)
       = Some ((case rl_file L of None \<Rightarrow> [] | Some f \<Rightarrow> f) @ print_entries C es)
     \<and> log_entry_out_stream (fold (append_log_disk C) es L) = Stream_open"
  using assms
proof (induction es arbitrary: L)
  case (Cons e es)
  let ?L = "append_log_disk C e L"
  have "rl_file ?L = Some ((case rl_file L of None \<Rightarrow> [] | Some f \<Rightarrow> f) @ print_entry C e)"
    "log_entry_out_stream ?L = Stream_open"
    using Cons.prems(1) by (auto simp: append_log_disk_def Let_def split: out_stream.splits)
  then show ?case
    using Cons.IH [of ?L] by (cases "es = []") (simp_all add: print_entries_def)
qed simp

lemma fold_append_unlinked:
  assumes "log_entry_out_stream L = Stream_unlinked u"
  shows "rl_file (fold (append_log_disk C) es L) = rl_file L
     \<and> (\<exists>u'. log_entry_out_stream (fold (append_log_disk C) es L) = Stream_unlinked u')"
  using assms
proof (induction es arbitrary: L u)
  case (Cons e es)
  have "log_entry_out_stream (append_log_disk C e L) = Stream_unlinked (u @ print_entry C e)"
    "rl_file (append_log_disk C e L) = rl_file L"
    using Cons.prems by (simp_all add: append_log_disk_def Let_def)
  then show ?case using Cons.IH [of "append_log_disk C e L"] by simp
qed simp

lemma disk_synced_append:
  assumes "disk_synced C L"
  shows "disk_synced C (append_log_disk C e (L\<lparr>log_entries := log_entries L @ [e]\<rparr>))"
  using assms
  by (auto simp: disk_synced_def append_log_disk_def Let_def print_entries_def split: out_stream.splits)

lemma disk_synced_leader_append: "disk_synced C L \<Longrightarrow> disk_synced C (leader_append_entry C e L)"
  by (simp add: leader_append_entry_def disk_synced_append)

lemma disk_synced_leader_appends: "disk_synced C L \<Longrightarrow> disk_synced C (fold (leader_append_entry C) es L)"
  by (induction es arbitrary: L) (simp_all add: disk_synced_leader_append)

lemma log_entries_leader_appends [simp]:
  "log_entries (fold (leader_append_entry C) es L) = log_entries L @ es"
  by (induction es arbitrary: L) (simp_all add: leader_append_entry_def)

lemma restart_entries:
  assumes "codec_wf C M" "le_msg ` set es \<subseteq> M" "\<forall>e \<in> set es. named_type (entry_type e)"
  shows "read_entries C (print_entries C es) = Inr es"
proof -
  have "skip_ws (print_entries C es) = print_entries C es"
    using assms(3) by (cases es) (simp_all add: print_entries_def print_entry_skip)
  with assms show ?thesis by (intro read_entries_print)
qed

definition log_on_file :: "log_codec \<Rightarrow> log_entry list \<Rightarrow> nat \<Rightarrow> raft_log" where
  "log_on_file C es m = \<lparr>log_entries = es, total_memory_used = length (print_entries C es),
     maximum_storage = m, rl_file = Some (print_entries C es), log_entry_out_stream = Stream_closed\<rparr>"

lemma new_raft_log_printed:
  assumes "codec_wf C M" "le_msg ` set es \<subseteq> M" "\<forall>e \<in> set es. named_type (entry_type e)" "es \<noteq> []"
  shows "new_raft_log C (Some (print_entries C es)) m = Inr (log_on_file C es m)"
  using restart_entries [OF assms(1-3)] assms(4) by (simp add: new_raft_log_def log_on_file_def)

text \<open>
  C33: The log survives a restart. A log opened on a file that holds some entries, to which any further
  entries are then appended as leader, leaves a file from which a new log object reads back exactly
  the entries that were in memory, and the storage it accounts for is the length of that file.
\<close>

theorem log_restart_roundtrip:
  assumes "codec_wf C (le_msg ` set (es @ es'))" "\<forall>e \<in> set (es @ es'). named_type (entry_type e)" "es \<noteq> []"
    and "new_raft_log C (Some (print_entries C es)) m = Inr L"
  shows "\<exists>L'. new_raft_log C (rl_file (fold (leader_append_entry C) es' L)) m = Inr L'
     \<and> log_entries L' = log_entries (fold (leader_append_entry C) es' L)
     \<and> log_entries L' = es @ es'
     \<and> total_memory_used L' = length (print_entries C (es @ es'))"
proof -
  have "new_raft_log C (Some (print_entries C es)) m = Inr (log_on_file C es m)"
    using assms(1-3) by (intro new_raft_log_printed [where M = "le_msg ` set (es @ es')"]) auto
  with assms(4) have L: "log_entries L = es" "disk_synced C L"
    by (auto simp: log_on_file_def disk_synced_def)
  have "rl_file (fold (leader_append_entry C) es' L) = Some (print_entries C (es @ es'))"
    using disk_synced_leader_appends [OF L(2), of es'] L(1) by (simp add: disk_synced_def)
  then show ?thesis
    using L(1) assms(3) new_raft_log_printed [OF assms(1) order_refl assms(2)] by (simp add: log_on_file_def)
qed

text \<open>
  A conflicting entry, inserted over an existing one. Memory is right, the file is not: with no
  stream open the new entry is written twice; with a stream open the file is removed under the
  stream and nothing is left under the path.
\<close>

lemma conflict_insert_file:
  assumes "disk_synced C L" "index < length (log_entries L)" "le_term e \<noteq> le_term (log_entries L ! index)"
  shows "\<exists>L'. follower_insert_entry C index e L = Inr L' \<and> log_entries L' = take index (log_entries L) @ [e]
     \<and> rl_file L' = (if log_entry_out_stream L = Stream_closed
          then Some (print_entries C (take index (log_entries L) @ [e, e])) else None)"
proof -
  let ?es = "take index (log_entries L) @ [e]"
  let ?L = "L\<lparr>log_entries := ?es\<rparr>"
  have r: "follower_insert_entry C index e L = Inr (append_log_disk C e (rewrite_log C ?L))"
    using assms(2,3) by (simp add: follower_insert_entry_def)
  show ?thesis
  proof (cases "log_entry_out_stream L")
    case Stream_closed
    then have "rewrite_log C ?L = fold (append_log_disk C) ?es (?L\<lparr>rl_file := None\<rparr>)"
      by (simp add: rewrite_log_def)
    moreover have "rl_file (fold (append_log_disk C) (?es @ [e]) (?L\<lparr>rl_file := None\<rparr>))
        = Some (print_entries C (?es @ [e]))"
      using fold_append_file [of "?L\<lparr>rl_file := None\<rparr>" "?es @ [e]" C] Stream_closed by simp
    ultimately show ?thesis using r Stream_closed by simp
  next
    case Stream_open
    let ?U = "?L\<lparr>rl_file := None, log_entry_out_stream := Stream_unlinked (print_entries C (log_entries L))\<rparr>"
    have "rewrite_log C ?L = fold (append_log_disk C) ?es ?U"
      using Stream_open assms(1) by (simp add: rewrite_log_def disk_synced_def)
    moreover have "rl_file (fold (append_log_disk C) (?es @ [e]) ?U) = None"
      using fold_append_unlinked [of ?U "print_entries C (log_entries L)" C "?es @ [e]"] by simp
    ultimately show ?thesis using r Stream_open by simp
  next
    case (Stream_unlinked u)
    with assms(1) show ?thesis by (simp add: disk_synced_def)
  qed
qed

text \<open>
  Replacing a conflicting entry breaks the log file. In memory the log is cut at the index and the
  new entry put there, but a restart does not find that log: if nothing had been written since the
  log was opened, the new entry comes back twice; otherwise the file is gone and the log cannot be
  opened at all.
\<close>

theorem conflict_insert_breaks_restart:
  assumes "codec_wf C (le_msg ` set (e # log_entries L))"
    and "\<forall>x \<in> set (e # log_entries L). named_type (entry_type x)"
    and "disk_synced C L" "index < length (log_entries L)" "le_term e \<noteq> le_term (log_entries L ! index)"
  shows "\<exists>L'. follower_insert_entry C index e L = Inr L'
     \<and> log_entries L' = take index (log_entries L) @ [e]
     \<and> (if log_entry_out_stream L = Stream_closed
        then \<exists>L''. new_raft_log C (rl_file L') m = Inr L''
               \<and> log_entries L'' = take index (log_entries L) @ [e, e]
        else new_raft_log C (rl_file L') m = Inl (Runtime_error MSG_ERROR_EMPTY_LOG_ENTRY_FILE))"
proof -
  let ?es = "take index (log_entries L) @ [e, e]"
  have sub: "set ?es \<subseteq> set (e # log_entries L)" using set_take_subset [of index "log_entries L"] by auto
  then have "new_raft_log C (Some (print_entries C ?es)) m = Inr (log_on_file C ?es m)"
    using assms(2) by (intro new_raft_log_printed [OF assms(1)]) blast+
  moreover have "new_raft_log C None m = Inl (Runtime_error MSG_ERROR_EMPTY_LOG_ENTRY_FILE)"
    by (simp add: new_raft_log_def)
  moreover obtain L' where "follower_insert_entry C index e L = Inr L'"
      "log_entries L' = take index (log_entries L) @ [e]"
      "rl_file L' = (if log_entry_out_stream L = Stream_closed then Some (print_entries C ?es) else None)"
    using conflict_insert_file [OF assms(3-5)] by blast
  ultimately show ?thesis by (cases "log_entry_out_stream L") (auto simp: log_on_file_def)
qed

definition sample_log_codec :: "entry_msg \<Rightarrow> log_codec" where
  "sample_log_codec d = \<lparr>json_encode = (\<lambda>m. if m = d then ''e'' else ''x''),
     json_decode = (\<lambda>s. if s = ''e'' then Some d else None)\<rparr>"

lemma sample_log_codec_wf: "M \<subseteq> {d} \<Longrightarrow> codec_wf (sample_log_codec d) M"
  by (auto simp: codec_wf_def sample_log_codec_def is_space_def)

definition sample_entry :: "u32 \<Rightarrow> u32 \<Rightarrow> log_entry" where
  "sample_entry i t = \<lparr>entry_type = LE_database, log_index = i, le_term = t, le_msg = Msg_database ''m''\<rparr>"

theorem log_restart_roundtrip_witness:
  "\<exists>L L'. new_raft_log (sample_log_codec (Msg_database ''m''))
        (Some (print_entries (sample_log_codec (Msg_database ''m'')) [sample_entry 0 0])) 9 = Inr L
     \<and> new_raft_log (sample_log_codec (Msg_database ''m''))
        (rl_file (fold (leader_append_entry (sample_log_codec (Msg_database ''m''))) [sample_entry 1 4] L)) 9 = Inr L'
     \<and> log_entries L' = [sample_entry 0 0] @ [sample_entry 1 4]"
proof -
  let ?C = "sample_log_codec (Msg_database ''m'')"
  have n: "\<forall>e \<in> set ([sample_entry 0 0] @ [sample_entry 1 4]). named_type (entry_type e)"
    by (simp add: sample_entry_def named_type_def)
  have wf: "codec_wf ?C (le_msg ` set ([sample_entry 0 0] @ [sample_entry 1 4]))"
    by (intro sample_log_codec_wf) (simp add: sample_entry_def)
  have o: "new_raft_log ?C (Some (print_entries ?C [sample_entry 0 0])) 9 = Inr (log_on_file ?C [sample_entry 0 0] 9)"
    using wf n by (intro new_raft_log_printed [OF wf]) auto
  show ?thesis using log_restart_roundtrip [OF wf n _ o] o by blast
qed

theorem conflict_insert_breaks_restart_witness:
  "\<exists>L' L''. follower_insert_entry (sample_log_codec (Msg_database ''m'')) 1 (sample_entry 1 5)
        (log_on_file (sample_log_codec (Msg_database ''m'')) [sample_entry 0 0, sample_entry 1 4] 9) = Inr L'
     \<and> new_raft_log (sample_log_codec (Msg_database ''m'')) (rl_file L') 9 = Inr L''
     \<and> log_entries L'' = [sample_entry 0 0, sample_entry 1 5, sample_entry 1 5]"
proof -
  let ?C = "sample_log_codec (Msg_database ''m'')"
  let ?L = "log_on_file ?C [sample_entry 0 0, sample_entry 1 4] 9"
  have "codec_wf ?C (le_msg ` set (sample_entry 1 5 # log_entries ?L))"
    by (intro sample_log_codec_wf) (simp add: sample_entry_def log_on_file_def)
  moreover have "\<forall>x \<in> set (sample_entry 1 5 # log_entries ?L). named_type (entry_type x)"
    by (simp add: sample_entry_def log_on_file_def named_type_def)
  moreover have "disk_synced ?C ?L" "1 < length (log_entries ?L)"
    "le_term (sample_entry 1 5) \<noteq> le_term (log_entries ?L ! 1)" "log_entry_out_stream ?L = Stream_closed"
    "take 1 (log_entries ?L) = [sample_entry 0 0]"
    by (simp_all add: disk_synced_def log_on_file_def sample_entry_def)
  ultimately show ?thesis using conflict_insert_breaks_restart [of ?C "sample_entry 1 5" ?L 1 9] by auto
qed

end
