(* ===== verification/Raft.thy ===== *)
theory Raft
  imports Raft_Log Storage
begin

text \<open>
  The Raft participant, \<open>raft/raft.cpp\<close> with \<open>raft/raft_base.hpp\<close>: one definition per member
  function on the record \<open>raft\<close> of the object's state. A function returns \<open>Inl\<close> where the C++ throws
  or has no defined behaviour. What it sends, the calls of the commit handler, the timers it starts
  and the sessions it closes are appended to \<open>r_effects\<close>.

  Messages are JSON documents; the record \<open>raft_msg\<close> has the members that the handlers read, an
  absent member being the value it reads as, or \<open>None\<close> where the code asks \<open>isMember\<close>. The parameter
  \<open>raft_lib\<close> holds what the code calls outside the repository's logic: JSON and base64 text, address
  parsing, the signature check, the blacklist service and the random choice.
\<close>

section \<open>Messages\<close>

datatype raft_state = Candidate | Follower | Leader

datatype message_member =
    Message_absent
  | Message_leader peer_address_t
  | Message_array "peer_address_t list"
  | Message_other

record raft_msg =
  cmd :: string
  has_data :: bool
  d_from :: uuid_t
  d_uuid :: "uuid_t option"
  d_term :: u32
  d_lastLogIndex :: u32
  d_lastLogTerm :: u32
  d_granted :: bool
  d_prevIndex :: u32
  d_prevTerm :: u32
  d_entries :: entry_msg
  d_entryTerm :: u32
  d_commitIndex :: u32
  d_success :: bool
  d_matchIndex :: u32
  d_peer :: raft_peer
  response_msg :: "string option"
  rm_error :: "string option"
  rm_from :: "uuid_t option"
  rm_message :: message_member

definition empty_peer :: raft_peer where
  "empty_peer = \<lparr>rp_host = '''', rp_port = 0, rp_http_port = 0, rp_name = '''', rp_uuid = None,
     rp_signature = None\<rparr>"

definition empty_msg :: raft_msg where
  "empty_msg = \<lparr>cmd = '''', has_data = False, d_from = '''', d_uuid = None, d_term = 0,
     d_lastLogIndex = 0, d_lastLogTerm = 0, d_granted = False, d_prevIndex = 0, d_prevTerm = 0,
     d_entries = Msg_null, d_entryTerm = 0, d_commitIndex = 0, d_success = False, d_matchIndex = 0,
     d_peer = empty_peer, response_msg = None, rm_error = None, rm_from = None,
     rm_message = Message_absent\<rparr>"

definition create_request_vote_request :: "uuid_t \<Rightarrow> u32 \<Rightarrow> u32 \<Rightarrow> u32 \<Rightarrow> raft_msg" where
  "create_request_vote_request u term last_log_index last_log_term =
     empty_msg\<lparr>cmd := ''RequestVote'', has_data := True, d_from := u, d_term := term,
       d_lastLogIndex := last_log_index, d_lastLogTerm := last_log_term\<rparr>"

definition create_request_vote_response :: "uuid_t \<Rightarrow> u32 \<Rightarrow> bool \<Rightarrow> raft_msg" where
  "create_request_vote_response u term granted =
     empty_msg\<lparr>cmd := ''ResponseVote'', has_data := True, d_from := u, d_term := term,
       d_granted := granted, d_lastLogIndex := 0, d_lastLogTerm := 0\<rparr>"

definition create_append_entries_request ::
  "uuid_t \<Rightarrow> u32 \<Rightarrow> u32 \<Rightarrow> u32 \<Rightarrow> u32 \<Rightarrow> u32 \<Rightarrow> entry_msg \<Rightarrow> raft_msg" where
  "create_append_entries_request u term commit_idx prev_index prev_term entry_term entry =
     empty_msg\<lparr>cmd := ''AppendEntries'', has_data := True, d_from := u, d_term := term,
       d_prevIndex := prev_index, d_prevTerm := prev_term, d_entries := entry,
       d_entryTerm := entry_term, d_commitIndex := commit_idx\<rparr>"

definition create_append_entries_response :: "uuid_t \<Rightarrow> u32 \<Rightarrow> bool \<Rightarrow> u32 \<Rightarrow> raft_msg" where
  "create_append_entries_response u term success match_index =
     empty_msg\<lparr>cmd := ''AppendEntriesReply'', has_data := True, d_from := u, d_term := term,
       d_success := success, d_matchIndex := match_index\<rparr>"

section \<open>State\<close>

record raft_lib =
  r_codec :: log_codec
  json_text :: "entry_msg \<Rightarrow> string"
  ipv4_ok :: "string \<Rightarrow> bool"
  verify_uuid_signature :: "string \<Rightarrow> string \<Rightarrow> bool"
  blacklisted :: "uuid_t \<Rightarrow> bool res"
  draw :: "nat \<Rightarrow> nat"
  parse_bzn :: "string \<Rightarrow> bzn_msg option"
  dat_file_writable :: bool

datatype raft_effect =
    R_send endpoint raft_msg
  | R_audit endpoint audit_message
  | R_session session_id raft_msg bool
  | R_close session_id
  | R_commit entry_msg
  | R_election_timer
  | R_heartbeat_timer
  | R_sigint

record raft =
  current_state :: raft_state
  current_term :: u32
  yes_votes :: "uuid_t list"
  no_votes :: "uuid_t list"
  voted_for :: "uuid_t option"
  last_log_term :: u32
  commit_index :: u32
  peer_match_index :: "(uuid_t, u32) smap"
  r_uuid :: uuid_t
  r_leader :: uuid_t
  r_log :: raft_log
  enable_audit :: bool
  enable_peer_validation :: bool
  signed_key :: string
  in_a_swarm :: bool
  r_effects :: "raft_effect list"

abbreviation r_emit :: "raft_effect list \<Rightarrow> raft \<Rightarrow> raft" where
  "r_emit es st \<equiv> st\<lparr>r_effects := r_effects st @ es\<rparr>"

definition JSON_ERROR :: exn where
  "JSON_ERROR = Runtime_error ''Json::LogicError''"

definition ADDRESS_ERROR :: exn where
  "ADDRESS_ERROR = Runtime_error ''Invalid argument''"

definition ERROR_ADD_PEER_MUST_BE_SENT_TO_LEADER :: string where
  "ERROR_ADD_PEER_MUST_BE_SENT_TO_LEADER = ''ERROR_ADD_PEER_MUST_BE_SENT_TO_LEADER''"
definition ERROR_REMOVE_PEER_MUST_BE_SENT_TO_LEADER :: string where
  "ERROR_REMOVE_PEER_MUST_BE_SENT_TO_LEADER = ''ERROR_REMOVE_PEER_MUST_BE_SENT_TO_LEADER''"
definition MSG_ERROR_CURRENT_QUORUM_IS_JOINT :: string where
  "MSG_ERROR_CURRENT_QUORUM_IS_JOINT =
     ''A peer cannot be added or removed until the last quorum change request has been processed.''"
definition ERROR_PEER_ALREADY_EXISTS :: string where
  "ERROR_PEER_ALREADY_EXISTS = ''ERROR_PEER_ALREADY_EXISTS''"
definition ERROR_INVALID_UUID :: string where
  "ERROR_INVALID_UUID = ''ERROR_INVALID_UUID''"
definition ERROR_PEER_NOT_FOUND :: string where
  "ERROR_PEER_NOT_FOUND = ''ERROR_PEER_NOT_FOUND''"
definition ERROR_PEER_HAS_BEEN_BLACKLISTED :: string where
  "ERROR_PEER_HAS_BEEN_BLACKLISTED = ''ERROR_PEER_HAS_BEEN_BLACKLISTED''"
definition ERROR_INVALID_SIGNATURE :: string where
  "ERROR_INVALID_SIGNATURE = ''ERROR_INVALID_SIGNATURE''"
definition ERROR_UNABLE_TO_VALIDATE_UUID :: string where
  "ERROR_UNABLE_TO_VALIDATE_UUID = ''ERROR_UNABLE_TO_VALIDATE_UUID''"
definition SUCCESS_PEER_ADDED_TO_SWARM :: string where
  "SUCCESS_PEER_ADDED_TO_SWARM = ''SUCCESS_PEER_ADDED_TO_SWARM''"
definition SUCCESS_PEER_REMOVED_FROM_SWARM :: string where
  "SUCCESS_PEER_REMOVED_FROM_SWARM = ''SUCCESS_PEER_REMOVED_FROM_SWARM''"
definition ERROR_GET_PEERS_MUST_BE_SENT_TO_LEADER :: string where
  "ERROR_GET_PEERS_MUST_BE_SENT_TO_LEADER = ''ERROR_GET_PEERS_MUST_BE_SENT_TO_LEADER''"
definition ERROR_GET_PEERS_ELECTION_IN_PROGRESS_TRY_LATER :: string where
  "ERROR_GET_PEERS_ELECTION_IN_PROGRESS_TRY_LATER = ''ERROR_GET_PEERS_ELECTION_IN_PROGRESS_TRY_LATER''"
definition ERROR_BOOTSTRAP_LIST_MUST_HAVE_MORE_THAN_ONE_PEER :: string where
  "ERROR_BOOTSTRAP_LIST_MUST_HAVE_MORE_THAN_ONE_PEER = ''ERROR_BOOTSTRAP_LIST_MUST_HAVE_MORE_THAN_ONE_PEER''"
definition ERROR_UNABLE_TO_ADD_PEER_TO_SWARM :: string where
  "ERROR_UNABLE_TO_ADD_PEER_TO_SWARM =
     ''Unable to add this peer to the swarm. Please ensure that it is listed in peers.json.''"
definition ERROR_PEER_BLACKLISTED :: string where
  "ERROR_PEER_BLACKLISTED =
     ''This node has been actively disallowed from the Bluzelle network. Please contact support@bluzelle.com.''"
definition NO_PEERS_ERRORS_MGS :: string where
  "NO_PEERS_ERRORS_MGS = ''No peers given!''"
definition MSG_ERROR_INVALID_LOG_ENTRY_FILE :: string where
  "MSG_ERROR_INVALID_LOG_ENTRY_FILE = ''Invalid log entry file. Please Delete .state folder.''"
definition MSG_ERROR_MAXIMUM_STORAGE_EXCEEDED :: string where
  "MSG_ERROR_MAXIMUM_STORAGE_EXCEEDED = ''Maximum storage has been exceeded, please update the options file.''"
definition ERROR_UNABLE_TO_CREATE_LOG_FILE_FOR_WRITING :: string where
  "ERROR_UNABLE_TO_CREATE_LOG_FILE_FOR_WRITING = ''Unable to open log file for writing: ''"

section \<open>Quorums\<close>

text \<open>\<open>p["uuid"].asString()\<close>, and the address a peer object of the log stands for.\<close>

definition peer_uuid :: "raft_peer \<Rightarrow> uuid_t" where
  "peer_uuid p = (case rp_uuid p of None \<Rightarrow> '''' | Some u \<Rightarrow> u)"

definition peer_address :: "raft_peer \<Rightarrow> peer_address_t" where
  "peer_address p = \<lparr>pa_host = rp_host p, pa_port = ucast (rp_port p), pa_http_port = ucast (rp_http_port p),
     pa_name = rp_name p, pa_uuid = peer_uuid p\<rparr>"

text \<open>
  \<open>msg["msg"]["peers"]\<close> as a list, and its members \<open>old\<close> and \<open>new\<close>; a string member of a text or of an
  array raises the exception of the JSON library.
\<close>

definition peers_value :: "entry_msg \<Rightarrow> raft_peer list option res" where
  "peers_value m = (case m of Msg_single ps \<Rightarrow> Inr ps | Msg_null \<Rightarrow> Inr None | Msg_other \<Rightarrow> Inr None
     | Msg_database _ \<Rightarrow> Inl JSON_ERROR | Msg_joint _ _ \<Rightarrow> Inl JSON_ERROR)"

definition joint_value :: "entry_msg \<Rightarrow> (raft_peer list option \<times> raft_peer list option) res" where
  "joint_value m = (case m of Msg_joint old new \<Rightarrow> Inr (old, new) | Msg_null \<Rightarrow> Inr (None, None)
     | Msg_other \<Rightarrow> Inr (None, None) | Msg_single None \<Rightarrow> Inr (None, None)
     | Msg_single (Some _) \<Rightarrow> Inl JSON_ERROR | Msg_database _ \<Rightarrow> Inl JSON_ERROR)"

definition elements :: "'a list option \<Rightarrow> 'a list" where
  "elements ps = (case ps of None \<Rightarrow> [] | Some xs \<Rightarrow> xs)"

definition uuids :: "raft_peer list option \<Rightarrow> uuid_t list" where
  "uuids ps = foldl (\<lambda>s p. sset_insert (peer_uuid p) s) [] (elements ps)"

definition get_active_quorum :: "raft \<Rightarrow> uuid_t list list res" where
  "get_active_quorum st = bindE (last_quorum_entry (r_log st)) (\<lambda>e.
     case entry_type e of
       LE_single_quorum \<Rightarrow> bindE (peers_value (le_msg e)) (\<lambda>ps. Inr [uuids ps])
     | LE_joint_quorum \<Rightarrow> bindE (joint_value (le_msg e)) (\<lambda>(old, new). Inr [uuids old, uuids new])
     | _ \<Rightarrow> Inl (Runtime_error ''last_quorum gave something that's not a quorum''))"

definition majority_of :: "uuid_t list \<Rightarrow> uuid_t list \<Rightarrow> bool" where
  "majority_of votes s \<longleftrightarrow> \<not> length (filter (\<lambda>u. u \<in> set votes) s) * 2 \<le> length s"

definition is_majority :: "uuid_t list \<Rightarrow> raft \<Rightarrow> bool res" where
  "is_majority votes st = bindE (get_active_quorum st) (\<lambda>qs. Inr (\<forall>s \<in> set qs. majority_of votes s))"

definition in_quorum :: "uuid_t \<Rightarrow> raft \<Rightarrow> bool res" where
  "in_quorum u st = bindE (get_active_quorum st) (\<lambda>qs. Inr (\<exists>q \<in> set qs. u \<in> set q))"

definition get_all_peers :: "raft \<Rightarrow> peer_address_t list res" where
  "get_all_peers st = bindE (last_quorum_entry (r_log st)) (\<lambda>e.
     bindE (if entry_type e = LE_single_quorum
            then bindE (peers_value (le_msg e)) (\<lambda>ps. Inr (elements ps))
            else bindE (joint_value (le_msg e)) (\<lambda>(old, new). Inr (elements old @ elements new))) (\<lambda>ps.
     Inr (foldl (\<lambda>r p. peers_insert (peer_address p) r) [] ps)))"

definition get_leader_unsafe :: "raft \<Rightarrow> peer_address_t res" where
  "get_leader_unsafe st = bindE (get_all_peers st) (\<lambda>peers.
     Inr (case find (\<lambda>p. pa_uuid p = r_leader st) peers of
            Some p \<Rightarrow> p
          | None \<Rightarrow> \<lparr>pa_host = '''', pa_port = 0, pa_http_port = 0, pa_name = '''', pa_uuid = ''''\<rparr>))"

text \<open>\<open>std::map::operator[]\<close> inserts a zero for an absent key.\<close>

definition match_index_of :: "uuid_t \<Rightarrow> (uuid_t, u32) smap \<Rightarrow> u32 \<times> (uuid_t, u32) smap" where
  "match_index_of u m = (case map_of m u of None \<Rightarrow> (0, smap_set u 0 m) | Some i \<Rightarrow> (i, m))"

fun match_indices :: "uuid_t list \<Rightarrow> (uuid_t, u32) smap \<Rightarrow> u32 list \<times> (uuid_t, u32) smap" where
  "match_indices [] m = ([], m)"
| "match_indices (u # us) m =
     (let (i, m) = match_index_of u m; (is, m) = match_indices us m in (i # is, m))"

text \<open>\<open>match_indices[ceil(size / 2.0)]\<close> of the sorted vector; the index is not checked.\<close>

definition median_index :: "u32 list \<Rightarrow> u32 res" where
  "median_index is =
     (let k = (length is + 1) div 2 in
      if k < length is then Inr (sort is ! k) else Inl (Undefined_behaviour ''vector index out of range''))"

fun majority_indices :: "uuid_t list list \<Rightarrow> u32 \<Rightarrow> (uuid_t, u32) smap \<Rightarrow> (u32 \<times> (uuid_t, u32) smap) res" where
  "majority_indices [] result m = Inr (result, m)"
| "majority_indices (s # ss) result m =
     (let (is, m) = match_indices s m in
      bindE (median_index is) (\<lambda>median. majority_indices ss (min result median) m))"

definition last_majority_replicated_log_index :: "raft \<Rightarrow> (u32 \<times> raft) res" where
  "last_majority_replicated_log_index st =
     bindE (get_active_quorum st) (\<lambda>qs.
     bindE (majority_indices qs (- 1) (peer_match_index st)) (\<lambda>(result, m).
       Inr (result, st\<lparr>peer_match_index := m\<rparr>)))"

section \<open>State changes, notifications and the log\<close>

definition update_raft_state :: "u32 \<Rightarrow> raft_state \<Rightarrow> raft \<Rightarrow> raft" where
  "update_raft_state term state st =
     (let st = st\<lparr>current_state := state, current_term := term\<rparr> in
      case state of
        Leader \<Rightarrow> st\<lparr>r_leader := r_uuid st\<rparr>
      | Candidate \<Rightarrow> st
      | Follower \<Rightarrow> st)"

text \<open>
  The timers, in milliseconds. The bounds of the random election timeout are computed in 64 bits and
  converted to the 32 bits of the distribution, which needs them in order. The heartbeat is a duration
  of 64 bits. The handlers below only record which timer is started.
\<close>

definition DEFAULT_HEARTBEAT_TIMER_LEN :: u64 where "DEFAULT_HEARTBEAT_TIMER_LEN = 250"
definition DEFAULT_ELECTION_TIMER_LEN :: u64 where "DEFAULT_ELECTION_TIMER_LEN = 1250"

definition election_timer_bounds :: "u32 \<Rightarrow> (u32 \<times> u32) res" where
  "election_timer_bounds timeout_scale =
     (let low = ucast (DEFAULT_HEARTBEAT_TIMER_LEN * 3 * ucast timeout_scale);
          high = ucast (DEFAULT_ELECTION_TIMER_LEN * ucast timeout_scale) in
      if low \<le> high then Inr (low, high) else Inl (Undefined_behaviour ''bounds of the distribution''))"

definition heartbeat_timer_len :: "u32 \<Rightarrow> u64" where
  "heartbeat_timer_len timeout_scale = DEFAULT_HEARTBEAT_TIMER_LEN * ucast timeout_scale"

definition start_election_timer :: "raft \<Rightarrow> raft" where
  "start_election_timer st = r_emit [R_election_timer] st"

definition start_heartbeat_timer :: "raft \<Rightarrow> raft" where
  "start_heartbeat_timer st = r_emit [R_heartbeat_timer] st"

text \<open>The endpoint of a peer, and a message to every peer that stops at the first bad address.\<close>

definition peer_endpoint :: "raft_lib \<Rightarrow> peer_address_t \<Rightarrow> endpoint res" where
  "peer_endpoint X p = (if ipv4_ok X (pa_host p) then Inr (make_endpoint p) else Inl ADDRESS_ERROR)"

fun audit_peers :: "raft_lib \<Rightarrow> audit_message \<Rightarrow> peer_address_t list \<Rightarrow> raft \<Rightarrow> raft res" where
  "audit_peers X a [] st = Inr st"
| "audit_peers X a (p # ps) st =
     bindE (peer_endpoint X p) (\<lambda>ep. audit_peers X a ps (r_emit [R_audit ep a] st))"

definition notify_leader_status :: "raft_lib \<Rightarrow> raft \<Rightarrow> raft res" where
  "notify_leader_status X st =
     (if \<not> enable_audit st then Inr st
      else bindE (get_all_peers st) (\<lambda>peers. audit_peers X (Audit_leader_status
             \<lparr>ls_term = ucast (current_term st), ls_leader = r_uuid st,
              ls_current_log_index = word_of_nat (log_size (r_log st)),
              ls_current_commit_index = ucast (commit_index st)\<rparr>) peers st))"

definition notify_commit :: "raft_lib \<Rightarrow> u32 \<Rightarrow> string \<Rightarrow> raft \<Rightarrow> raft res" where
  "notify_commit X index operation st =
     (if \<not> enable_audit st then Inr st
      else bindE (get_all_peers st) (\<lambda>peers. audit_peers X (Audit_raft_commit
             \<lparr>rc_log_index = ucast index, rc_operation = operation\<rparr>) peers st))"

definition append_log_unsafe :: "raft_lib \<Rightarrow> entry_msg \<Rightarrow> log_entry_type \<Rightarrow> raft \<Rightarrow> bool \<times> raft" where
  "append_log_unsafe X msg type st =
     (if current_state st \<noteq> Leader then (False, st)
      else (True, st\<lparr>r_log := leader_append_entry (r_codec X)
              \<lparr>entry_type = type, log_index = word_of_nat (log_size (r_log st)), le_term = current_term st,
               le_msg = msg\<rparr> (r_log st)\<rparr>))"

definition append_log :: "raft_lib \<Rightarrow> entry_msg \<Rightarrow> log_entry_type \<Rightarrow> raft \<Rightarrow> bool \<times> raft" where
  "append_log X msg type st = append_log_unsafe X msg type st"

definition create_joint_quorum_by_adding_peer :: "entry_msg \<Rightarrow> raft_peer \<Rightarrow> entry_msg res" where
  "create_joint_quorum_by_adding_peer last_quorum_message new_peer =
     bindE (peers_value last_quorum_message) (\<lambda>ps. Inr (Msg_joint ps (Some (elements ps @ [new_peer]))))"

definition create_single_quorum_from_joint_quorum :: "entry_msg \<Rightarrow> entry_msg res" where
  "create_single_quorum_from_joint_quorum joint_quorum =
     bindE (joint_value joint_quorum) (\<lambda>(old, new). Inr (Msg_single new))"

text \<open>
  Each peer kept is appended to \<open>new\<close>, which stays absent when none is. A uuid that is absent in the
  log differs from every text.
\<close>

definition create_joint_quorum_by_removing_peer :: "entry_msg \<Rightarrow> uuid_t \<Rightarrow> entry_msg res" where
  "create_joint_quorum_by_removing_peer last_quorum_message u =
     bindE (peers_value last_quorum_message) (\<lambda>ps.
       let kept = filter (\<lambda>p. rp_uuid p \<noteq> Some u) (elements ps) in
       Inr (Msg_joint ps (if kept = [] then None else Some kept)))"

definition perform_commit :: "raft_lib \<Rightarrow> log_entry \<Rightarrow> raft \<Rightarrow> raft res" where
  "perform_commit X e st =
     bindE (notify_commit X (commit_index st) (json_text X (le_msg e)) st) (\<lambda>st.
       let st = r_emit [R_commit (le_msg e)] st;
           st = st\<lparr>commit_index := commit_index st + 1\<rparr> in
       if current_state st = Leader \<and> entry_type e = LE_joint_quorum
       then bindE (create_single_quorum_from_joint_quorum (le_msg e)) (\<lambda>m.
              Inr (snd (append_log_unsafe X m LE_single_quorum st)))
       else Inr st)"

definition deduce_type_from_message :: "entry_msg \<Rightarrow> log_entry_type" where
  "deduce_type_from_message m =
     (case m of Msg_database _ \<Rightarrow> LE_database
      | Msg_single (Some _) \<Rightarrow> LE_single_quorum
      | Msg_joint _ (Some _) \<Rightarrow> LE_joint_quorum
      | _ \<Rightarrow> LE_undefined)"

section \<open>Elections\<close>

text \<open>A bad address is caught and logged, and the next peer is served.\<close>

definition request_vote_request :: "raft_lib \<Rightarrow> raft \<Rightarrow> raft res" where
  "request_vote_request X st =
     (let st = st\<lparr>voted_for := Some (r_uuid st), yes_votes := [r_uuid st], no_votes := [],
                 current_term := current_term st + 1\<rparr>;
          st = update_raft_state (current_term st) Candidate st;
          st = st\<lparr>r_leader := ''''\<rparr> in
      bindE (get_all_peers st) (\<lambda>peers.
        Inr (start_election_timer (r_emit (map (\<lambda>p. R_send (make_endpoint p)
               (create_request_vote_request (r_uuid st) (current_term st)
                  (word_of_nat (log_size (r_log st))) (last_log_term st)))
             (filter (\<lambda>p. pa_uuid p \<noteq> r_uuid st \<and> ipv4_ok X (pa_host p)) peers)) st))))"

definition append_request_for :: "raft_lib \<Rightarrow> peer_address_t \<Rightarrow> raft \<Rightarrow> (raft_msg res) \<times> raft" where
  "append_request_for X p st =
     (let (index, m) = match_index_of (pa_uuid p) (peer_match_index st);
          st = st\<lparr>peer_match_index := m\<rparr>;
          request = (\<lambda>prev prev_term entry_term entry. create_append_entries_request (r_uuid st) (current_term st)
             (commit_index st) prev prev_term entry_term entry) in
      if unat index < log_size (r_log st)
      then (bindE (entry_at (r_log st) (unat (index - 1))) (\<lambda>prev.
            bindE (entry_at (r_log st) (unat index)) (\<lambda>e.
              Inr (request (index - 1) (le_term prev) (le_term e) (le_msg e)))), st)
      else (let prev_index = word_of_nat (log_size (r_log st)) - 1 :: u32 in
            (bindE (entry_at (r_log st) (unat prev_index)) (\<lambda>prev.
              Inr (request prev_index (le_term prev) 0 Msg_null)), st)))"

fun append_requests :: "raft_lib \<Rightarrow> peer_address_t list \<Rightarrow> raft \<Rightarrow> raft" where
  "append_requests X [] st = st"
| "append_requests X (p # ps) st =
     (if pa_uuid p = r_uuid st then append_requests X ps st
      else case append_request_for X p st of
          (Inl _, st) \<Rightarrow> append_requests X ps st
        | (Inr req, st) \<Rightarrow>
            append_requests X ps (if ipv4_ok X (pa_host p) then r_emit [R_send (make_endpoint p) req] st else st))"

definition request_append_entries :: "raft_lib \<Rightarrow> raft \<Rightarrow> raft res" where
  "request_append_entries X st =
     bindE (get_all_peers st) (\<lambda>peers. Inr (start_heartbeat_timer (append_requests X peers st)))"

definition handle_request_vote_response :: "raft_lib \<Rightarrow> raft_msg \<Rightarrow> raft \<Rightarrow> raft res" where
  "handle_request_vote_response X msg st =
     (if current_state st = Leader \<and> current_term st < d_term msg
      then Inr (start_election_timer (update_raft_state (d_term msg) Follower st))
      else if current_state st \<noteq> Candidate then Inr st
      else if d_granted msg
      then (let st = st\<lparr>yes_votes := sset_insert (d_from msg) (yes_votes st)\<rparr> in
            bindE (is_majority (yes_votes st) st) (\<lambda>won.
              if won
              then (let st = update_raft_state (current_term st) Leader st;
                        st = st\<lparr>peer_match_index := map (\<lambda>(u, _). (u, 1)) (peer_match_index st)\<rparr> in
                    request_append_entries X st)
              else Inr st))
      else (let st = st\<lparr>no_votes := sset_insert (d_from msg) (no_votes st)\<rparr> in
            bindE (is_majority (no_votes st) st) (\<lambda>lost.
              if lost then Inr (start_election_timer (update_raft_state (current_term st) Follower st))
              else Inr st)))"

definition handle_ws_request_vote :: "raft_msg \<Rightarrow> session_id \<Rightarrow> raft \<Rightarrow> raft" where
  "handle_ws_request_vote msg session st =
     (if current_state st = Leader \<or> voted_for st \<noteq> None
      then r_emit [R_session session (create_request_vote_response (r_uuid st) (current_term st) False) True] st
      else
        (let st = st\<lparr>voted_for := Some (d_from msg)\<rparr>;
             vote = (log_size (r_log st) \<le> unat (d_lastLogIndex msg)) in
         r_emit [R_session session (create_request_vote_response (r_uuid st) (current_term st) vote) True] st))"

section \<open>Appending entries\<close>

text \<open>
  The commit loops. The first runs while \<open>i < min(size, commitIndex)\<close>, the second while the commit
  index is below the bound; each pass raises the counter by one, so \<open>bound - start\<close> passes are enough.
\<close>

fun commit_range :: "raft_lib \<Rightarrow> nat \<Rightarrow> nat \<Rightarrow> nat \<Rightarrow> raft \<Rightarrow> raft res" where
  "commit_range X 0 i leader_commit st = Inr st"
| "commit_range X (Suc n) i leader_commit st =
     (if i < min (log_size (r_log st)) leader_commit
      then bindE (entry_at (r_log st) i) (\<lambda>e. bindE (perform_commit X e st) (commit_range X n (Suc i) leader_commit))
      else Inr st)"

fun commit_while :: "raft_lib \<Rightarrow> nat \<Rightarrow> u32 \<Rightarrow> raft \<Rightarrow> raft res" where
  "commit_while X 0 bound st = Inr st"
| "commit_while X (Suc n) bound st =
     (if commit_index st < bound
      then bindE (entry_at (r_log st) (unat (commit_index st))) (\<lambda>e.
             bindE (perform_commit X e st) (commit_while X n bound))
      else Inr st)"

definition insert_entries :: "raft_lib \<Rightarrow> raft_msg \<Rightarrow> raft \<Rightarrow> (bool \<times> raft) res" where
  "insert_entries X msg st =
     (let msg_index = d_prevIndex msg + 1 in
      bindE (entry_accepted (unat (d_prevIndex msg)) (unat (d_prevTerm msg)) (r_log st)) (\<lambda>accepted.
        if accepted
        then if d_entries msg \<noteq> Msg_null
             then bindE (follower_insert_entry (r_codec X) (unat msg_index)
                    \<lparr>entry_type = deduce_type_from_message (d_entries msg), log_index = msg_index,
                     le_term = d_entryTerm msg, le_msg = d_entries msg\<rparr> (r_log st)) (\<lambda>L.
                    Inr (True, st\<lparr>r_log := L\<rparr>))
             else Inr (True, st)
        else Inr (False, st)))"

definition handle_ws_append_entries :: "raft_lib \<Rightarrow> raft_msg \<Rightarrow> session_id \<Rightarrow> raft \<Rightarrow> raft res" where
  "handle_ws_append_entries X msg session st =
     (let term = d_term msg;
          st = (if \<not> in_a_swarm st \<and> d_from msg \<noteq> r_uuid st then st\<lparr>in_a_swarm := True\<rparr> else st) in
      if (current_state st = Candidate \<or> current_state st = Leader) \<and> term \<le> current_term st
      then Inr (r_emit [R_close session] (start_election_timer (update_raft_state term Follower st)))
      else
        (let st = st\<lparr>r_leader := d_from msg\<rparr> in
         bindE (insert_entries X msg st) (\<lambda>(success, st).
         let msg_index = d_prevIndex msg + 1;
             match_index = min (log_size (r_log st)) (unat msg_index + 1);
             st = r_emit [R_session session (create_append_entries_response (r_uuid st) (current_term st)
                    success (word_of_nat match_index)) True] st in
         bindE (if success \<and> commit_index st < d_commitIndex msg
                then commit_range X (unat (d_commitIndex msg) - unat (commit_index st)) (unat (commit_index st))
                       (unat (d_commitIndex msg)) st
                else Inr st) (\<lambda>st.
         let st = st\<lparr>peer_match_index := smap_set (r_leader st) (d_commitIndex msg) (peer_match_index st)\<rparr> in
         Inr (start_election_timer st)))))"

definition handle_request_append_entries_response :: "raft_lib \<Rightarrow> raft_msg \<Rightarrow> raft \<Rightarrow> raft res" where
  "handle_request_append_entries_response X msg st =
     (if current_state st \<noteq> Leader then Inr st
      else if log_size (r_log st) < unat (d_matchIndex msg) \<or> d_term msg \<noteq> current_term st then Inr st
      else
        (let st = st\<lparr>peer_match_index := smap_set (d_from msg) (d_matchIndex msg) (peer_match_index st)\<rparr> in
         if \<not> d_success msg then Inr st
         else bindE (last_majority_replicated_log_index st) (\<lambda>(majority, st).
           if log_size (r_log st) < unat majority then Inr st
           else commit_while X (unat majority - unat (commit_index st)) majority st)))"

section \<open>Membership\<close>

definition send_session_error_message :: "session_id \<Rightarrow> string \<Rightarrow> raft \<Rightarrow> raft" where
  "send_session_error_message session error_message st =
     r_emit [R_session session (empty_msg\<lparr>rm_error := Some error_message\<rparr>) True] st"

definition send_success_message :: "session_id \<Rightarrow> string \<Rightarrow> string \<Rightarrow> raft \<Rightarrow> raft" where
  "send_success_message session command message st =
     r_emit [R_session session (empty_msg\<lparr>cmd := command, response_msg := Some message\<rparr>) True] st"

text \<open>The blacklist is asked about the uuid of this node, as in the code.\<close>

definition validate_new_peer :: "raft_lib \<Rightarrow> session_id \<Rightarrow> raft_peer \<Rightarrow> raft \<Rightarrow> (bool \<times> raft) res" where
  "validate_new_peer X session peer st =
     (if elements (rp_signature peer) = '''' then Inr (False, send_session_error_message session ERROR_INVALID_SIGNATURE st)
      else if \<not> verify_uuid_signature X (elements (rp_signature peer)) (peer_uuid peer @ [CHR 0x0A])
      then Inr (False, send_session_error_message session ERROR_UNABLE_TO_VALIDATE_UUID st)
      else bindE (blacklisted X (r_uuid st)) (\<lambda>b.
        if b then Inr (False, send_session_error_message session ERROR_PEER_HAS_BEEN_BLACKLISTED st)
        else Inr (True, st)))"

definition handle_add_peer :: "raft_lib \<Rightarrow> session_id \<Rightarrow> raft_peer \<Rightarrow> raft \<Rightarrow> raft res" where
  "handle_add_peer X session peer st =
     (if current_state st \<noteq> Leader
      then Inr (send_session_error_message session ERROR_ADD_PEER_MUST_BE_SENT_TO_LEADER st)
      else bindE (last_quorum_entry (r_log st)) (\<lambda>e.
        if entry_type e = LE_joint_quorum
        then Inr (send_session_error_message session MSG_ERROR_CURRENT_QUORUM_IS_JOINT st)
        else bindE (peers_value (le_msg e)) (\<lambda>ps.
          if \<exists>p \<in> set (elements ps). peer_uuid p = peer_uuid peer
          then Inr (send_session_error_message session ERROR_PEER_ALREADY_EXISTS st)
          else if rp_uuid peer = None \<or> peer_uuid peer = ''''
          then Inr (send_session_error_message session ERROR_INVALID_UUID st)
          else bindE (if enable_peer_validation st then validate_new_peer X session peer st else Inr (True, st))
            (\<lambda>(valid, st).
              if \<not> valid then Inr st
              else
                (let st = st\<lparr>peer_match_index := smap_set (peer_uuid peer) 1 (peer_match_index st)\<rparr> in
                 bindE (create_joint_quorum_by_adding_peer (le_msg e) peer) (\<lambda>m.
                   Inr (send_success_message session ''add_peer'' SUCCESS_PEER_ADDED_TO_SWARM
                          (snd (append_log_unsafe X m LE_joint_quorum st)))))))))"

definition handle_remove_peer :: "raft_lib \<Rightarrow> session_id \<Rightarrow> uuid_t \<Rightarrow> raft \<Rightarrow> raft res" where
  "handle_remove_peer X session u st =
     (if current_state st \<noteq> Leader
      then Inr (send_session_error_message session ERROR_REMOVE_PEER_MUST_BE_SENT_TO_LEADER st)
      else bindE (last_quorum_entry (r_log st)) (\<lambda>e.
        if entry_type e = LE_joint_quorum
        then Inr (send_session_error_message session MSG_ERROR_CURRENT_QUORUM_IS_JOINT st)
        else bindE (peers_value (le_msg e)) (\<lambda>ps.
          if \<not> (\<exists>p \<in> set (elements ps). peer_uuid p = u)
          then Inr (send_session_error_message session ERROR_PEER_NOT_FOUND st)
          else bindE (create_joint_quorum_by_removing_peer (le_msg e) u) (\<lambda>m.
                 Inr (send_success_message session ''remove_peer'' SUCCESS_PEER_REMOVED_FROM_SWARM
                        (snd (append_log_unsafe X m LE_joint_quorum st)))))))"

definition to_peer_message :: "peer_address_t \<Rightarrow> raft_peer" where
  "to_peer_message address = \<lparr>rp_host = pa_host address, rp_port = ucast (pa_port address),
     rp_http_port = ucast (pa_http_port address), rp_name = pa_name address,
     rp_uuid = Some (pa_uuid address), rp_signature = None\<rparr>"

definition handle_get_peers :: "session_id \<Rightarrow> raft \<Rightarrow> raft res" where
  "handle_get_peers session st =
     (let msg = empty_msg\<lparr>cmd := ''get_peers_response'', rm_from := Some (r_uuid st)\<rparr> in
      bindE (case current_state st of
          Candidate \<Rightarrow> Inr (msg\<lparr>rm_error := Some ERROR_GET_PEERS_ELECTION_IN_PROGRESS_TRY_LATER\<rparr>)
        | Follower \<Rightarrow> bindE (get_leader_unsafe st) (\<lambda>p.
            Inr (msg\<lparr>rm_error := Some ERROR_GET_PEERS_MUST_BE_SENT_TO_LEADER, rm_message := Message_leader p\<rparr>))
        | Leader \<Rightarrow> bindE (get_all_peers st) (\<lambda>ps.
            Inr (if ps = [] then msg else msg\<lparr>rm_message := Message_array ps\<rparr>))) (\<lambda>msg.
      Inr (r_emit [R_session session msg False] st)))"

definition remove_peer_from_peers_list :: "peer_address_t list \<Rightarrow> uuid_t \<Rightarrow> peer_address_t list" where
  "remove_peer_from_peers_list all_peers u =
     foldl (\<lambda>r p. if pa_uuid p \<noteq> u then peers_insert p r else r) [] all_peers"

definition choose_any_one_of :: "raft_lib \<Rightarrow> peer_address_t list \<Rightarrow> peer_address_t" where
  "choose_any_one_of X ps = ps ! (draw X (length ps) mod length ps)"

definition auto_add_peer_if_required :: "raft_lib \<Rightarrow> raft \<Rightarrow> raft res" where
  "auto_add_peer_if_required X st =
     bindE (get_leader_unsafe st) (\<lambda>known.
     bindE (if pa_uuid known = '''' \<and> pa_host known = ''''
            then bindE (get_all_peers st) (\<lambda>peers.
                   let other_peers = remove_peer_from_peers_list peers (r_uuid st) in
                   if other_peers = [] then Inl (Runtime_error ERROR_BOOTSTRAP_LIST_MUST_HAVE_MORE_THAN_ONE_PEER)
                   else Inr (choose_any_one_of X other_peers))
            else Inr known) (\<lambda>target.
     bindE (peer_endpoint X target) (\<lambda>ep.
       Inr (r_emit [R_send ep (empty_msg\<lparr>cmd := ''get_peers''\<rparr>)] st))))"

definition make_add_peer_request :: "peer_address_t \<Rightarrow> raft_msg" where
  "make_add_peer_request new_peer =
     empty_msg\<lparr>cmd := ''add_peer'', has_data := True, d_peer := to_peer_message new_peer\<rparr>"

definition make_secure_add_peer_request :: "peer_address_t \<Rightarrow> string \<Rightarrow> raft_msg" where
  "make_secure_add_peer_request new_peer key =
     (let msg = make_add_peer_request new_peer in
      msg\<lparr>d_peer := (d_peer msg)\<lparr>rp_signature := Some key\<rparr>\<rparr>)"

definition add_self_to_swarm :: "raft_lib \<Rightarrow> raft \<Rightarrow> raft res" where
  "add_self_to_swarm X st =
     bindE (get_all_peers st) (\<lambda>all_peers.
     case find (\<lambda>p. pa_uuid p = r_uuid st) all_peers of
       None \<Rightarrow>
         bindE (if enable_peer_validation st then blacklisted X (r_uuid st) else Inr False) (\<lambda>b.
           Inl (Runtime_error (if b then ERROR_PEER_BLACKLISTED else ERROR_UNABLE_TO_ADD_PEER_TO_SWARM)))
     | Some this_address \<Rightarrow>
         bindE (get_leader_unsafe st) (\<lambda>leader.
         bindE (peer_endpoint X leader) (\<lambda>ep.
           Inr (r_emit [R_send ep (make_secure_add_peer_request this_address (signed_key st))] st))))"

definition handle_get_peers_response_from_follower_or_candidate :: "raft_lib \<Rightarrow> raft_msg \<Rightarrow> raft \<Rightarrow> raft res" where
  "handle_get_peers_response_from_follower_or_candidate X msg st =
     bindE (case rm_message msg of
         Message_leader p \<Rightarrow> auto_add_peer_if_required X (st\<lparr>r_leader := pa_uuid p\<rparr>)
       | Message_array _ \<Rightarrow> Inl JSON_ERROR
       | _ \<Rightarrow> Inr st) (\<lambda>st.
     Inr (st\<lparr>in_a_swarm := False\<rparr>))"

definition handle_get_peers_response_from_leader :: "raft_lib \<Rightarrow> raft_msg \<Rightarrow> raft \<Rightarrow> raft res" where
  "handle_get_peers_response_from_leader X msg st =
     (if rm_message msg = Message_absent then Inr st
      else
        (let st = (case rm_from msg of None \<Rightarrow> st | Some u \<Rightarrow> st\<lparr>r_leader := u\<rparr>) in
         case rm_message msg of
           Message_array ps \<Rightarrow>
             (if \<not> (\<exists>p \<in> set ps. pa_uuid p = r_uuid st) then add_self_to_swarm X st
              else Inr (st\<lparr>in_a_swarm := True\<rparr>))
         | _ \<Rightarrow> Inr st))"

definition handle_get_peers_response :: "raft_lib \<Rightarrow> raft_msg \<Rightarrow> raft \<Rightarrow> raft res" where
  "handle_get_peers_response X msg st =
     (if rm_error msg \<noteq> None then handle_get_peers_response_from_follower_or_candidate X msg st
      else handle_get_peers_response_from_leader X msg st)"

section \<open>Dispatch and timers\<close>

definition shutdown_on_exceeded_max_storage :: "bool \<Rightarrow> raft \<Rightarrow> raft res" where
  "shutdown_on_exceeded_max_storage do_throw st =
     (if maximum_storage_exceeded (r_log st)
      then if do_throw then Inl (Runtime_error MSG_ERROR_MAXIMUM_STORAGE_EXCEEDED)
           else Inr (r_emit [R_sigint] st)
      else Inr st)"

text \<open>The part of the dispatch for the messages between members, by the term they carry.\<close>

definition handle_member_message :: "raft_lib \<Rightarrow> raft_msg \<Rightarrow> session_id \<Rightarrow> raft \<Rightarrow> raft res" where
  "handle_member_message X msg session st =
     (let term = d_term msg in
      if current_term st = term
      then
        (if cmd msg = ''RequestVote'' then Inr (handle_ws_request_vote msg session st)
         else if cmd msg = ''AppendEntries'' then handle_ws_append_entries X msg session st
         else if cmd msg = ''AppendEntriesReply''
         then bindE (handle_request_append_entries_response X msg st) (\<lambda>st. Inr (r_emit [R_close session] st))
         else if cmd msg = ''ResponseVote''
         then bindE (handle_request_vote_response X msg st) (\<lambda>st. Inr (r_emit [R_close session] st))
         else Inr st)
      else if current_term st < term
      then
        (let st = st\<lparr>current_term := term\<rparr> in
         if cmd msg = ''RequestVote''
         then Inr (r_emit [R_session session (create_request_vote_response (r_uuid st) (current_term st) True) True]
                (st\<lparr>voted_for := Some (elements (d_uuid msg))\<rparr>))
         else
           (let st = (if cmd msg = ''AppendEntries''
                 then r_emit [R_session session (create_append_entries_response (r_uuid st) (current_term st) False
                        (word_of_nat (log_size (r_log st)))) True] (st\<lparr>r_leader := d_from msg\<rparr>)
                 else st);
                st = update_raft_state (current_term st) Follower st in
            Inr (start_election_timer (st\<lparr>voted_for := None\<rparr>))))
      else Inr (start_election_timer ((update_raft_state term Follower st)\<lparr>voted_for := None\<rparr>)))"

definition handle_ws_raft_messages :: "raft_lib \<Rightarrow> raft_msg \<Rightarrow> session_id \<Rightarrow> raft \<Rightarrow> raft res" where
  "handle_ws_raft_messages X msg session st =
     bindE (shutdown_on_exceeded_max_storage False st) (\<lambda>st.
     if cmd msg = ''add_peer''
     then (case response_msg msg of
             Some m \<Rightarrow> Inr (if m = SUCCESS_PEER_ADDED_TO_SWARM then st\<lparr>in_a_swarm := True\<rparr> else st)
           | None \<Rightarrow> handle_add_peer X session (d_peer msg) st)
     else if cmd msg = ''remove_peer''
     then if \<not> has_data msg \<or> elements (d_uuid msg) = ''''
          then Inr (send_session_error_message session ERROR_INVALID_UUID st)
          else handle_remove_peer X session (elements (d_uuid msg)) st
     else if cmd msg = ''get_peers'' then handle_get_peers session st
     else if cmd msg = ''get_peers_response'' then handle_get_peers_response X msg st
     else bindE (in_quorum (d_from msg) st) (\<lambda>member.
       if \<not> member then Inr st else handle_member_message X msg session st))"

definition handle_election_timeout :: "raft_lib \<Rightarrow> bool \<Rightarrow> raft \<Rightarrow> raft res" where
  "handle_election_timeout X ec st =
     bindE (if \<not> in_a_swarm st then auto_add_peer_if_required X st else Inr st) (\<lambda>st.
       if ec then Inr st else request_vote_request X st)"

definition handle_heartbeat_timeout :: "raft_lib \<Rightarrow> bool \<Rightarrow> raft \<Rightarrow> raft res" where
  "handle_heartbeat_timeout X ec st =
     (if ec then Inr st else bindE (request_append_entries X st) (notify_leader_status X))"

section \<open>Construction, storage and status\<close>

text \<open>\<open>std::stoul\<close>; \<open>None\<close> is one of its exceptions.\<close>

definition stoul :: "string \<Rightarrow> u64 option" where
  "stoul s =
     (let t = skip_ws s;
          neg = (t \<noteq> [] \<and> hd t = CHR ''-'');
          t = (if t \<noteq> [] \<and> (hd t = CHR ''-'' \<or> hd t = CHR ''+'') then tl t else t);
          ds = takeWhile is_digit t; n = the (read_digits 0 ds) in
      if ds = [] \<or> 2 ^ 64 \<le> n then None
      else Some (if neg then - word_of_nat n else word_of_nat n))"

definition get_raft_timeout_scale :: "string option \<Rightarrow> u32" where
  "get_raft_timeout_scale env =
     (case env of None \<Rightarrow> 1 | Some s \<Rightarrow> (case stoul s of None \<Rightarrow> 1 | Some v \<Rightarrow> ucast (max 1 v)))"

definition setup_peer_tracking :: "peer_address_t list \<Rightarrow> (uuid_t, u32) smap \<Rightarrow> (uuid_t, u32) smap" where
  "setup_peer_tracking peers m = foldl (\<lambda>m p. smap_set (pa_uuid p) 1 m) m peers"

definition create_dat_file :: "raft_lib \<Rightarrow> peer_address_t list \<Rightarrow> string res" where
  "create_dat_file X peers =
     (if \<not> dat_file_writable X then Inl (Runtime_error ERROR_UNABLE_TO_CREATE_LOG_FILE_FOR_WRITING)
      else Inr (print_entry (r_codec X) \<lparr>entry_type = LE_single_quorum, log_index = 0, le_term = 0,
             le_msg = (if peers = [] then Msg_null else Msg_single (Some (map to_peer_message peers)))\<rparr>))"

definition new_raft ::
  "raft_lib \<Rightarrow> peer_address_t list \<Rightarrow> uuid_t \<Rightarrow> string option \<Rightarrow> nat \<Rightarrow> bool \<Rightarrow> string \<Rightarrow> raft res" where
  "new_raft X peers u file maximum_raft_storage validation key =
     (if peers = [] then Inl (Runtime_error NO_PEERS_ERRORS_MGS)
      else
        bindE (case file of Some txt \<Rightarrow> Inr txt | None \<Rightarrow> create_dat_file X peers) (\<lambda>txt.
        bindE (new_raft_log (r_codec X) (Some txt) maximum_raft_storage) (\<lambda>L.
          shutdown_on_exceeded_max_storage True
            \<lparr>current_state = Follower, current_term = 0, yes_votes = [], no_votes = [], voted_for = None,
             last_log_term = 0, commit_index = 1, peer_match_index = setup_peer_tracking peers [],
             r_uuid = u, r_leader = '''', r_log = L, enable_audit = True, enable_peer_validation = validation,
             signed_key = key, in_a_swarm = False, r_effects = []\<rparr>)))"

definition start :: "raft \<Rightarrow> raft" where
  "start st = start_election_timer st"

definition apply_to_storage :: "'s storage_vt \<Rightarrow> database_msg \<Rightarrow> 's \<Rightarrow> 's" where
  "apply_to_storage V msg s =
     (let u = db_uuid (db_header msg) in
      case db_body msg of
        Db_create k v \<Rightarrow> snd (vt_create V s u k v)
      | Db_update k v \<Rightarrow> snd (vt_update V s u k v)
      | Db_delete k \<Rightarrow> snd (vt_remove V s u k)
      | _ \<Rightarrow> s)"

definition replay_entry :: "raft_lib \<Rightarrow> 's storage_vt \<Rightarrow> log_entry \<Rightarrow> 's \<Rightarrow> 's res" where
  "replay_entry X V e s =
     (if entry_type e = LE_database
      then case le_msg e of
          Msg_database txt \<Rightarrow> (case parse_bzn X txt of None \<Rightarrow> Inr s | Some msg \<Rightarrow> Inr (apply_to_storage V (bzn_db msg) s))
        | Msg_single _ \<Rightarrow> Inl JSON_ERROR
        | Msg_joint _ _ \<Rightarrow> Inl JSON_ERROR
        | _ \<Rightarrow> (case parse_bzn X '''' of None \<Rightarrow> Inr s | Some msg \<Rightarrow> Inr (apply_to_storage V (bzn_db msg) s))
      else Inr s)"

fun replay_entries :: "raft_lib \<Rightarrow> 's storage_vt \<Rightarrow> log_entry list \<Rightarrow> 's \<Rightarrow> 's res" where
  "replay_entries X V [] s = Inr s"
| "replay_entries X V (e # es) s = bindE (replay_entry X V e s) (replay_entries X V es)"

definition initialize_storage_from_log :: "raft_lib \<Rightarrow> 's storage_vt \<Rightarrow> raft \<Rightarrow> 's \<Rightarrow> 's res" where
  "initialize_storage_from_log X V st s = replay_entries X V (log_entries (r_log st)) s"

definition import_state_files :: "raft \<Rightarrow> unit res" where
  "import_state_files st =
     (case log_entries (r_log st) of
        [] \<Rightarrow> Inl (Undefined_behaviour ''back() of an empty vector'')
      | es \<Rightarrow>
          if unat (log_index (List.last es)) \<noteq> log_size (r_log st) - 1 \<or> le_term (List.last es) \<noteq> current_term st
          then Inl (Runtime_error MSG_ERROR_INVALID_LOG_ENTRY_FILE) else Inr ())"

definition raft_get_status :: "raft \<Rightarrow> string" where
  "raft_get_status st = (case current_state st of Candidate \<Rightarrow> ''candidate'' | Follower \<Rightarrow> ''follower'' | Leader \<Rightarrow> ''leader'')"

definition raft_set_audit_enabled :: "bool \<Rightarrow> raft \<Rightarrow> raft" where
  "raft_set_audit_enabled val st = st\<lparr>enable_audit := val\<rparr>"

section \<open>The timers\<close>

text \<open>
  Up to the scale 3435973 a drawn election timeout is between three and five heartbeats; the next scale
  already gives bounds in the wrong order, because the upper one wraps around.
\<close>

lemma ucast_mult_small:
  assumes "k * unat (s :: u32) < 2 ^ 32" "k < 2 ^ 32"
  shows "unat (ucast (of_nat k * ucast s :: u64) :: u32) = k * unat s" "unat (of_nat k * ucast s :: u64) = k * unat s"
proof -
  have "unat s < 2 ^ 32" using unsigned_less [of s] by simp
  then have "unat (of_nat k * ucast s :: u64) = k * unat s"
    using assms by (simp add: unat_word_ariths unat_of_nat unsigned_ucast_eq take_bit_eq_mod)
  then show "unat (of_nat k * ucast s :: u64) = k * unat s"
    "unat (ucast (of_nat k * ucast s :: u64) :: u32) = k * unat s"
    using assms(1) by (simp_all add: unsigned_ucast_eq take_bit_eq_mod)
qed

lemma election_timer_range:
  assumes "unat s \<le> 3435973"
  shows "\<exists>low high. election_timer_bounds s = Inr (low, high)
     \<and> unat low = 3 * unat (heartbeat_timer_len s) \<and> unat high = 5 * unat (heartbeat_timer_len s)"
proof -
  have b: "unat (ucast (750 * ucast s :: u64) :: u32) = 750 * unat s" "unat (ucast (1250 * ucast s :: u64) :: u32) = 1250 * unat s"
    "unat (250 * ucast s :: u64) = 250 * unat s"
    using ucast_mult_small [of 750 s] ucast_mult_small [of 1250 s] ucast_mult_small [of 250 s] assms by simp_all
  then have "(ucast (750 * ucast s :: u64) :: u32) \<le> ucast (1250 * ucast s :: u64)" by (simp add: word_le_nat_alt)
  with b show ?thesis
    by (simp add: election_timer_bounds_def heartbeat_timer_len_def DEFAULT_HEARTBEAT_TIMER_LEN_def
        DEFAULT_ELECTION_TIMER_LEN_def Let_def)
qed

lemma election_timer_wraps:
  "election_timer_bounds 3435974 = Inl (Undefined_behaviour ''bounds of the distribution'')"
  by code_simp

end
