(* ===== verification/Raft_Safety.thy ===== *)
theory Raft_Safety
  imports Raft Quorum
begin

text \<open>
  What holds of a Raft participant in every run: the log is only extended, the commit handler sees
  the entries after the first in log order, once each, leadership is taken only with a majority of
  the active quorum, and within a term a vote once given is not taken back. A run is any sequence of
  received messages, timer events and calls by the database layer, with any behaviour of the others.
\<close>

section \<open>Runs\<close>

inductive raft_step :: "raft_lib \<Rightarrow> raft \<Rightarrow> raft \<Rightarrow> bool" for X where
  message: "handle_ws_raft_messages X msg session st = Inr st' \<Longrightarrow> raft_step X st st'"
| election: "handle_election_timeout X ec st = Inr st' \<Longrightarrow> raft_step X st st'"
| heartbeat: "handle_heartbeat_timeout X ec st = Inr st' \<Longrightarrow> raft_step X st st'"
| append: "append_log X (Msg_database w) LE_database st = (b, st') \<Longrightarrow> raft_step X st st'"
| audit: "raft_step X st (raft_set_audit_enabled val st)"
| starting: "raft_step X st (start st)"

text \<open>The 32 bit indices of the log do not run over.\<close>

definition small_log :: "raft \<Rightarrow> bool" where
  "small_log st \<longleftrightarrow> length (log_entries (r_log st)) < 2 ^ 32"

inductive raft_run :: "raft_lib \<Rightarrow> raft \<Rightarrow> raft \<Rightarrow> bool" for X where
  run_refl: "raft_run X st st"
| run_step: "raft_run X st st' \<Longrightarrow> small_log st' \<Longrightarrow> raft_step X st' st'' \<Longrightarrow> raft_run X st st''"

inductive_cases raft_stepE: "raft_step X st st'"

section \<open>The committed entries\<close>

fun commits_in :: "raft_effect list \<Rightarrow> entry_msg list" where
  "commits_in [] = []"
| "commits_in (R_commit m # es) = m # commits_in es"
| "commits_in (_ # es) = commits_in es"

lemma commits_in_append [simp]: "commits_in (es @ es') = commits_in es @ commits_in es'"
  by (induction es rule: commits_in.induct) simp_all

definition committed :: "raft \<Rightarrow> entry_msg list" where
  "committed st = commits_in (r_effects st)"

definition raft_ok :: "(log_entry \<Rightarrow> bool) \<Rightarrow> raft \<Rightarrow> bool" where
  "raft_ok P st \<longleftrightarrow> 1 \<le> unat (commit_index st) \<and> unat (commit_index st) \<le> length (log_entries (r_log st))
     \<and> committed st = map le_msg (drop 1 (take (unat (commit_index st)) (log_entries (r_log st))))
     \<and> (\<forall>e \<in> set (log_entries (r_log st)). P e)"

definition grows :: "(log_entry \<Rightarrow> bool) \<Rightarrow> raft \<Rightarrow> raft \<Rightarrow> bool" where
  "grows P st st' \<longleftrightarrow> prefix (log_entries (r_log st)) (log_entries (r_log st'))
     \<and> commit_index st \<le> commit_index st' \<and> prefix (committed st) (committed st')
     \<and> raft_ok P st'"

lemma grows_refl [simp]: "raft_ok P st \<Longrightarrow> grows P st st"
  by (simp add: grows_def)

lemma grows_ok: "grows P st st' \<Longrightarrow> raft_ok P st'"
  by (simp add: grows_def)

lemma grows_trans: "grows P st st' \<Longrightarrow> grows P st' st'' \<Longrightarrow> grows P st st''"
  by (auto simp: grows_def intro: prefix_order.trans order_trans)

text \<open>The part of the state the invariant is about; most functions leave it alone.\<close>

definition core :: "raft \<Rightarrow> log_entry list \<times> u32 \<times> entry_msg list" where
  "core st = (log_entries (r_log st), commit_index st, committed st)"

lemma raft_ok_core: "core st' = core st \<Longrightarrow> raft_ok P st' \<longleftrightarrow> raft_ok P st"
  by (simp add: raft_ok_def core_def)

lemma grows_core:
  assumes "raft_ok P st" "core st' = core st"
  shows "grows P st st'"
proof -
  have "raft_ok P st'" using raft_ok_core [OF assms(2)] assms(1) by simp
  with assms(2) show ?thesis by (simp add: grows_def core_def)
qed

lemma core_emit [simp]: "commits_in es = [] \<Longrightarrow> core (r_emit es st) = core st"
  by (simp add: core_def committed_def)

lemma core_update [simp]:
  "core (st\<lparr>current_state := s\<rparr>) = core st" "core (st\<lparr>current_term := t\<rparr>) = core st"
  "core (st\<lparr>yes_votes := v\<rparr>) = core st" "core (st\<lparr>no_votes := v\<rparr>) = core st"
  "core (st\<lparr>voted_for := w\<rparr>) = core st" "core (st\<lparr>peer_match_index := m\<rparr>) = core st"
  "core (st\<lparr>r_leader := u\<rparr>) = core st" "core (st\<lparr>in_a_swarm := b\<rparr>) = core st"
  "core (st\<lparr>enable_audit := b\<rparr>) = core st"
  by (simp_all add: core_def committed_def)

lemma core_update_raft_state [simp]: "core (update_raft_state t s st) = core st"
  by (cases s) (simp_all add: update_raft_state_def)

lemma update_raft_state_fields [simp]:
  "r_effects (update_raft_state t s st) = r_effects st" "r_log (update_raft_state t s st) = r_log st"
  "r_uuid (update_raft_state t s st) = r_uuid st" "commit_index (update_raft_state t s st) = commit_index st"
  "current_state (update_raft_state t s st) = s" "current_term (update_raft_state t s st) = t"
  "voted_for (update_raft_state t s st) = voted_for st" "yes_votes (update_raft_state t s st) = yes_votes st"
  by (cases s; simp add: update_raft_state_def)+

lemma core_timers [simp]:
  "core (start_election_timer st) = core st" "core (start_heartbeat_timer st) = core st"
  by (simp_all add: start_election_timer_def start_heartbeat_timer_def)

lemma core_replies [simp]:
  "core (send_session_error_message s m st) = core st" "core (send_success_message s c m st) = core st"
  by (simp_all add: send_session_error_message_def send_success_message_def)

lemma core_audit_peers: "audit_peers X a ps st = Inr st' \<Longrightarrow> core st' = core st"
  by (induction ps arbitrary: st) (auto simp: peer_endpoint_def)

lemma core_notify: "notify_commit X i o' st = Inr st' \<Longrightarrow> core st' = core st"
  "notify_leader_status X st = Inr st' \<Longrightarrow> core st' = core st"
  by (auto simp: notify_commit_def notify_leader_status_def split: if_splits dest!: core_audit_peers)

lemma core_append_requests: "core (append_requests X ps st) = core st"
proof (induction ps arbitrary: st)
  case (Cons p ps)
  have "core (snd (append_request_for X p st)) = core st"
    by (auto simp: append_request_for_def match_index_of_def Let_def split: option.splits)
  then show ?case
    using Cons.IH by (cases "append_request_for X p st") (auto split: sum.splits)
qed simp

lemma core_request_append_entries: "request_append_entries X st = Inr st' \<Longrightarrow> core st' = core st"
  by (auto simp: request_append_entries_def core_append_requests)

lemma commits_in_sends [simp]: "commits_in (map (\<lambda>p. R_send (f p) (g p)) ps) = []"
  by (induction ps) simp_all

lemma core_request_vote: "request_vote_request X st = Inr st' \<Longrightarrow> core st' = core st"
  by (auto simp: request_vote_request_def Let_def core_def committed_def start_election_timer_def)

lemma core_auto_add: "auto_add_peer_if_required X st = Inr st' \<Longrightarrow> core st' = core st"
  by (auto simp: auto_add_peer_if_required_def Let_def peer_endpoint_def split: if_splits)

lemma core_add_self: "add_self_to_swarm X st = Inr st' \<Longrightarrow> core st' = core st"
  by (auto simp: add_self_to_swarm_def split: option.splits if_splits)

lemma core_vote_response: "handle_request_vote_response X msg st = Inr st' \<Longrightarrow> core st' = core st"
  by (auto simp: handle_request_vote_response_def Let_def split: if_splits dest!: core_request_append_entries)

lemma core_ws_request_vote [simp]: "core (handle_ws_request_vote msg s st) = core st"
  by (simp add: handle_ws_request_vote_def Let_def core_def committed_def)

lemma core_get_peers: "handle_get_peers s st = Inr st' \<Longrightarrow> core st' = core st"
  by (auto simp: handle_get_peers_def Let_def)

lemma core_get_peers_response: "handle_get_peers_response X msg st = Inr st' \<Longrightarrow> core st' = core st"
  by (auto simp: handle_get_peers_response_def handle_get_peers_response_from_follower_or_candidate_def
      handle_get_peers_response_from_leader_def Let_def
      split: if_splits message_member.splits option.splits dest!: core_auto_add core_add_self)

lemma core_shutdown: "shutdown_on_exceeded_max_storage b st = Inr st' \<Longrightarrow> core st' = core st"
  by (auto simp: shutdown_on_exceeded_max_storage_def split: if_splits)

lemma core_validate: "validate_new_peer X s p st = Inr (b, st') \<Longrightarrow> core st' = core st"
  by (auto simp: validate_new_peer_def split: if_splits)

section \<open>Functions that extend the log\<close>

text \<open>
  The invariant carries a predicate on log entries. What it has to hold of are the entries the
  participant itself makes: those whose type is deduced from the payload, which includes the
  database entries, and the two kinds of quorum entries.
\<close>

locale logged_entries =
  fixes P :: "log_entry \<Rightarrow> bool"
  assumes deduced: "P \<lparr>entry_type = deduce_type_from_message m, log_index = i, le_term = t, le_msg = m\<rparr>"
    and joint: "P \<lparr>entry_type = LE_joint_quorum, log_index = i, le_term = t, le_msg = Msg_joint old new\<rparr>"
    and single: "P \<lparr>entry_type = LE_single_quorum, log_index = i, le_term = t, le_msg = Msg_single ps\<rparr>"
begin

lemma raft_ok_extend:
  assumes "raft_ok P st" "log_entries (r_log st') = log_entries (r_log st) @ es"
    "commit_index st' = commit_index st" "committed st' = committed st" "\<forall>e \<in> set es. P e"
  shows "grows P st st'"
  using assms by (auto simp: grows_def raft_ok_def)

lemma append_log_grows:
  assumes "raft_ok P st" and "\<And>i t. P \<lparr>entry_type = type, log_index = i, le_term = t, le_msg = m\<rparr>"
  shows "grows P st (snd (append_log_unsafe X m type st))"
proof (cases "current_state st = Leader")
  case True
  then show ?thesis
    using assms by (intro raft_ok_extend) (auto simp: append_log_unsafe_def leader_append_entry_def committed_def)
qed (simp add: append_log_unsafe_def assms(1))

lemma created_joint:
  "create_joint_quorum_by_adding_peer q p = Inr m \<Longrightarrow> \<exists>old new. m = Msg_joint old new"
  "create_joint_quorum_by_removing_peer q u = Inr m \<Longrightarrow> \<exists>old new. m = Msg_joint old new"
  by (auto simp: create_joint_quorum_by_adding_peer_def create_joint_quorum_by_removing_peer_def Let_def)

lemma perform_commit_grows:
  assumes ok: "raft_ok P st" and e: "entry_at (r_log st) (unat (commit_index st)) = Inr e"
    and c: "perform_commit X e st = Inr st'" and lt: "commit_index st < bound"
  shows "grows P st st' \<and> commit_index st' = commit_index st + 1"
proof -
  obtain st1 where n: "notify_commit X (commit_index st) (json_text X (le_msg e)) st = Inr st1"
    using c by (auto simp: perform_commit_def)
  let ?st2 = "(r_emit [R_commit (le_msg e)] st1)\<lparr>commit_index := commit_index st1 + 1\<rparr>"
  have core: "log_entries (r_log st1) = log_entries (r_log st)" "commit_index st1 = commit_index st"
    "committed st1 = committed st"
    using core_notify(1) [OF n] by (simp_all add: core_def)
  have u: "unat (commit_index st + 1) = Suc (unat (commit_index st))"
    using lt by (rule unat_plus_one_less)
  have e': "unat (commit_index st) < length (log_entries (r_log st))"
    "log_entries (r_log st) ! unat (commit_index st) = e"
    using e by (auto simp: entry_at_def split: if_splits)
  have ok2: "raft_ok P ?st2"
    using ok core u e' by (auto simp: raft_ok_def committed_def take_Suc_conv_app_nth)
  have le: "commit_index st \<le> commit_index st + 1"
    using u by (simp add: word_le_nat_alt)
  have g2: "grows P st ?st2"
    using ok2 core le by (simp add: grows_def committed_def)
  show ?thesis
  proof (cases "current_state ?st2 = Leader \<and> entry_type e = LE_joint_quorum")
    case True
    then obtain ps where m: "st' = snd (append_log_unsafe X (Msg_single ps) LE_single_quorum ?st2)"
      using c n by (auto simp: perform_commit_def create_single_quorum_from_joint_quorum_def Let_def split: if_splits)
    have "grows P ?st2 st'"
      using append_log_grows [OF ok2, of LE_single_quorum "Msg_single ps" X] single m by simp
    moreover have "commit_index st' = commit_index st + 1"
      using m core by (simp add: append_log_unsafe_def)
    ultimately show ?thesis using g2 grows_trans by blast
  next
    case False
    then have "st' = ?st2" using c n by (auto simp: perform_commit_def Let_def)
    with g2 core show ?thesis by simp
  qed
qed

lemma commit_range_grows:
  assumes "raft_ok P st" "i = unat (commit_index st)" "commit_range X n i c st = Inr st'" "c < 2 ^ 32"
  shows "grows P st st'"
  using assms(1-3)
proof (induction n arbitrary: i st)
  case (Suc n)
  show ?case
  proof (cases "i < min (log_size (r_log st)) c")
    case True
    then obtain e st1 where e: "entry_at (r_log st) i = Inr e" and p: "perform_commit X e st = Inr st1"
      and r: "commit_range X n (Suc i) c st1 = Inr st'"
      using Suc.prems(3) by auto
    have lt: "commit_index st < word_of_nat c"
      using True Suc.prems(2) assms(4) by (simp add: word_less_nat_alt unat_of_nat)
    have g: "grows P st st1" "commit_index st1 = commit_index st + 1"
      using perform_commit_grows [OF Suc.prems(1) e [unfolded Suc.prems(2)] p lt] by simp_all
    moreover have "Suc i = unat (commit_index st1)"
      using g(2) unat_plus_one_less [OF lt] Suc.prems(2) by simp
    ultimately have "grows P st1 st'"
      using Suc.IH [OF grows_ok _ r] by blast
    with g(1) show ?thesis by (rule grows_trans)
  next
    case False
    with Suc.prems show ?thesis by (auto split: if_splits)
  qed
qed simp

lemma commit_while_grows:
  assumes "raft_ok P st" "commit_while X n b st = Inr st'"
  shows "grows P st st'"
  using assms
proof (induction n arbitrary: st)
  case (Suc n)
  show ?case
  proof (cases "commit_index st < b")
    case True
    then obtain e st1 where e: "entry_at (r_log st) (unat (commit_index st)) = Inr e"
      and p: "perform_commit X e st = Inr st1" and r: "commit_while X n b st1 = Inr st'"
      using Suc.prems(2) by auto
    have "grows P st st1" using perform_commit_grows [OF Suc.prems(1) e p True] by simp
    then show ?thesis using Suc.IH [OF grows_ok r] grows_trans by blast
  next
    case False
    with Suc.prems show ?thesis by simp
  qed
qed simp

text \<open>
  An accepted entry always lies right behind the log: what comes earlier is refused and what comes
  later has no defined behaviour.
\<close>

lemma entry_accepted_last:
  "entry_accepted p t L = Inr True \<Longrightarrow> Suc p = length (log_entries L)"
  by (auto simp: entry_accepted_def split: if_splits)

lemma insert_entries_grows:
  assumes ok: "raft_ok P st" and small: "small_log st" and r: "insert_entries X msg st = Inr (success, st')"
  shows "grows P st st'"
proof -
  let ?i = "d_prevIndex msg + 1"
  obtain a where a: "entry_accepted (unat (d_prevIndex msg)) (unat (d_prevTerm msg)) (r_log st) = Inr a"
    using r by (auto simp: insert_entries_def Let_def)
  show ?thesis
  proof (cases "a \<and> d_entries msg \<noteq> Msg_null")
    case True
    then obtain e L where L: "follower_insert_entry (r_codec X) (unat ?i) e (r_log st) = Inr L" "P e"
      and st': "st' = st\<lparr>r_log := L\<rparr>"
      using r a deduced by (auto simp: insert_entries_def Let_def split: if_splits)
    have len: "Suc (unat (d_prevIndex msg)) = length (log_entries (r_log st))"
      using a True by (auto dest: entry_accepted_last)
    then have "unat ?i = length (log_entries (r_log st))"
      using small by (simp add: small_log_def unat_word_ariths)
    with L have "log_entries L = log_entries (r_log st) @ [e]"
      by (auto simp: follower_insert_entry_def)
    with ok st' L(2) show ?thesis by (intro raft_ok_extend) (auto simp: committed_def)
  next
    case False
    with r a have "st' = st" by (auto simp: insert_entries_def Let_def split: if_splits)
    with ok show ?thesis by simp
  qed
qed

lemma ws_append_entries_grows:
  assumes ok: "raft_ok P st" and small: "small_log st"
    and r: "handle_ws_append_entries X msg session st = Inr st'"
  shows "grows P st st'"
proof -
  let ?s1 = "if \<not> in_a_swarm st \<and> d_from msg \<noteq> r_uuid st then st\<lparr>in_a_swarm := True\<rparr> else st"
  have c1: "core ?s1 = core st" by simp
  show ?thesis
  proof (cases "(current_state ?s1 = Candidate \<or> current_state ?s1 = Leader) \<and> d_term msg \<le> current_term ?s1")
    case True
    then have "core st' = core st"
      using r unfolding handle_ws_append_entries_def Let_def by (auto split: if_splits)
    with ok show ?thesis by (rule grows_core)
  next
    case False
    let ?s2 = "?s1\<lparr>r_leader := d_from msg\<rparr>"
    have c2: "core ?s2 = core st" using c1 by simp
    obtain success s3 s5 where s3: "insert_entries X msg ?s2 = Inr (success, s3)"
      and s5: "(let s4 = r_emit [R_session session (create_append_entries_response (r_uuid s3) (current_term s3)
             success (word_of_nat (min (log_size (r_log s3)) (unat (d_prevIndex msg + 1) + 1)))) True] s3 in
           if success \<and> commit_index s4 < d_commitIndex msg
           then commit_range X (unat (d_commitIndex msg) - unat (commit_index s4)) (unat (commit_index s4))
                  (unat (d_commitIndex msg)) s4
           else Inr s4) = Inr s5"
      and st': "core st' = core s5"
      using r False unfolding handle_ws_append_entries_def Let_def by (auto split: if_splits)
    have "small_log ?s2" using small by (simp add: small_log_def)
    then have g3: "grows P ?s2 s3"
      using insert_entries_grows [OF _ _ s3] ok raft_ok_core [OF c2] by blast
    define s4 where "s4 = r_emit [R_session session (create_append_entries_response (r_uuid s3) (current_term s3)
             success (word_of_nat (min (log_size (r_log s3)) (unat (d_prevIndex msg + 1) + 1)))) True] s3"
    have c4: "core s4 = core s3" by (simp add: s4_def)
    have s5': "s4 = s5 \<or>
        commit_range X (unat (d_commitIndex msg) - unat (commit_index s4)) (unat (commit_index s4))
          (unat (d_commitIndex msg)) s4 = Inr s5"
      using s5 unfolding s4_def [symmetric] Let_def by (auto split: if_splits)
    have ok4: "raft_ok P s4" using g3 raft_ok_core [OF c4] grows_ok by blast
    have "unat (d_commitIndex msg) < 2 ^ LENGTH(32)" by (rule unsigned_less)
    then have "grows P s4 s5"
      using s5' commit_range_grows [OF ok4 refl] ok4 by auto
    moreover have "grows P st s4"
      using grows_trans [OF grows_core [OF ok c2] grows_trans [OF g3 grows_core [OF _ c4]]] g3 grows_ok by blast
    moreover have "grows P s5 st'" using calculation(1) grows_core [OF grows_ok st'] by blast
    ultimately show ?thesis by (meson grows_trans)
  qed
qed

lemma last_majority_core: "last_majority_replicated_log_index st = Inr (b, st') \<Longrightarrow> core st' = core st"
  by (auto simp: last_majority_replicated_log_index_def)

lemma append_response_grows:
  assumes "raft_ok P st" "handle_request_append_entries_response X msg st = Inr st'"
  shows "grows P st st'"
proof (cases "core st' = core st")
  case True
  with assms(1) show ?thesis by (rule grows_core)
next
  case False
  let ?s = "st\<lparr>peer_match_index := smap_set (d_from msg) (d_matchIndex msg) (peer_match_index st)\<rparr>"
  obtain b s where s: "last_majority_replicated_log_index ?s = Inr (b, s)"
    and r: "core st' = core s \<or> commit_while X (unat b - unat (commit_index s)) b s = Inr st'"
    using assms(2) False by (auto simp: handle_request_append_entries_response_def Let_def split: if_splits)
  have c: "core s = core st" using last_majority_core [OF s] by simp
  with assms(1) have "raft_ok P s" using raft_ok_core by blast
  with r c have "grows P s st'" using commit_while_grows grows_core by blast
  with grows_core [OF assms(1) c] show ?thesis by (rule grows_trans)
qed

lemma add_peer_grows:
  assumes "raft_ok P st" "handle_add_peer X session peer st = Inr st'"
  shows "grows P st st'"
proof (cases "core st' = core st")
  case True
  with assms(1) show ?thesis by (rule grows_core)
next
  case False
  then obtain s m where c: "core s = core st"
      and st': "core st' = core (snd (append_log_unsafe X m LE_joint_quorum s))" and m: "\<exists>old new. m = Msg_joint old new"
    using assms(2) created_joint(1)
    by (auto simp: handle_add_peer_def Let_def split: if_splits dest!: core_validate)
      (metis core_update(6) core_validate)+
  have ok: "raft_ok P s" using c assms(1) raft_ok_core by blast
  have "grows P s (snd (append_log_unsafe X m LE_joint_quorum s))"
    using append_log_grows [OF ok] joint m by auto
  with st' c show ?thesis
    by (meson assms(1) grows_core grows_ok grows_trans)
qed

lemma remove_peer_grows:
  assumes "raft_ok P st" "handle_remove_peer X session u st = Inr st'"
  shows "grows P st st'"
proof (cases "core st' = core st")
  case True
  with assms(1) show ?thesis by (rule grows_core)
next
  case False
  then obtain m where st': "core st' = core (snd (append_log_unsafe X m LE_joint_quorum st))"
      and m: "\<exists>old new. m = Msg_joint old new"
    using assms(2) created_joint(2) by (auto simp: handle_remove_peer_def split: if_splits)
  have "grows P st (snd (append_log_unsafe X m LE_joint_quorum st))"
    using append_log_grows [OF assms(1)] joint m by auto
  with st' show ?thesis by (meson grows_core grows_ok grows_trans)
qed

lemma member_message_grows:
  assumes ok: "raft_ok P st" and small: "small_log st"
    and r: "handle_member_message X msg session st = Inr st'"
  shows "grows P st st'"
proof (cases "core st' = core st")
  case True
  with ok show ?thesis by (rule grows_core)
next
  case False
  then have "current_term st = d_term msg"
    using r by (auto simp: handle_member_message_def Let_def core_def committed_def start_election_timer_def
        split: if_splits)
  then consider "handle_ws_append_entries X msg session st = Inr st'"
    | s where "handle_request_append_entries_response X msg st = Inr s" "core st' = core s"
    | s where "handle_request_vote_response X msg st = Inr s" "core st' = core s"
    using r False by (auto simp: handle_member_message_def Let_def split: if_splits)
  then show ?thesis
  proof cases
    case 1
    then show ?thesis by (rule ws_append_entries_grows [OF ok small])
  next
    case 2
    have g: "grows P st s" using ok 2(1) by (rule append_response_grows)
    from g grows_core [OF grows_ok [OF g] 2(2)] show ?thesis by (rule grows_trans)
  next
    case 3
    with False show ?thesis by (auto dest: core_vote_response)
  qed
qed

lemma message_grows:
  assumes ok: "raft_ok P st" and small: "small_log st"
    and r: "handle_ws_raft_messages X msg session st = Inr st'"
  shows "grows P st st'"
proof -
  obtain s where s: "shutdown_on_exceeded_max_storage False st = Inr s"
    using r by (auto simp: handle_ws_raft_messages_def)
  have c: "core s = core st" using s by (rule core_shutdown)
  have ok': "raft_ok P s" "small_log s"
    using c ok small raft_ok_core [OF c] by (simp_all add: small_log_def core_def)
  have "grows P s st'"
  proof (cases "core st' = core s")
    case True
    with ok'(1) show ?thesis by (rule grows_core)
  next
    case False
    then consider "handle_add_peer X session (d_peer msg) s = Inr st'"
      | "handle_remove_peer X session (elements (d_uuid msg)) s = Inr st'"
      | "handle_member_message X msg session s = Inr st'"
      using r s by (auto simp: handle_ws_raft_messages_def split: if_splits option.splits
          dest: core_get_peers core_get_peers_response)
    then show ?thesis
    proof cases
      case 1
      with ok'(1) show ?thesis by (rule add_peer_grows)
    next
      case 2
      with ok'(1) show ?thesis by (rule remove_peer_grows)
    next
      case 3
      then show ?thesis by (rule member_message_grows [OF ok'])
    qed
  qed
  with grows_core [OF ok c] show ?thesis by (rule grows_trans)
qed

lemma step_grows:
  assumes ok: "raft_ok P st" and small: "small_log st" and r: "raft_step X st st'"
  shows "grows P st st'"
  using r
proof cases
  case (message msg session)
  then show ?thesis by (rule message_grows [OF ok small])
next
  case (election ec)
  then obtain s where s: "core s = core st" "s = st' \<or> request_vote_request X s = Inr st'"
    by (auto simp: handle_election_timeout_def split: if_splits dest: core_auto_add)
  then have "core st' = core st" using core_request_vote by metis
  with ok show ?thesis by (rule grows_core)
next
  case (heartbeat ec)
  then have "core st' = core st"
    by (auto simp: handle_heartbeat_timeout_def split: if_splits dest!: core_request_append_entries core_notify)
  with ok show ?thesis by (rule grows_core)
next
  case (append w b)
  have "\<And>i t. P \<lparr>entry_type = LE_database, log_index = i, le_term = t, le_msg = Msg_database w\<rparr>"
    using deduced [of "Msg_database w"] by (simp add: deduce_type_from_message_def)
  then show ?thesis
    using append append_log_grows [OF ok, of LE_database "Msg_database w" X] by (simp add: append_log_def)
next
  case (audit val)
  with ok show ?thesis by (intro grows_core) (simp_all add: raft_set_audit_enabled_def)
next
  case starting
  with ok show ?thesis by (intro grows_core) (simp_all add: start_def)
qed

lemma run_grows: "raft_run X st st' \<Longrightarrow> raft_ok P st \<Longrightarrow> grows P st st'"
  by (induction rule: raft_run.induct) (auto intro: grows_trans step_grows grows_ok)

lemma new_raft_ok:
  assumes "new_raft X peers u file m v key = Inr st" "\<forall>e \<in> set (log_entries (r_log st)). P e"
  shows "raft_ok P st"
  using assms by (auto simp: new_raft_def new_raft_log_def shutdown_on_exceeded_max_storage_def raft_ok_def
      committed_def Suc_le_eq split: if_splits option.splits)

end

interpretation any: logged_entries "\<lambda>_. True"
  by unfold_locales auto

section \<open>Roles and votes\<close>

text \<open>The terms in which a vote was granted, in the order in which the grants were sent.\<close>

fun grants_in :: "raft_effect list \<Rightarrow> u32 list" where
  "grants_in [] = []"
| "grants_in (R_session s m b # es) =
     (if cmd m = ''ResponseVote'' \<and> d_granted m then d_term m # grants_in es else grants_in es)"
| "grants_in (_ # es) = grants_in es"

lemma grants_in_append [simp]: "grants_in (es @ es') = grants_in es @ grants_in es'"
  by (induction es rule: grants_in.induct) simp_all

lemma grants_in_sends [simp]: "grants_in (map (\<lambda>p. R_send (f p) (g p)) ps) = []"
  by (induction ps) simp_all

definition grants :: "raft \<Rightarrow> u32 list" where
  "grants st = grants_in (r_effects st)"

definition role :: "raft \<Rightarrow> raft_state \<times> u32 \<times> uuid_t option \<times> uuid_t list \<times> u32 list" where
  "role st = (current_state st, current_term st, voted_for st, yes_votes st, grants st)"

lemma role_emit [simp]: "grants_in es = [] \<Longrightarrow> role (r_emit es st) = role st"
  by (simp add: role_def grants_def)

lemma role_update [simp]:
  "role (st\<lparr>no_votes := v\<rparr>) = role st" "role (st\<lparr>peer_match_index := m\<rparr>) = role st"
  "role (st\<lparr>r_leader := u\<rparr>) = role st" "role (st\<lparr>in_a_swarm := b\<rparr>) = role st"
  "role (st\<lparr>enable_audit := b\<rparr>) = role st" "role (st\<lparr>r_log := L\<rparr>) = role st"
  "role (st\<lparr>commit_index := c\<rparr>) = role st"
  by (simp_all add: role_def grants_def)

lemma role_timers [simp]:
  "role (start_election_timer st) = role st" "role (start_heartbeat_timer st) = role st"
  by (simp_all add: start_election_timer_def start_heartbeat_timer_def)

lemma role_replies [simp]:
  "role (send_session_error_message s m st) = role st"
  "c \<noteq> ''ResponseVote'' \<Longrightarrow> role (send_success_message s c m st) = role st"
  by (simp_all add: send_session_error_message_def send_success_message_def empty_msg_def)

lemma role_audit_peers: "audit_peers X a ps st = Inr st' \<Longrightarrow> role st' = role st"
  by (induction ps arbitrary: st) (auto simp: peer_endpoint_def)

lemma role_notify: "notify_commit X i o' st = Inr st' \<Longrightarrow> role st' = role st"
  "notify_leader_status X st = Inr st' \<Longrightarrow> role st' = role st"
  by (auto simp: notify_commit_def notify_leader_status_def split: if_splits dest!: role_audit_peers)

lemma role_append_log [simp]: "role (snd (append_log_unsafe X m t st)) = role st"
  by (simp add: append_log_unsafe_def)

lemma role_perform_commit: "perform_commit X e st = Inr st' \<Longrightarrow> role st' = role st"
  by (auto simp: perform_commit_def Let_def role_def grants_def append_log_unsafe_def split: if_splits
      dest!: role_notify(1))

lemma role_commit_range: "commit_range X n i c st = Inr st' \<Longrightarrow> role st' = role st"
  by (induction n arbitrary: i st) (auto split: if_splits dest!: role_perform_commit)

lemma role_commit_while: "commit_while X n b st = Inr st' \<Longrightarrow> role st' = role st"
  by (induction n arbitrary: st) (auto split: if_splits dest!: role_perform_commit)

lemma role_append_requests [simp]: "role (append_requests X ps st) = role st"
proof (induction ps arbitrary: st)
  case (Cons p ps)
  have "role (snd (append_request_for X p st)) = role st"
    by (auto simp: append_request_for_def match_index_of_def Let_def split: option.splits)
  then show ?case
    using Cons.IH by (cases "append_request_for X p st") (auto split: sum.splits)
qed simp

lemma role_request_append_entries: "request_append_entries X st = Inr st' \<Longrightarrow> role st' = role st"
  by (auto simp: request_append_entries_def)

lemma role_auto_add: "auto_add_peer_if_required X st = Inr st' \<Longrightarrow> role st' = role st"
  by (auto simp: auto_add_peer_if_required_def Let_def peer_endpoint_def split: if_splits)

lemma role_add_self: "add_self_to_swarm X st = Inr st' \<Longrightarrow> role st' = role st"
  by (auto simp: add_self_to_swarm_def split: option.splits if_splits)

lemma role_get_peers: "handle_get_peers s st = Inr st' \<Longrightarrow> role st' = role st"
  by (auto simp: handle_get_peers_def Let_def empty_msg_def split: raft_state.splits)

lemma role_get_peers_response: "handle_get_peers_response X msg st = Inr st' \<Longrightarrow> role st' = role st"
  by (auto simp: handle_get_peers_response_def handle_get_peers_response_from_follower_or_candidate_def
      handle_get_peers_response_from_leader_def Let_def
      split: if_splits message_member.splits option.splits dest!: role_auto_add role_add_self)

lemma role_shutdown: "shutdown_on_exceeded_max_storage b st = Inr st' \<Longrightarrow> role st' = role st"
  by (auto simp: shutdown_on_exceeded_max_storage_def split: if_splits)

lemma role_validate: "validate_new_peer X s p st = Inr (b, st') \<Longrightarrow> role st' = role st"
  by (auto simp: validate_new_peer_def split: if_splits)

lemma role_add_peer: "handle_add_peer X s p st = Inr st' \<Longrightarrow> role st' = role st"
  by (auto simp: handle_add_peer_def Let_def split: if_splits dest!: role_validate)

lemma role_remove_peer: "handle_remove_peer X s u st = Inr st' \<Longrightarrow> role st' = role st"
  by (auto simp: handle_remove_peer_def split: if_splits)

lemma role_insert_entries: "insert_entries X msg st = Inr (b, st') \<Longrightarrow> role st' = role st"
  by (auto simp: insert_entries_def Let_def split: if_splits)

lemma role_last_majority: "last_majority_replicated_log_index st = Inr (b, st') \<Longrightarrow> role st' = role st"
  by (auto simp: last_majority_replicated_log_index_def)

lemma role_append_response: "handle_request_append_entries_response X msg st = Inr st' \<Longrightarrow> role st' = role st"
  by (auto simp: handle_request_append_entries_response_def Let_def split: if_splits
      dest!: role_last_majority role_commit_while)

definition vote_step :: "raft \<Rightarrow> raft \<Rightarrow> bool" where
  "vote_step st st' \<longleftrightarrow>
     (grants st' = grants st \<or> grants st' = grants st @ [current_term st'] \<and> voted_for st' \<noteq> None)
   \<and> (current_term st' = current_term st \<and> voted_for st \<noteq> None
        \<longrightarrow> voted_for st' = voted_for st \<and> grants st' = grants st)
   \<and> (current_state st' = Leader \<and> current_state st \<noteq> Leader
        \<longrightarrow> current_state st = Candidate \<and> current_term st' = current_term st
          \<and> is_majority (yes_votes st') st = Inr True)"

lemma vote_step_role: "role st' = role st \<Longrightarrow> vote_step st st'"
  by (simp add: vote_step_def role_def)

lemma vote_step_role_left: "role s = role st \<Longrightarrow> r_log s = r_log st \<Longrightarrow> vote_step s st' \<Longrightarrow> vote_step st st'"
  by (simp add: vote_step_def role_def is_majority_def get_active_quorum_def)

lemma vote_step_role_right: "vote_step st s \<Longrightarrow> role st' = role s \<Longrightarrow> vote_step st st'"
  by (simp add: vote_step_def role_def)

lemma grants_emit [simp]: "grants (st\<lparr>r_effects := r_effects s @ es\<rparr>) = grants s @ grants_in es"
  by (simp add: grants_def)

lemma grants_update [simp]:
  "grants (st\<lparr>current_state := a\<rparr>) = grants st" "grants (st\<lparr>current_term := b\<rparr>) = grants st"
  "grants (st\<lparr>yes_votes := c\<rparr>) = grants st" "grants (st\<lparr>no_votes := d\<rparr>) = grants st"
  "grants (st\<lparr>voted_for := e\<rparr>) = grants st" "grants (st\<lparr>peer_match_index := f\<rparr>) = grants st"
  "grants (st\<lparr>r_leader := g\<rparr>) = grants st" "grants (st\<lparr>in_a_swarm := h\<rparr>) = grants st"
  by (simp_all add: grants_def)

lemma grants_state [simp]: "grants (update_raft_state t s st) = grants st"
  by (simp add: grants_def)

lemma election_timer_fields [simp]:
  "grants (start_election_timer st) = grants st" "voted_for (start_election_timer st) = voted_for st"
  "current_term (start_election_timer st) = current_term st"
  "current_state (start_election_timer st) = current_state st"
  "yes_votes (start_election_timer st) = yes_votes st" "r_log (start_election_timer st) = r_log st"
  by (simp_all add: start_election_timer_def)

lemma vote_step_not_leader:
  "current_state st' \<noteq> Leader \<Longrightarrow> voted_for st' = voted_for st \<Longrightarrow> grants st' = grants st \<Longrightarrow> vote_step st st'"
  by (simp add: vote_step_def)

lemma vote_response_step:
  assumes r: "handle_request_vote_response X msg st = Inr st'"
  shows "vote_step st st'"
proof (cases "current_state st = Candidate \<and> d_granted msg")
  case True
  let ?yes = "sset_insert (d_from msg) (yes_votes st)"
  let ?s = "st\<lparr>yes_votes := ?yes\<rparr>"
  let ?w = "(update_raft_state (current_term st) Leader ?s)
      \<lparr>peer_match_index := map (\<lambda>(u, _). (u, 1)) (peer_match_index (update_raft_state (current_term st) Leader ?s))\<rparr>"
  have maj: "is_majority ?yes ?s = is_majority ?yes st"
    by (simp add: is_majority_def get_active_quorum_def)
  obtain won where won: "is_majority ?yes st = Inr won"
    using r True maj by (cases "is_majority ?yes st") (simp_all add: handle_request_vote_response_def Let_def)
  have st': "(if won then request_append_entries X ?w else Inr ?s) = Inr st'"
    using r True maj won by (cases won) (simp_all add: handle_request_vote_response_def Let_def)
  show ?thesis
  proof (cases won)
    case True
    then have "role st' = (Leader, current_term st, voted_for st, ?yes, grants st)"
      using st' role_request_append_entries [of X ?w st'] by (simp add: role_def)
    with won True \<open>current_state st = Candidate \<and> d_granted msg\<close> show ?thesis
      by (simp add: role_def vote_step_def)
  next
    case False
    with st' show ?thesis by (auto simp: vote_step_def)
  qed
next
  case False
  then have "st' = st \<or> current_state st' \<noteq> Leader \<and> voted_for st' = voted_for st \<and> grants st' = grants st"
    using r by (auto simp: handle_request_vote_response_def Let_def split: if_splits)
  then show ?thesis using vote_step_not_leader vote_step_role by blast
qed

lemma ws_append_entries_step:
  assumes "handle_ws_append_entries X msg session st = Inr st'"
  shows "vote_step st st'"
proof -
  have "role st' = role st \<or> (current_state st' = Follower \<and> voted_for st' = voted_for st \<and> grants st' = grants st)"
    using assms
    by (auto simp: handle_ws_append_entries_def Let_def create_append_entries_response_def empty_msg_def
        split: if_splits dest!: role_insert_entries role_commit_range)
  then show ?thesis using vote_step_role vote_step_not_leader by auto
qed

lemma member_message_step:
  assumes r: "handle_member_message X msg session st = Inr st'"
  shows "vote_step st st'"
proof (cases "current_term st = d_term msg")
  case True
  note eq = r [unfolded handle_member_message_def Let_def, simplified True, simplified]
  consider "cmd msg = ''RequestVote''" | "cmd msg = ''AppendEntries''" | "cmd msg = ''AppendEntriesReply''"
    | "cmd msg = ''ResponseVote''" | "cmd msg \<notin> {''RequestVote'', ''AppendEntries'', ''AppendEntriesReply'', ''ResponseVote''}"
    by blast
  then show ?thesis
  proof cases
    case 1
    then have "st' = handle_ws_request_vote msg session st" using eq by simp
    then show ?thesis
      by (simp add: vote_step_def handle_ws_request_vote_def Let_def create_request_vote_response_def empty_msg_def)
  next
    case 2
    then show ?thesis using eq by (intro ws_append_entries_step) simp
  next
    case 3
    then obtain s where "handle_request_append_entries_response X msg st = Inr s" "role st' = role s"
      using eq by auto
    then show ?thesis by (metis role_append_response vote_step_role)
  next
    case 4
    then obtain s where "handle_request_vote_response X msg st = Inr s" "role st' = role s"
      using eq by auto
    then show ?thesis by (metis vote_response_step vote_step_role_right)
  next
    case 5
    then have "st' = st" using eq by simp
    then show ?thesis by (simp add: vote_step_role)
  qed
next
  case False
  note eq = r [unfolded handle_member_message_def Let_def]
  show ?thesis
  proof (cases "current_term st < d_term msg \<and> cmd msg = ''RequestVote''")
    case True
    with False eq show ?thesis
      by (auto simp: vote_step_def create_request_vote_response_def empty_msg_def)
  next
    case no: False
    with False eq have "current_state st' = Follower \<and> current_term st' = d_term msg \<and> grants st' = grants st"
      by (auto simp: create_append_entries_response_def empty_msg_def split: if_splits)
    with False show ?thesis by (simp add: vote_step_def)
  qed
qed

lemma message_step:
  assumes r: "handle_ws_raft_messages X msg session st = Inr st'"
  shows "vote_step st st'"
proof -
  obtain s where s: "shutdown_on_exceeded_max_storage False st = Inr s"
    using r by (auto simp: handle_ws_raft_messages_def)
  have c: "role s = role st" using s by (rule role_shutdown)
  have l: "r_log s = r_log st" using s by (auto simp: shutdown_on_exceeded_max_storage_def split: if_splits)
  have "role st' = role s \<or> handle_member_message X msg session s = Inr st'"
    using r s by (auto simp: handle_ws_raft_messages_def split: if_splits option.splits
        dest: role_get_peers role_get_peers_response role_add_peer role_remove_peer)
  then have "vote_step s st'" using vote_step_role member_message_step by blast
  with c l show ?thesis by (rule vote_step_role_left)
qed

lemma step_vote_step: "raft_step X st st' \<Longrightarrow> vote_step st st'"
proof (erule raft_stepE)
  fix ec
  assume "handle_election_timeout X ec st = Inr st'"
  then obtain s where s: "role s = role st" "s = st' \<or> request_vote_request X s = Inr st'"
    by (auto simp: handle_election_timeout_def split: if_splits dest: role_auto_add)
  show "vote_step st st'"
  proof (cases "s = st'")
    case False
    then have "current_state st' = Candidate \<and> current_term st' = current_term s + 1 \<and> grants st' = grants s"
      using s(2) by (auto simp: request_vote_request_def Let_def)
    with s(1) show ?thesis by (simp add: vote_step_def role_def)
  qed (use s in \<open>auto intro: vote_step_role\<close>)
next
  fix ec
  assume "handle_heartbeat_timeout X ec st = Inr st'"
  then have "role st' = role st"
    by (auto simp: handle_heartbeat_timeout_def split: if_splits dest!: role_request_append_entries role_notify)
  then show "vote_step st st'" by (rule vote_step_role)
next
  fix w b
  assume "append_log X (Msg_database w) LE_database st = (b, st')"
  then have "role st' = role st"
    using role_append_log [of X "Msg_database w" LE_database st] by (simp add: append_log_def)
  then show "vote_step st st'" by (rule vote_step_role)
qed (auto intro: message_step vote_step_role simp: raft_set_audit_enabled_def start_def)

section \<open>Majorities\<close>

text \<open>No member is taken to be malicious: two majorities have to share one member.\<close>

interpretation raft_q: quorum_size "\<lambda>_. 0" "\<lambda>n. n div 2 + 1" "\<lambda>_. True"
  by unfold_locales auto

lemma uuids_foldl:
  "set (foldl (\<lambda>s p. sset_insert (peer_uuid p) s) acc ps) = set acc \<union> peer_uuid ` set ps"
  "sset_ok acc \<Longrightarrow> sset_ok (foldl (\<lambda>s p. sset_insert (peer_uuid p) s) acc ps)"
  by (induction ps arbitrary: acc) auto

lemma set_uuids [simp]: "set (uuids ps) = peer_uuid ` set (elements ps)"
  by (simp add: uuids_def uuids_foldl)

lemma distinct_uuids [simp]: "distinct (uuids ps)"
  using uuids_foldl(2) [of "[]" "elements ps"] by (auto simp: uuids_def sset_ok_def strict_sorted_iff)

lemma active_quorum_distinct: "get_active_quorum st = Inr qs \<Longrightarrow> s \<in> set qs \<Longrightarrow> distinct s"
  by (auto simp: get_active_quorum_def split: log_entry_type.splits)

lemma majority_card:
  assumes "distinct s"
  shows "majority_of v s \<longleftrightarrow> card (set s) div 2 + 1 \<le> card (set v \<inter> set s)"
proof -
  have "card (set v \<inter> set s) = length (filter (\<lambda>u. u \<in> set v) s)"
    using assms by (simp add: distinct_length_filter)
  moreover have "card (set s) = length s" using assms by (rule distinct_card)
  ultimately show ?thesis by (auto simp: majority_of_def)
qed

lemma majorities_share:
  assumes "distinct s" "majority_of v s" "majority_of w s"
  shows "\<exists>u \<in> set s. u \<in> set v \<and> u \<in> set w"
proof -
  obtain u where "u \<in> set v \<inter> set s" "u \<in> set w \<inter> set s" "u \<notin> {}"
    using raft_q.quorums_share_correct [of "set s" "{}" "set v \<inter> set s" "set w \<inter> set s"]
      assms(2,3) majority_card [OF assms(1)] by auto
  then show ?thesis by blast
qed

section \<open>Properties of a run\<close>

text \<open>
  C9: The log of a participant is only ever extended, and its commit index never moves back, whatever
  messages it receives: no step removes or replaces an entry. What the commit handler has been given
  is exactly the payload of the entries from the second up to the commit index, in log order, each
  once; and the commit index never points beyond the log.
\<close>

theorem raft_commits_in_log_order:
  assumes "new_raft X peers u file m v key = Inr st0" and "raft_run X st0 st" and "raft_run X st st'"
  shows "committed st = map le_msg (drop 1 (take (unat (commit_index st)) (log_entries (r_log st))))
     \<and> 1 \<le> unat (commit_index st) \<and> unat (commit_index st) \<le> length (log_entries (r_log st))
     \<and> prefix (log_entries (r_log st)) (log_entries (r_log st'))
     \<and> commit_index st \<le> commit_index st' \<and> prefix (committed st) (committed st')"
proof -
  have "grows (\<lambda>_. True) st0 st" using any.run_grows [OF assms(2)] any.new_raft_ok [OF assms(1)] by blast
  then have "raft_ok (\<lambda>_. True) st" by (rule grows_ok)
  with any.run_grows [OF assms(3)] have "grows (\<lambda>_. True) st st'" by blast
  with \<open>raft_ok (\<lambda>_. True) st\<close> show ?thesis unfolding grows_def raft_ok_def by blast
qed

text \<open>
  C11: A participant becomes leader only as a candidate, in the term in which it stood, and only with
  the votes of a majority of every quorum that is active in its log; and two majorities of active
  quorums that have a member set in common share a member, so that during a membership change, when
  the old and the new set are both active, no two disjoint majorities exist.
\<close>

theorem raft_leader_has_majority:
  assumes "raft_step X st st'" "current_state st \<noteq> Leader" "current_state st' = Leader"
    and "get_active_quorum st = Inr qs" "get_active_quorum s = Inr qs'" "set qs \<inter> set qs' \<noteq> {}"
    and "is_majority w s = Inr True"
  shows "current_state st = Candidate \<and> current_term st' = current_term st
     \<and> is_majority (yes_votes st') st = Inr True
     \<and> (\<exists>u. in_quorum u st = Inr True \<and> u \<in> set (yes_votes st') \<and> u \<in> set w)"
proof -
  have v: "current_state st = Candidate" "current_term st' = current_term st"
    "is_majority (yes_votes st') st = Inr True"
    using step_vote_step [OF assms(1)] assms(2,3) by (simp_all add: vote_step_def)
  obtain q where q: "q \<in> set qs" "q \<in> set qs'" using assms(6) by blast
  then have "majority_of (yes_votes st') q" "majority_of w q"
    using v(3) assms(4,5,7) by (simp_all add: is_majority_def)
  then obtain u where "u \<in> set q" "u \<in> set (yes_votes st')" "u \<in> set w"
    using majorities_share active_quorum_distinct [OF assms(4) q(1)] by blast
  with v q(1) assms(4) show ?thesis by (auto simp: in_quorum_def)
qed

text \<open>
  C12: A participant grants at most one vote for as long as it stays in a term: a step sends at most
  one grant, for the term it ends in, and then remembers having voted; and a step within a term in
  which it has voted, for another or for itself, grants nothing and does not change for whom.
\<close>

theorem raft_one_vote_per_term:
  assumes "raft_step X st st'"
  shows "(grants st' = grants st \<or> grants st' = grants st @ [current_term st'] \<and> voted_for st' \<noteq> None)
     \<and> (current_term st' = current_term st \<and> voted_for st \<noteq> None
          \<longrightarrow> voted_for st' = voted_for st \<and> grants st' = grants st)"
  using step_vote_step [OF assms] by (simp add: vote_step_def)

subsection \<open>A small group\<close>

definition sample_peer :: "string \<Rightarrow> peer_address_t" where
  "sample_peer u = \<lparr>pa_host = ''h'', pa_port = 1, pa_http_port = 2, pa_name = u, pa_uuid = u\<rparr>"

definition sample_peers :: "peer_address_t list" where
  "sample_peers = [sample_peer ''a'', sample_peer ''b'', sample_peer ''c'']"

definition sample_rlib :: raft_lib where
  "sample_rlib = \<lparr>r_codec = sample_log_codec (Msg_single (Some (map to_peer_message sample_peers))),
     json_text = (\<lambda>_. ''''), ipv4_ok = (\<lambda>_. True), verify_uuid_signature = (\<lambda>_ _. True),
     blacklisted = (\<lambda>_. Inr False), draw = (\<lambda>_. 0), parse_bzn = (\<lambda>_. None), dat_file_writable = True\<rparr>"

definition sample_first_entry :: log_entry where
  "sample_first_entry = \<lparr>entry_type = LE_single_quorum, log_index = 0, le_term = 0,
     le_msg = Msg_single (Some (map to_peer_message sample_peers))\<rparr>"

definition sample_raft :: "uuid_t \<Rightarrow> raft" where
  "sample_raft u = \<lparr>current_state = Follower, current_term = 0, yes_votes = [], no_votes = [], voted_for = None,
     last_log_term = 0, commit_index = 1, peer_match_index = [(''a'', 1), (''b'', 1), (''c'', 1)],
     r_uuid = u, r_leader = '''', r_log = log_on_file (r_codec sample_rlib) [sample_first_entry] 1000,
     enable_audit = True, enable_peer_validation = False, signed_key = '''', in_a_swarm = False, r_effects = []\<rparr>"

lemma sample_raft_new: "new_raft sample_rlib sample_peers u None 1000 False '''' = Inr (sample_raft u)"
proof -
  let ?C = "r_codec sample_rlib"
  have wf: "codec_wf ?C {le_msg sample_first_entry}"
    by (simp add: sample_rlib_def sample_first_entry_def sample_log_codec_wf)
  have dat: "create_dat_file sample_rlib sample_peers = Inr (print_entries ?C [sample_first_entry])"
    by (simp add: create_dat_file_def sample_rlib_def print_entries_def sample_first_entry_def sample_peers_def)
  have log: "new_raft_log ?C (Some (print_entries ?C [sample_first_entry])) 1000
      = Inr (log_on_file ?C [sample_first_entry] 1000)"
    by (rule new_raft_log_printed [OF wf]) (simp_all add: sample_first_entry_def named_type_def)
  have "length (show_nat 0) = 1" by (subst show_nat.simps) simp
  then have "\<not> maximum_storage_exceeded (log_on_file ?C [sample_first_entry] 1000)"
    by (simp add: maximum_storage_exceeded_def log_on_file_def print_entries_def print_entry_def
        sample_first_entry_def sample_rlib_def sample_log_codec_def)
  moreover have "sample_peers \<noteq> []" by (simp add: sample_peers_def)
  moreover have "setup_peer_tracking sample_peers [] = [(''a'', 1), (''b'', 1), (''c'', 1)]"
    by code_simp
  ultimately show ?thesis
    by (simp add: new_raft_def dat log shutdown_on_exceeded_max_storage_def sample_raft_def)
qed

lemma sample_raft_small: "small_log (sample_raft u)"
  by (simp add: small_log_def sample_raft_def log_on_file_def)

definition sample_append :: raft_msg where
  "sample_append = create_append_entries_request ''b'' 0 2 0 0 0 (Msg_database ''m'')"

definition sample_candidate :: "uuid_t \<Rightarrow> raft res" where
  "sample_candidate u = handle_election_timeout sample_rlib False (sample_raft u)"

lemma sample_committed_run:
  "\<exists>st. raft_run sample_rlib (sample_raft ''a'') st \<and> committed st = [Msg_database ''m'']"
proof -
  have "case handle_ws_raft_messages sample_rlib sample_append 0 (sample_raft ''a'') of Inl _ \<Rightarrow> False
       | Inr st \<Rightarrow> committed st = [Msg_database ''m'']"
    by code_simp
  then obtain st where "committed st = [Msg_database ''m'']"
      "handle_ws_raft_messages sample_rlib sample_append 0 (sample_raft ''a'') = Inr st"
    by (auto split: sum.splits)
  then show ?thesis using run_step [OF run_refl sample_raft_small] raft_step.message by blast
qed

theorem raft_commits_in_log_order_witness:
  "\<exists>st. committed st = [Msg_database ''m'']
     \<and> committed st = map le_msg (drop 1 (take (unat (commit_index st)) (log_entries (r_log st))))"
proof -
  obtain st where s: "raft_run sample_rlib (sample_raft ''a'') st" "committed st = [Msg_database ''m'']"
    using sample_committed_run by blast
  show ?thesis
    using raft_commits_in_log_order [OF sample_raft_new s(1) run_refl] s(2) by blast
qed

definition sample_vote :: "uuid_t \<Rightarrow> u32 \<Rightarrow> raft_msg" where
  "sample_vote u t = create_request_vote_response u t True"

lemma sample_election:
  "\<exists>st st' qs. raft_step sample_rlib st st' \<and> current_state st = Candidate \<and> current_state st' = Leader
     \<and> get_active_quorum st = Inr qs \<and> qs = [[''a'', ''b'', ''c'']]"
proof -
  have "case sample_candidate ''a'' of Inl _ \<Rightarrow> False | Inr st \<Rightarrow>
      current_state st = Candidate \<and> get_active_quorum st = Inr [[''a'', ''b'', ''c'']] \<and>
      (case handle_ws_raft_messages sample_rlib (sample_vote ''b'' 1) 0 st of Inl _ \<Rightarrow> False
       | Inr st' \<Rightarrow> current_state st' = Leader)"
    by code_simp
  then show ?thesis by (auto split: sum.splits intro: raft_step.message)
qed

theorem raft_leader_has_majority_witness:
  "\<exists>(st::raft) (st'::raft). current_state st' = Leader \<and> is_majority (yes_votes st') st = Inr True
     \<and> (\<exists>u. in_quorum u st = Inr True \<and> u \<in> set (yes_votes st') \<and> u \<in> set [''b'', ''c''])"
proof -
  obtain st st' where s: "raft_step sample_rlib st st'" "current_state st \<noteq> Leader" "current_state st' = Leader"
      "get_active_quorum st = Inr [[''a'', ''b'', ''c'']]"
    using sample_election by auto
  have "is_majority [''b'', ''c''] st = Inr True" using s(4) by (simp add: is_majority_def majority_of_def)
  then have "is_majority (yes_votes st') st = Inr True
      \<and> (\<exists>u. in_quorum u st = Inr True \<and> u \<in> set (yes_votes st') \<and> u \<in> set [''b'', ''c''])"
    using raft_leader_has_majority [OF s s(4), of "[''b'', ''c'']"] by simp
  with s(3) show ?thesis by blast
qed

theorem raft_one_vote_per_term_witness:
  "\<exists>st st'. raft_step sample_rlib st st' \<and> voted_for st \<noteq> None \<and> current_state st' = Leader
     \<and> (grants st' = grants st \<or> grants st' = grants st @ [current_term st'] \<and> voted_for st' \<noteq> None)"
proof -
  have "case sample_candidate ''a'' of Inl _ \<Rightarrow> False | Inr st \<Rightarrow> voted_for st \<noteq> None \<and>
      (case handle_ws_raft_messages sample_rlib (sample_vote ''b'' 1) 0 st of Inl _ \<Rightarrow> False
       | Inr st' \<Rightarrow> current_state st' = Leader)"
    by code_simp
  then obtain st st' where s: "raft_step sample_rlib st st'" "voted_for st \<noteq> None" "current_state st' = Leader"
    by (auto split: sum.splits intro: raft_step.message)
  then show ?thesis using raft_one_vote_per_term [OF s(1)] by blast
qed

end
