(* ===== verification/Raft_Replication.thy ===== *)
theory Raft_Replication
  imports Raft_Safety
begin

text \<open>
  How a Raft leader decides: the commit index moves only to what a majority of every active quorum
  has reported, a membership change passes through the joint quorum and back, and the places where
  the message handlers leave the protocol (an append ahead of the log, a leader that is asked for a
  vote in a later term).
\<close>

section \<open>The majority index\<close>

definition reported :: "(uuid_t, u32) smap \<Rightarrow> uuid_t \<Rightarrow> u32" where
  "reported m u = (case map_of m u of None \<Rightarrow> 0 | Some i \<Rightarrow> i)"

lemma match_index_reported:
  "match_index_of u m = (i, m') \<Longrightarrow> i = reported m u \<and> reported m' = reported m"
  by (auto simp: match_index_of_def reported_def fun_eq_iff split: option.splits if_splits)

lemma match_indices_reported:
  "match_indices us m = (is, m') \<Longrightarrow> is = map (reported m) us \<and> reported m' = reported m"
  by (induction us arbitrary: m "is" m') (fastforce split: prod.splits dest!: match_index_reported)+

lemma length_filter_ge_nth:
  fixes xs :: "'a::linorder list"
  assumes "sorted xs" "k < length xs"
  shows "length xs - k \<le> length (filter (\<lambda>x. xs ! k \<le> x) xs)"
proof -
  have "\<forall>x \<in> set (drop k xs). xs ! k \<le> x"
    using assms by (auto simp: in_set_conv_nth intro!: sorted_nth_mono)
  then have "length (filter (\<lambda>x. xs ! k \<le> x) (drop k xs)) = length (drop k xs)"
    by (simp add: filter_id_conv)
  moreover have "filter P xs = filter P (take k xs) @ filter P (drop k xs)" for P
    by (metis append_take_drop_id filter_append)
  ultimately show ?thesis by simp
qed

lemma median_support:
  assumes "median_index is = Inr m" "r \<le> m"
  shows "length is div 2 \<le> length (filter (\<lambda>i. r \<le> i) is) \<and> 2 \<le> length is"
proof -
  let ?k = "(length is + 1) div 2"
  have k: "?k < length is" "m = sort is ! ?k"
    using assms(1) by (auto simp: median_index_def Let_def split: if_splits)
  have "length is - ?k \<le> length (filter (\<lambda>x. m \<le> x) (sort is))"
    using length_filter_ge_nth [of "sort is" ?k] k by simp
  also have "\<dots> = length (filter (\<lambda>x. m \<le> x) is)"
    by (metis filter_sort length_sort)
  also have "\<dots> \<le> length (filter (\<lambda>i. r \<le> i) is)"
    using assms(2) by (induction "is") auto
  finally show ?thesis using k(1) by linarith
qed

lemma majority_indices_le:
  "majority_indices qs b m = Inr (r, m') \<Longrightarrow> r \<le> b \<and> reported m' = reported m
     \<and> (\<forall>s \<in> set qs. \<exists>x. median_index (map (reported m) s) = Inr x \<and> r \<le> x)"
proof (induction qs arbitrary: b m)
  case (Cons s qs)
  obtain "is" m1 where i: "match_indices s m = (is, m1)" by fastforce
  then obtain x where x: "median_index is = Inr x" "majority_indices qs (min b x) m1 = Inr (r, m')"
    using Cons.prems by auto
  have "is = map (reported m) s" "reported m1 = reported m" using match_indices_reported [OF i] by simp_all
  with Cons.IH [OF x(2)] x(1) show ?case by auto
qed simp

lemma sort_filter_card:
  "distinct s \<Longrightarrow> length (filter (\<lambda>i. P i) (map f s)) = card {u \<in> set s. P (f u)}"
  by (simp add: filter_map o_def distinct_length_filter Int_def conj_commute)

lemma majority_supported:
  assumes "majority_indices qs b m = Inr (r, m')" "s \<in> set qs" "distinct s"
    and "self \<in> set s" "reported m self < c" "c \<le> r"
  shows "card (set s) < 2 * card {u \<in> set s. u = self \<or> c \<le> reported m u}"
proof -
  obtain x where x: "median_index (map (reported m) s) = Inr x" "r \<le> x"
    using majority_indices_le [OF assms(1)] assms(2) by blast
  have "length s div 2 \<le> card {u \<in> set s. c \<le> reported m u}"
    using median_support [OF x(1), of c] x(2) assms(6) sort_filter_card [OF assms(3), of "\<lambda>i. c \<le> i" "reported m"]
    by simp
  moreover have "{u \<in> set s. u = self \<or> c \<le> reported m u} = insert self {u \<in> set s. c \<le> reported m u}"
    using assms(4) by auto
  moreover have "self \<notin> {u \<in> set s. c \<le> reported m u}" using assms(5) by auto
  ultimately show ?thesis using distinct_card [OF assms(3)] by simp
qed

lemma audit_peers_keep: "audit_peers X a ps st = Inr st' \<Longrightarrow>
    peer_match_index st' = peer_match_index st \<and> r_log st' = r_log st \<and> current_state st' = current_state st"
  by (induction ps arbitrary: st) (auto simp: peer_endpoint_def)

lemma notify_commit_keep: "notify_commit X i o' st = Inr st' \<Longrightarrow>
    peer_match_index st' = peer_match_index st \<and> r_log st' = r_log st \<and> current_state st' = current_state st"
  by (auto simp: notify_commit_def split: if_splits dest!: audit_peers_keep)

lemma perform_commit_peers: "perform_commit X e st = Inr st' \<Longrightarrow> peer_match_index st' = peer_match_index st"
  by (auto simp: perform_commit_def Let_def append_log_unsafe_def split: if_splits dest!: notify_commit_keep)

lemma commit_while_bound:
  "commit_while X n b st = Inr st' \<Longrightarrow> raft_ok (\<lambda>_. True) st \<Longrightarrow>
     peer_match_index st' = peer_match_index st \<and> (commit_index st' = commit_index st \<or> commit_index st' \<le> b)"
proof (induction n arbitrary: st)
  case (Suc n)
  show ?case
  proof (cases "commit_index st < b")
    case True
    then obtain e s where e: "entry_at (r_log st) (unat (commit_index st)) = Inr e" "perform_commit X e st = Inr s"
      and r: "commit_while X n b s = Inr st'"
      using Suc.prems(1) by auto
    have g: "grows (\<lambda>_. True) st s" "commit_index s = commit_index st + 1"
      using any.perform_commit_grows [OF Suc.prems(2) e True] by simp_all
    have "commit_index s \<le> b" using g(2) True inc_le by (metis add.commute)
    with Suc.IH [OF r grows_ok [OF g(1)]] perform_commit_peers [OF e(2)] show ?thesis by auto
  qed (use Suc.prems in auto)
qed simp


definition sample_leader :: raft where
  "sample_leader = (sample_raft ''a'')\<lparr>current_state := Leader, current_term := 1, r_leader := ''a'',
     r_log := leader_append_entry (r_codec sample_rlib) (sample_entry 1 1) (r_log (sample_raft ''a''))\<rparr>"

definition sample_reply :: raft_msg where
  "sample_reply = create_append_entries_response ''b'' 1 True 2"


section \<open>Membership changes\<close>

lemma last_quorum_append:
  "is_quorum_entry e \<Longrightarrow> last_quorum_entry (leader_append_entry C e L) = Inr e"
  by (simp add: last_quorum_entry_def leader_append_entry_def)

lemma active_quorum_append_joint:
  "r_log st = leader_append_entry C e L \<Longrightarrow> entry_type e = LE_joint_quorum \<Longrightarrow> le_msg e = Msg_joint old new
     \<Longrightarrow> last_quorum_entry (r_log st) = Inr e \<and> get_active_quorum st = Inr [uuids old, uuids new]"
  by (simp add: get_active_quorum_def last_quorum_append is_quorum_entry_def joint_value_def)

lemma active_quorum_append_single:
  "r_log st = leader_append_entry C e L \<Longrightarrow> entry_type e = LE_single_quorum \<Longrightarrow> le_msg e = Msg_single ps
     \<Longrightarrow> last_quorum_entry (r_log st) = Inr e \<and> get_active_quorum st = Inr [uuids ps]"
  by (simp add: get_active_quorum_def last_quorum_append is_quorum_entry_def peers_value_def)

text \<open>A request to add or remove a peer that is accepted makes the old and the new set active together.\<close>

lemma add_peer_joint:
  assumes "current_state st = Leader" "\<not> enable_peer_validation st"
    and "last_quorum_entry (r_log st) = Inr e" "entry_type e = LE_single_quorum" "le_msg e = Msg_single (Some ps)"
    and "rp_uuid p = Some u" "u \<noteq> ''''" "u \<notin> peer_uuid ` set ps"
  shows "\<exists>st1 e1. handle_add_peer X session p st = Inr st1 \<and> current_state st1 = Leader
     \<and> last_quorum_entry (r_log st1) = Inr e1 \<and> entry_type e1 = LE_joint_quorum
     \<and> le_msg e1 = Msg_joint (Some ps) (Some (ps @ [p]))
     \<and> get_active_quorum st1 = Inr [uuids (Some ps), uuids (Some (ps @ [p]))]
     \<and> enable_peer_validation st1 = enable_peer_validation st"
proof -
  let ?e = "\<lparr>entry_type = LE_joint_quorum, log_index = word_of_nat (log_size (r_log st)), le_term = current_term st,
      le_msg = Msg_joint (Some ps) (Some (ps @ [p]))\<rparr>"
  have pu: "peer_uuid p = u" using assms(6) by (simp add: peer_uuid_def)
  have nex: "\<forall>q. q \<in> set ps \<longrightarrow> peer_uuid q \<noteq> u" using assms(8) by auto
  let ?st1 = "send_success_message session ''add_peer'' SUCCESS_PEER_ADDED_TO_SWARM
      (st\<lparr>peer_match_index := smap_set u 1 (peer_match_index st),
         r_log := leader_append_entry (r_codec X) ?e (r_log st)\<rparr>)"
  have "handle_add_peer X session p st = Inr ?st1"
    using assms(1-7) nex pu
    by (auto simp: handle_add_peer_def peers_value_def elements_def Let_def append_log_unsafe_def
        create_joint_quorum_by_adding_peer_def)
  moreover have "current_state ?st1 = Leader" "enable_peer_validation ?st1 = enable_peer_validation st"
    and l: "r_log ?st1 = leader_append_entry (r_codec X) ?e (r_log st)"
    using assms(1) by (simp_all add: send_success_message_def)
  ultimately show ?thesis using active_quorum_append_joint [OF l] by auto
qed

lemma remove_peer_joint:
  assumes "current_state st = Leader"
    and "last_quorum_entry (r_log st) = Inr e" "entry_type e = LE_single_quorum" "le_msg e = Msg_single (Some (ps @ [p]))"
    and "rp_uuid p = Some u" "u \<notin> peer_uuid ` set ps"
  shows "\<exists>st1 e1 new. handle_remove_peer X session u st = Inr st1 \<and> current_state st1 = Leader
     \<and> last_quorum_entry (r_log st1) = Inr e1 \<and> entry_type e1 = LE_joint_quorum
     \<and> le_msg e1 = Msg_joint (Some (ps @ [p])) new \<and> elements new = ps
     \<and> get_active_quorum st1 = Inr [uuids (Some (ps @ [p])), uuids (Some ps)]"
proof -
  let ?new = "if ps = [] then None else Some ps"
  let ?e = "\<lparr>entry_type = LE_joint_quorum, log_index = word_of_nat (log_size (r_log st)), le_term = current_term st,
      le_msg = Msg_joint (Some (ps @ [p])) ?new\<rparr>"
  have "filter (\<lambda>q. rp_uuid q \<noteq> Some u) ps = ps"
    using assms(6) by (force simp: filter_id_conv peer_uuid_def split: option.splits)
  then have kept: "filter (\<lambda>q. rp_uuid q \<noteq> Some u) (ps @ [p]) = ps" using assms(5) by simp
  have pu: "peer_uuid p = u" using assms(5) by (simp add: peer_uuid_def)
  let ?st1 = "send_success_message session ''remove_peer'' SUCCESS_PEER_REMOVED_FROM_SWARM
      (st\<lparr>r_log := leader_append_entry (r_codec X) ?e (r_log st)\<rparr>)"
  have "handle_remove_peer X session u st = Inr ?st1"
    using assms(1-4) pu kept
    by (auto simp: handle_remove_peer_def peers_value_def elements_def Let_def append_log_unsafe_def
        create_joint_quorum_by_removing_peer_def)
  moreover have "current_state ?st1 = Leader" "r_log ?st1 = leader_append_entry (r_codec X) ?e (r_log st)"
    using assms(1) by (simp_all add: send_success_message_def)
  ultimately obtain st1 where st1: "handle_remove_peer X session u st = Inr st1" "current_state st1 = Leader"
      "r_log st1 = leader_append_entry (r_codec X) ?e (r_log st)"
    by blast
  have e: "elements ?new = ps" by (simp add: elements_def)
  have "uuids ?new = uuids (Some ps)" by (simp add: uuids_def elements_def)
  with active_quorum_append_joint [OF st1(3)] have "last_quorum_entry (r_log st1) = Inr ?e"
    "get_active_quorum st1 = Inr [uuids (Some (ps @ [p])), uuids (Some ps)]"
    by simp_all
  with st1 e show ?thesis
    by (intro exI [of _ st1] exI [of _ ?e] exI [of _ ?new]) simp
qed

text \<open>Committing the joint entry at the leader leaves only the new set active.\<close>

lemma commit_joint:
  assumes "current_state st = Leader" "entry_type e = LE_joint_quorum" "le_msg e = Msg_joint old new"
    and "perform_commit X e st = Inr st'"
  shows "current_state st' = Leader \<and> get_active_quorum st' = Inr [uuids new]
     \<and> (\<exists>e'. last_quorum_entry (r_log st') = Inr e' \<and> entry_type e' = LE_single_quorum \<and> le_msg e' = Msg_single new)"
proof -
  obtain s where n: "notify_commit X (commit_index st) (json_text X (le_msg e)) st = Inr s"
    using assms(4) by (auto simp: perform_commit_def)
  then have s: "notify_commit X (commit_index st) (json_text X (le_msg e)) st = Inr s" "current_state s = Leader"
    using assms(1) notify_commit_keep [OF n] by simp_all
  let ?e = "\<lparr>entry_type = LE_single_quorum, log_index = word_of_nat (log_size (r_log s)), le_term = current_term s,
      le_msg = Msg_single new\<rparr>"
  have "r_log st' = leader_append_entry (r_codec X) ?e (r_log s)" "current_state st' = Leader"
    using assms(2-4) s
    by (auto simp: perform_commit_def Let_def create_single_quorum_from_joint_quorum_def joint_value_def
        append_log_unsafe_def)
  then show ?thesis using active_quorum_append_single [of st' "r_codec X" ?e "r_log s" new] by auto
qed



section \<open>Message handling at the edges\<close>

lemma perform_commit_follower:
  "perform_commit X e st = Inr st' \<Longrightarrow> current_state st = Follower \<Longrightarrow>
     r_log st' = r_log st \<and> current_state st' = Follower"
  by (auto simp: perform_commit_def Let_def split: if_splits dest!: notify_commit_keep)

lemma commit_range_follower:
  "commit_range X n i c st = Inr st' \<Longrightarrow> current_state st = Follower \<Longrightarrow> r_log st' = r_log st"
  by (induction n arbitrary: i st) (auto split: if_splits dest!: perform_commit_follower)

lemma insert_entries_outcome:
  assumes "small_log st" "log_entries (r_log st) \<noteq> []"
  shows "if length (log_entries (r_log st)) \<le> unat (d_prevIndex msg)
     then insert_entries X msg st = Inl (Undefined_behaviour ''vector index out of range'')
     else if Suc (unat (d_prevIndex msg)) = length (log_entries (r_log st))
           \<and> d_prevTerm msg = le_term (last (log_entries (r_log st)))
     then \<exists>st'. insert_entries X msg st = Inr (True, st') \<and> current_state st' = current_state st
          \<and> log_entries (r_log st') = log_entries (r_log st) @ (if d_entries msg = Msg_null then []
              else [\<lparr>entry_type = deduce_type_from_message (d_entries msg), log_index = d_prevIndex msg + 1,
                     le_term = d_entryTerm msg, le_msg = d_entries msg\<rparr>])
     else insert_entries X msg st = Inr (False, st)"
proof -
  let ?n = "length (log_entries (r_log st))" and ?p = "unat (d_prevIndex msg)"
  have last: "Suc ?p = ?n \<Longrightarrow> last (log_entries (r_log st)) = log_entries (r_log st) ! ?p"
    using assms(2) by (metis diff_Suc_1 last_conv_nth)
  have idx: "unat (d_prevIndex msg + 1) = ?n" if "Suc ?p = ?n"
    using that assms(1) by (simp add: small_log_def unat_word_ariths)
  show ?thesis
  proof (cases "?n \<le> ?p")
    case True
    then show ?thesis using assms(2) by (auto simp: insert_entries_def entry_accepted_def Let_def)
  next
    case lt: False
    show ?thesis
    proof (cases "Suc ?p = ?n \<and> d_prevTerm msg = le_term (last (log_entries (r_log st)))")
      case True
      then have "entry_accepted ?p (unat (d_prevTerm msg)) (r_log st) = Inr True"
        using assms(2) last lt by (auto simp: entry_accepted_def)
      with True lt idx show ?thesis by (auto simp: insert_entries_def follower_insert_entry_def Let_def)
    next
      case False
      then have "entry_accepted ?p (unat (d_prevTerm msg)) (r_log st) = Inr False"
        using assms(2) last lt by (auto simp: entry_accepted_def word_unat_eq_iff)
      with False lt show ?thesis by (auto simp: insert_entries_def Let_def)
    qed
  qed
qed



text \<open>
  A leader that is asked for a vote in a later term by a member grants it and goes on as leader of
  that later term: the term moves, the state does not. Leadership in the term then belongs both to it
  and to the candidate, should that win.
\<close>

theorem leader_stays_leader_in_later_term:
  assumes "current_state st = Leader" "in_quorum (d_from msg) st = Inr True"
    and "cmd msg = ''RequestVote''" "current_term st < d_term msg" "\<not> maximum_storage_exceeded (r_log st)"
  shows "\<exists>st'. handle_ws_raft_messages X msg session st = Inr st' \<and> current_state st' = Leader
     \<and> current_term st' = d_term msg \<and> grants st' = grants st @ [d_term msg]"
  using assms
  by (auto simp: handle_ws_raft_messages_def handle_member_message_def shutdown_on_exceeded_max_storage_def Let_def
      create_request_vote_response_def)

theorem leader_stays_leader_in_later_term_witness:
  "\<exists>st'. handle_ws_raft_messages sample_rlib (create_request_vote_request ''b'' 2 2 0) 0 sample_leader = Inr st'
     \<and> current_state st' = Leader \<and> current_term st' = 2"
proof -
  let ?m = "create_request_vote_request ''b'' 2 2 0"
  have "current_state sample_leader = Leader" "in_quorum (d_from ?m) sample_leader = Inr True"
    "cmd ?m = ''RequestVote''" "current_term sample_leader < d_term ?m" "\<not> maximum_storage_exceeded (r_log sample_leader)"
    by code_simp+
  moreover have "d_term ?m = 2" by code_simp
  ultimately show ?thesis
    using leader_stays_leader_in_later_term [of sample_leader ?m sample_rlib 0] by auto
qed

end
