(* ===== verification/Subscription.thy ===== *)
theory Subscription
  imports Messages
begin

text \<open>
  The subscription manager, \<open>crud/subscription_manager.cpp\<close>: who is told about changes of which key.
  The four nested hash maps (database, key, session, transaction) are nested association lists; the
  weak pointer at the bottom is the identifier of the session it points to, and whether it can still
  be locked is the predicate \<open>live\<close>. The specification is a set of subscriptions.
\<close>

section \<open>Operations\<close>

type_synonym subscribers =
  "(uuid_t, (key_t, (session_id, (u64, session_id) umap) umap) umap) umap"

definition MSG_DUPLICATE_SUB :: string where "MSG_DUPLICATE_SUB = ''DUPLICATE_SUB''"
definition MSG_INVALID_UUID :: string where "MSG_INVALID_UUID = ''INVALID_UUID''"
definition MSG_INVALID_KEY :: string where "MSG_INVALID_KEY = ''INVALID_KEY''"
definition MSG_INVALID_SUB :: string where "MSG_INVALID_SUB = ''INVALID_SUB''"

text \<open>\<open>m[k]\<close> on a hash map: a missing element is created empty.\<close>

definition at_or_empty :: "('k, ('a, 'b) umap) umap \<Rightarrow> 'k \<Rightarrow> ('a, 'b) umap" where
  "at_or_empty m k = (case map_of m k of None \<Rightarrow> [] | Some v \<Rightarrow> v)"

definition put_subscription :: "uuid_t \<Rightarrow> key_t \<Rightarrow> session_id \<Rightarrow> u64 \<Rightarrow> subscribers \<Rightarrow> subscribers" where
  "put_subscription u k sid t subs =
     (let db = at_or_empty subs u; ks = at_or_empty db k; ts = at_or_empty ks sid in
      AList.update u (AList.update k (AList.update sid (AList.update t sid ts) ks) db) subs)"

definition subscribe :: "uuid_t \<Rightarrow> key_t \<Rightarrow> u64 \<Rightarrow> session_id \<Rightarrow> subscribers \<Rightarrow> string option \<times> subscribers" where
  "subscribe u k t sid subs =
     (case map_of subs u of
        Some db \<Rightarrow>
          (case map_of db k of
             None \<Rightarrow> (None, put_subscription u k sid t subs)
           | Some ks \<Rightarrow>
               if (case map_of ks sid of None \<Rightarrow> True | Some ts \<Rightarrow> map_of ts t = None)
               then (None, put_subscription u k sid t subs)
               else (Some MSG_DUPLICATE_SUB, subs))
      | None \<Rightarrow> (None, put_subscription u k sid t subs))"

definition unsubscribe :: "uuid_t \<Rightarrow> key_t \<Rightarrow> u64 \<Rightarrow> session_id \<Rightarrow> subscribers \<Rightarrow> string option \<times> subscribers" where
  "unsubscribe u k t sid subs =
     (case map_of subs u of
        None \<Rightarrow> (Some MSG_INVALID_UUID, subs)
      | Some db \<Rightarrow> (case map_of db k of
        None \<Rightarrow> (Some MSG_INVALID_KEY, subs)
      | Some ks \<Rightarrow> (case map_of ks sid of
        None \<Rightarrow> (Some MSG_INVALID_SUB, subs)
      | Some ts \<Rightarrow>
          if map_of ts t \<noteq> None
          then (None, AList.update u (AList.update k (AList.update sid (AList.delete t ts) ks) db) subs)
          else (Some MSG_INVALID_SUB, subs))))"

text \<open>One datagram per subscription of the key whose session can still be locked.\<close>

definition subscription_notice :: "uuid_t \<Rightarrow> bool \<Rightarrow> key_t \<Rightarrow> value_t \<Rightarrow> u64 \<Rightarrow> database_response" where
  "subscription_notice u update k v t =
     \<lparr>resp_header = \<lparr>db_uuid = u, transaction_id = t\<rparr>,
      resp_body = Resp_subscription_update k v (if update then UPDATE else DELETE)\<rparr>"

definition notify_sessions ::
  "(session_id \<Rightarrow> bool) \<Rightarrow> uuid_t \<Rightarrow> bool \<Rightarrow> key_t \<Rightarrow> value_t \<Rightarrow> subscribers \<Rightarrow> (session_id \<times> database_response) list" where
  "notify_sessions live u update k v subs =
     (case map_of subs u of
        None \<Rightarrow> []
      | Some db \<Rightarrow> (case map_of db k of
        None \<Rightarrow> []
      | Some ks \<Rightarrow>
          concat (map (\<lambda>(sid, ts).
            map (\<lambda>(t, w). (w, subscription_notice u update k v t)) (filter (\<lambda>(t, w). live w) ts)) ks)))"

definition inspect_commit ::
  "(session_id \<Rightarrow> bool) \<Rightarrow> database_msg \<Rightarrow> subscribers \<Rightarrow> (session_id \<times> database_response) list" where
  "inspect_commit live msg subs =
     (let u = db_uuid (db_header msg) in
      case db_body msg of
        Db_create k v \<Rightarrow> notify_sessions live u True k v subs
      | Db_update k v \<Rightarrow> notify_sessions live u True k v subs
      | Db_delete k \<Rightarrow> notify_sessions live u False k '''' subs
      | _ \<Rightarrow> [])"

text \<open>
  The purge walks the maps in place, erasing what cannot be locked any more and then every map it
  has left empty; \<open>ec\<close> is the error of a cancelled timer.
\<close>

definition drop_empty :: "('v \<Rightarrow> ('a, 'b) umap) \<Rightarrow> ('k, 'v) umap \<Rightarrow> ('k, ('a, 'b) umap) umap" where
  "drop_empty f m = filter (\<lambda>(k, v). v \<noteq> []) (map (\<lambda>(k, v). (k, f v)) m)"

definition purge_closed_sessions :: "(session_id \<Rightarrow> bool) \<Rightarrow> bool \<Rightarrow> subscribers \<Rightarrow> subscribers" where
  "purge_closed_sessions live ec subs =
     (if ec then subs else drop_empty (drop_empty (drop_empty (filter (\<lambda>(t, w). live w)))) subs)"

section \<open>Subscriptions as a map\<close>

definition subscription :: "subscribers \<Rightarrow> uuid_t \<Rightarrow> key_t \<Rightarrow> session_id \<Rightarrow> u64 \<rightharpoonup> session_id" where
  "subscription subs u k sid t =
     Option.bind (map_of subs u) (\<lambda>db. Option.bind (map_of db k) (\<lambda>ks.
       Option.bind (map_of ks sid) (\<lambda>ts. map_of ts t)))"

text \<open>Every level has distinct keys, and a weak pointer is filed under its own session.\<close>

definition nested_ok :: "('k \<Rightarrow> 'v \<Rightarrow> bool) \<Rightarrow> ('k, 'v) umap \<Rightarrow> bool" where
  "nested_ok P m \<longleftrightarrow> umap_ok m \<and> (\<forall>(k, v) \<in> set m. P k v)"

abbreviation txs_ok :: "session_id \<Rightarrow> (u64, session_id) umap \<Rightarrow> bool" where
  "txs_ok sid \<equiv> nested_ok (\<lambda>_ w. w = sid)"

abbreviation key_ok :: "key_t \<Rightarrow> (session_id, (u64, session_id) umap) umap \<Rightarrow> bool" where
  "key_ok _ \<equiv> nested_ok txs_ok"

definition subs_ok :: "subscribers \<Rightarrow> bool" where
  "subs_ok subs \<longleftrightarrow> nested_ok (\<lambda>_. nested_ok key_ok) subs"

lemma nested_ok_Nil [simp]: "nested_ok P []"
  by (simp add: nested_ok_def)

lemma set_alist_update: "set (AList.update k v m) \<subseteq> insert (k, v) (set m)"
  by (induction m) auto

lemma set_alist_delete: "set (AList.delete k m) \<subseteq> set m"
  by (induction m) auto

lemma nested_ok_update: "nested_ok P m \<Longrightarrow> P k v \<Longrightarrow> nested_ok P (AList.update k v m)"
  using set_alist_update [of k v m] by (fastforce simp: nested_ok_def)

lemma nested_ok_delete: "nested_ok P m \<Longrightarrow> nested_ok P (AList.delete k m)"
  using set_alist_delete [of k m] by (fastforce simp: nested_ok_def)

lemma nested_ok_lookup: "nested_ok P m \<Longrightarrow> map_of m k = Some v \<Longrightarrow> P k v"
  by (auto simp: nested_ok_def dest: map_of_SomeD)

lemma nested_ok_at:
  "nested_ok (\<lambda>k. nested_ok (Q k)) m \<Longrightarrow> nested_ok (Q k) (at_or_empty m k)"
  by (auto simp: at_or_empty_def split: option.splits dest: nested_ok_lookup)

lemma subs_ok_Nil [simp]: "subs_ok []"
  by (simp add: subs_ok_def)

lemma put_subscription_ok:
  assumes "subs_ok subs"
  shows "subs_ok (put_subscription u k sid t subs)"
proof -
  let ?db = "at_or_empty subs u"
  let ?ks = "at_or_empty ?db k"
  let ?ts = "at_or_empty ?ks sid"
  have db: "nested_ok key_ok ?db" using assms unfolding subs_ok_def by (rule nested_ok_at)
  have ks: "nested_ok txs_ok ?ks" using db by (rule nested_ok_at)
  have "txs_ok sid ?ts" using ks by (rule nested_ok_at)
  then have "txs_ok sid (AList.update t sid ?ts)" by (rule nested_ok_update) simp
  with ks have "nested_ok txs_ok (AList.update sid (AList.update t sid ?ts) ?ks)" by (rule nested_ok_update)
  with db have "nested_ok key_ok (AList.update k (AList.update sid (AList.update t sid ?ts) ?ks) ?db)"
    by (rule nested_ok_update)
  then show ?thesis
    using assms unfolding subs_ok_def put_subscription_def Let_def by (intro nested_ok_update [of _ subs])
qed

lemma subscription_put:
  "subscription (put_subscription u k sid t subs) u' k' sid' t'
     = (if (u', k', sid', t') = (u, k, sid, t) then Some sid else subscription subs u' k' sid' t')"
  by (auto simp: subscription_def put_subscription_def at_or_empty_def Let_def split: option.splits
      bind_splits)

lemma subscription_None_iff:
  "subscription subs u k sid t = None \<longleftrightarrow>
     (case map_of subs u of None \<Rightarrow> True | Some db \<Rightarrow> (case map_of db k of None \<Rightarrow> True
      | Some ks \<Rightarrow> (case map_of ks sid of None \<Rightarrow> True | Some ts \<Rightarrow> map_of ts t = None)))"
  by (auto simp: subscription_def split: option.splits)

lemma subscribe_cases:
  "subscribe u k t sid subs = (if subscription subs u k sid t = None
     then (None, put_subscription u k sid t subs) else (Some MSG_DUPLICATE_SUB, subs))"
  by (auto simp: subscribe_def subscription_None_iff split: option.splits)

lemma unsubscribe_cases:
  assumes "subs_ok subs"
  shows "if subscription subs u k sid t = None
    then \<exists>m. m \<in> {MSG_INVALID_UUID, MSG_INVALID_KEY, MSG_INVALID_SUB} \<and> unsubscribe u k t sid subs = (Some m, subs)
    else \<exists>subs'. unsubscribe u k t sid subs = (None, subs') \<and> subs_ok subs'
       \<and> (\<forall>u' k' sid' t'. subscription subs' u' k' sid' t'
            = (if (u', k', sid', t') = (u, k, sid, t) then None else subscription subs u' k' sid' t'))"
proof (cases "subscription subs u k sid t = None")
  case True
  then show ?thesis by (auto simp: unsubscribe_def subscription_None_iff split: option.splits)
next
  case False
  then obtain db ks ts w where d: "map_of subs u = Some db" "map_of db k = Some ks" "map_of ks sid = Some ts"
      "map_of ts t = Some w"
    by (auto simp: subscription_None_iff split: option.splits)
  let ?subs = "AList.update u (AList.update k (AList.update sid (AList.delete t ts) ks) db) subs"
  have db: "nested_ok key_ok db" using assms d(1) unfolding subs_ok_def by (rule nested_ok_lookup)
  have ks: "nested_ok txs_ok ks" using db d(2) by (rule nested_ok_lookup)
  have "txs_ok sid ts" using ks d(3) by (rule nested_ok_lookup)
  then have "subs_ok ?subs"
    using assms db ks unfolding subs_ok_def by (intro nested_ok_update nested_ok_delete) auto
  moreover have "subscription ?subs u' k' sid' t'
      = (if (u', k', sid', t') = (u, k, sid, t) then None else subscription subs u' k' sid' t')" for u' k' sid' t'
    using d by (auto simp: subscription_def)
  ultimately show ?thesis using False d by (auto simp: unsubscribe_def)
qed

text \<open>
  C34: Subscriptions are a set of (database, key, session, transaction) with insertion and removal.
  Subscribing adds exactly the requested subscription, or reports a duplicate and changes nothing if
  it is there; unsubscribing removes exactly it, or reports an error and changes nothing if it is not.
\<close>

theorem subscription_contract:
  assumes "subs_ok subs"
  shows "(if subscription subs u k sid t = None
      then \<exists>subs'. subscribe u k t sid subs = (None, subs') \<and> subs_ok subs'
         \<and> (\<forall>u' k' sid' t'. subscription subs' u' k' sid' t'
              = (if (u', k', sid', t') = (u, k, sid, t) then Some sid else subscription subs u' k' sid' t'))
      else subscribe u k t sid subs = (Some MSG_DUPLICATE_SUB, subs))
   \<and> (if subscription subs u k sid t = None
      then \<exists>m. m \<in> {MSG_INVALID_UUID, MSG_INVALID_KEY, MSG_INVALID_SUB} \<and> unsubscribe u k t sid subs = (Some m, subs)
      else \<exists>subs'. unsubscribe u k t sid subs = (None, subs') \<and> subs_ok subs'
         \<and> (\<forall>u' k' sid' t'. subscription subs' u' k' sid' t'
              = (if (u', k', sid', t') = (u, k, sid, t) then None else subscription subs u' k' sid' t')))"
  using unsubscribe_cases [OF assms, of u k sid t] put_subscription_ok [OF assms, of u k sid t] subscription_put
  by (auto simp: subscribe_cases)

theorem subscription_contract_witness:
  "\<exists>subs'. subscribe ''u'' ''k'' 5 7 [] = (None, subs') \<and> subs_ok subs' \<and> subscription subs' ''u'' ''k'' 7 5 = Some 7"
proof -
  have "subscription [] ''u'' ''k'' 7 5 = None" by (simp add: subscription_def)
  then show ?thesis using subscription_contract [OF subs_ok_Nil, of "''u''" "''k''" 7 5] by auto
qed

section \<open>Notification\<close>

definition key_notices :: "(session_id \<Rightarrow> bool) \<Rightarrow> (u64 \<Rightarrow> 'a) \<Rightarrow> (session_id, (u64, session_id) umap) umap
    \<Rightarrow> (session_id \<times> 'a) list" where
  "key_notices live f ks = concat (map (\<lambda>(sid, ts).
     map (\<lambda>(t, w). (w, f t)) (filter (\<lambda>(t, w). live w) ts)) ks)"

lemma umap_mem: "umap_ok m \<Longrightarrow> (k, v) \<in> set m \<longleftrightarrow> map_of m k = Some v"
  by (simp add: umap_ok_def)

lemma set_key_notices:
  assumes "nested_ok txs_ok ks"
  shows "set (key_notices live f ks)
    = {(sid, f t) | sid t. live sid \<and> Option.bind (map_of ks sid) (\<lambda>ts. map_of ts t) \<noteq> None}"
proof -
  note tx = nested_ok_lookup [OF assms]
  have ok: "umap_ok ks" "\<And>sid ts. map_of ks sid = Some ts \<Longrightarrow> umap_ok ts"
    using assms tx unfolding nested_ok_def by blast+
  have ok3: "w = sid" if "map_of ks sid = Some ts" "map_of ts t = Some w" for sid ts t w
    using nested_ok_lookup [OF tx [OF that(1)] that(2)] .
  have "(w, n) \<in> set (key_notices live f ks)
      \<longleftrightarrow> (\<exists>sid ts t. (sid, ts) \<in> set ks \<and> (t, w) \<in> set ts \<and> live w \<and> n = f t)" for w n
    by (auto simp: key_notices_def image_iff)
  moreover have "(sid, ts) \<in> set ks \<and> (t, w) \<in> set ts
      \<longleftrightarrow> w = sid \<and> map_of ks w = Some ts \<and> map_of ts t \<noteq> None" for sid ts t w
    using umap_mem [OF ok(1)] umap_mem [OF ok(2)] ok3 by (metis not_None_eq)
  ultimately have "(w, n) \<in> set (key_notices live f ks)
      \<longleftrightarrow> (\<exists>ts t. map_of ks w = Some ts \<and> map_of ts t \<noteq> None \<and> live w \<and> n = f t)" for w n
    by blast
  then have "x \<in> set (key_notices live f ks) \<longleftrightarrow>
      (\<exists>ts t. map_of ks (fst x) = Some ts \<and> map_of ts t \<noteq> None \<and> live (fst x) \<and> snd x = f t)" for x
    by (metis prod.collapse)
  then show ?thesis by (intro set_eqI) (fastforce simp: bind_eq_Some_conv)
qed

lemma distinct_key_notices:
  assumes "nested_ok txs_ok ks" "inj f"
  shows "distinct (key_notices live f ks)"
  using assms(1)
proof (induction ks)
  case (Cons e ks)
  obtain sid ts where e: "e = (sid, ts)" by fastforce
  have ts: "txs_ok sid ts" and fresh: "map_of ks sid = None" and ks: "nested_ok txs_ok ks"
    using Cons.prems e by (auto simp: nested_ok_def umap_ok_def map_of_eq_None_iff)
  let ?here = "map (\<lambda>(t, w). (w, f t)) (filter (\<lambda>(t, w). live w) ts)"
  have "distinct ts" using ts by (auto simp: nested_ok_def umap_ok_def distinct_map)
  then have "distinct ?here"
    using assms(2) by (auto simp: distinct_map inj_on_def inj_def)
  moreover have "set ?here \<inter> set (key_notices live f ks) = {}"
    unfolding set_key_notices [OF ks] using ts fresh by (auto simp: nested_ok_def)
  ultimately show ?case using Cons.IH [OF ks] e by (simp add: key_notices_def)
qed (simp add: key_notices_def)

lemma notify_sessions_key_notices:
  "notify_sessions live u update k v subs = key_notices live (subscription_notice u update k v)
     (at_or_empty (at_or_empty subs u) k)"
  by (simp add: notify_sessions_def key_notices_def at_or_empty_def split: option.splits)

lemma subscription_at:
  "subscription subs u k sid t = Option.bind (map_of (at_or_empty (at_or_empty subs u) k) sid) (\<lambda>ts. map_of ts t)"
  by (simp add: subscription_def at_or_empty_def split: option.splits)

lemma subscription_at3:
  "subscription subs u k sid t = map_of (at_or_empty (at_or_empty (at_or_empty subs u) k) sid) t"
  by (simp add: subscription_def at_or_empty_def split: option.splits)

lemma drop_empty_Nil: "drop_empty f [] = []"
  by (simp add: drop_empty_def)

lemma inj_notice: "inj (subscription_notice u b k v)"
  by (simp add: inj_def subscription_notice_def)

text \<open>
  A committed change of a key is reported to exactly its subscribers: each live session gets one
  datagram for each of its subscriptions of that key, carrying the transaction it subscribed with,
  and nobody else gets any; reads and other requests are not reported.
\<close>

theorem commit_notifies_subscribers:
  assumes "subs_ok subs"
  shows "distinct (inspect_commit live msg subs)
     \<and> set (inspect_commit live msg subs) =
        (case db_body msg of
           Db_create k v \<Rightarrow> {(sid, subscription_notice (db_uuid (db_header msg)) True k v t) | sid t.
             live sid \<and> subscription subs (db_uuid (db_header msg)) k sid t \<noteq> None}
         | Db_update k v \<Rightarrow> {(sid, subscription_notice (db_uuid (db_header msg)) True k v t) | sid t.
             live sid \<and> subscription subs (db_uuid (db_header msg)) k sid t \<noteq> None}
         | Db_delete k \<Rightarrow> {(sid, subscription_notice (db_uuid (db_header msg)) False k '''' t) | sid t.
             live sid \<and> subscription subs (db_uuid (db_header msg)) k sid t \<noteq> None}
         | _ \<Rightarrow> {})"
proof -
  have ok: "nested_ok txs_ok (at_or_empty (at_or_empty subs u) k)" for u k
    using nested_ok_at [OF nested_ok_at [OF assms [unfolded subs_ok_def]]] .
  have "distinct (notify_sessions live u b k v subs)
      \<and> set (notify_sessions live u b k v subs)
        = {(sid, subscription_notice u b k v t) | sid t. live sid \<and> subscription subs u k sid t \<noteq> None}" for u b k v
    unfolding notify_sessions_key_notices subscription_at
    using distinct_key_notices [OF ok inj_notice] set_key_notices [OF ok] by blast
  then show ?thesis by (simp add: inspect_commit_def Let_def split: database_body.split)
qed

section \<open>Purging\<close>

lemma at_drop_empty:
  assumes "umap_ok m" "f [] = []"
  shows "at_or_empty (drop_empty f m) k = f (at_or_empty m k)"
proof -
  have "distinct (map fst (map (\<lambda>(k, v). (k, f v)) m))"
    using assms by (simp add: umap_ok_def comp_def case_prod_beta)
  then have "map_of (drop_empty f m) k
      = (case map_of (map (\<lambda>(k, v). (k, f v)) m) k of None \<Rightarrow> None | Some v \<Rightarrow> if v \<noteq> [] then Some v else None)"
    unfolding drop_empty_def by (subst map_of_filter_distinct) (auto split: option.splits)
  also have "map_of (map (\<lambda>(k, v). (k, f v)) m) k = map_option f (map_of m k)"
    by (induction m) auto
  finally show ?thesis using assms(2) by (auto simp: at_or_empty_def split: option.splits)
qed

lemma nested_ok_drop_empty:
  assumes "nested_ok P m" "\<And>k v. P k v \<Longrightarrow> Q k (f v)"
  shows "nested_ok (\<lambda>k v. Q k v \<and> v \<noteq> []) (drop_empty f m)"
proof -
  have "distinct (map fst (filter (\<lambda>(k, v). v \<noteq> []) (map (\<lambda>(k, v). (k, f v)) m)))"
    using assms(1) by (intro distinct_map_filter) (simp add: nested_ok_def umap_ok_def comp_def case_prod_beta)
  with assms show ?thesis by (auto simp: nested_ok_def umap_ok_def drop_empty_def)
qed

lemma nested_ok_weaken: "nested_ok P m \<Longrightarrow> (\<And>k v. P k v \<Longrightarrow> Q k v) \<Longrightarrow> nested_ok Q m"
  by (auto simp: nested_ok_def)

text \<open>No map on any level is empty.\<close>

definition no_empty :: "subscribers \<Rightarrow> bool" where
  "no_empty subs \<longleftrightarrow> (\<forall>(u, db) \<in> set subs. db \<noteq> [] \<and> (\<forall>(k, ks) \<in> set db. ks \<noteq> [] \<and> (\<forall>(sid, ts) \<in> set ks. ts \<noteq> [])))"

lemma purge_shape:
  assumes "subs_ok subs"
  shows "nested_ok (\<lambda>_ db. nested_ok (\<lambda>_ ks. nested_ok (\<lambda>sid ts. txs_ok sid ts \<and> ts \<noteq> []) ks \<and> ks \<noteq> []) db \<and> db \<noteq> [])
    (purge_closed_sessions live False subs)"
proof -
  have 1: "txs_ok sid (filter (\<lambda>(t, w). live w) ts)" if "txs_ok sid ts" for sid ts
    using that by (auto simp: nested_ok_def umap_ok_def distinct_map_filter)
  have 2: "nested_ok (\<lambda>sid ts. txs_ok sid ts \<and> ts \<noteq> []) (drop_empty (filter (\<lambda>(t, w). live w)) ks)"
    if "nested_ok txs_ok ks" for ks
    using that 1 by (rule nested_ok_drop_empty)
  have 3: "nested_ok (\<lambda>_ ks. nested_ok (\<lambda>sid ts. txs_ok sid ts \<and> ts \<noteq> []) ks \<and> ks \<noteq> [])
      (drop_empty (drop_empty (filter (\<lambda>(t, w). live w))) db)" if "nested_ok key_ok db" for db
    using that 2 by (rule nested_ok_drop_empty)
  show ?thesis
    unfolding purge_closed_sessions_def using assms [unfolded subs_ok_def] 3 by (simp add: nested_ok_drop_empty)
qed

lemma purge_lookup:
  assumes "subs_ok subs"
  shows "subscription (purge_closed_sessions live False subs) u k sid t
    = (if live sid then subscription subs u k sid t else None)"
proof -
  let ?db = "at_or_empty subs u"
  let ?ks = "at_or_empty ?db k"
  let ?ts = "at_or_empty ?ks sid"
  let ?f = "filter (\<lambda>(t, w). live w)"
  have db: "nested_ok key_ok ?db" using assms unfolding subs_ok_def by (rule nested_ok_at)
  have ks: "nested_ok txs_ok ?ks" using db by (rule nested_ok_at)
  have ts: "txs_ok sid ?ts" using ks by (rule nested_ok_at)
  have um: "umap_ok subs" "umap_ok ?db" "umap_ok ?ks" "umap_ok ?ts"
    using assms db ks ts unfolding subs_ok_def nested_ok_def by blast+
  have "subscription (purge_closed_sessions live False subs) u k sid t = map_of (?f ?ts) t"
    using um by (simp add: subscription_at3 purge_closed_sessions_def at_drop_empty drop_empty_Nil)
  also have "\<dots> = (if live sid then map_of ?ts t else None)"
    using um(4) nested_ok_lookup [OF ts]
    by (subst map_of_filter_distinct) (auto simp: umap_ok_def split: option.splits)
  finally show ?thesis by (simp add: subscription_at3)
qed

text \<open>
  Purging removes exactly the subscriptions of sessions that are gone, keeps all others, and
  leaves no empty map behind on any level; a purge whose timer was cancelled does nothing.
\<close>

theorem purge_removes_dead:
  assumes "subs_ok subs"
  shows "subscription (purge_closed_sessions live False subs) u k sid t
       = (if live sid then subscription subs u k sid t else None)
     \<and> subs_ok (purge_closed_sessions live False subs)
     \<and> no_empty (purge_closed_sessions live False subs)
     \<and> purge_closed_sessions live True subs = subs"
proof -
  note s = purge_shape [OF assms, of live]
  have "subs_ok (purge_closed_sessions live False subs)"
    unfolding subs_ok_def by (rule nested_ok_weaken [OF s]) (blast intro: nested_ok_weaken)
  moreover have "no_empty (purge_closed_sessions live False subs)"
    using s unfolding no_empty_def nested_ok_def by fast
  ultimately show ?thesis using purge_lookup [OF assms] by (simp add: purge_closed_sessions_def)
qed

definition sample_subs :: subscribers where
  "sample_subs = snd (subscribe ''u'' ''k'' 5 7 (snd (subscribe ''u'' ''k'' 6 8 [])))"

lemma sample_subs_ok: "subs_ok sample_subs"
  by (simp add: sample_subs_def subscribe_cases put_subscription_ok)

theorem commit_notifies_subscribers_witness:
  "set (inspect_commit (\<lambda>s. s = 7) \<lparr>db_header = \<lparr>db_uuid = ''u'', transaction_id = 1\<rparr>, db_body = Db_delete ''k''\<rparr> sample_subs)
     = {(sid, subscription_notice ''u'' False ''k'' '''' t) | sid t. sid = 7 \<and> subscription sample_subs ''u'' ''k'' sid t \<noteq> None}"
  using commit_notifies_subscribers [OF sample_subs_ok, of "\<lambda>s. s = 7"
      "\<lparr>db_header = \<lparr>db_uuid = ''u'', transaction_id = 1\<rparr>, db_body = Db_delete ''k''\<rparr>"] by simp

theorem purge_removes_dead_witness:
  "subscription (purge_closed_sessions (\<lambda>s. s = 7) False sample_subs) ''u'' ''k'' 8 6 = None
     \<and> no_empty (purge_closed_sessions (\<lambda>s. s = 7) False sample_subs)"
  using purge_removes_dead [OF sample_subs_ok, of "\<lambda>s. s = 7" "''u''" "''k''" 8 6] by simp

end
