(* ===== verification/Raft_Crud.thy ===== *)
theory Raft_Crud
  imports Raft_Safety Crud Subscription
begin

text \<open>
  The database front end of the Raft stack, \<open>crud/raft_crud.cpp\<close>: client requests are answered from
  the storage, redirected to the leader, or appended to the Raft log; committed entries are applied
  to the storage and reported to the subscribers. The object's state is the record \<open>raft_crud\<close>, with
  the Raft participant, the storage (through its table of operations) and the subscription manager
  that it holds. What is sent to clients is appended to \<open>rc_sent\<close> and \<open>rc_datagrams\<close>.

  A client message is the JSON document that arrives; the documents are those of \<open>entry_msg\<close>.
\<close>

section \<open>State and helpers\<close>

record 's raft_crud =
  rc_raft :: raft
  rc_storage :: 's
  rc_subs :: subscribers
  rc_sent :: "(session_id \<times> database_response \<times> bool) list"
  rc_datagrams :: "(session_id \<times> database_response) list"

definition MSG_ELECTION_IN_PROGRESS :: string where "MSG_ELECTION_IN_PROGRESS = ''ELECTION_IN_PROGRESS''"
definition MSG_INVALID_ARGUMENTS :: string where "MSG_INVALID_ARGUMENTS = ''INVALID_ARGUMENTS''"

definition validate_value_size :: "nat \<Rightarrow> bool" where
  "validate_value_size n \<longleftrightarrow> MAX_VALUE_SIZE < n"

definition validate_key_size :: "nat \<Rightarrow> bool" where
  "validate_key_size n \<longleftrightarrow> MAX_KEY_SIZE < n"

definition set_leader_info :: "'s raft_crud \<Rightarrow> response_body res" where
  "set_leader_info st = bindE (get_leader_unsafe (rc_raft st)) (\<lambda>leader. Inr (Resp_redirect leader))"

definition append_request :: "raft_lib \<Rightarrow> entry_msg \<Rightarrow> 's raft_crud \<Rightarrow> 's raft_crud" where
  "append_request X msg st = st\<lparr>rc_raft := snd (append_log X msg LE_database (rc_raft st))\<rparr>"

section \<open>Requests\<close>

text \<open>A handler returns the body it puts into the response, \<open>Resp_not_set\<close> where it leaves it alone.\<close>

definition rc_handle_create ::
  "'s storage_vt \<Rightarrow> raft_lib \<Rightarrow> entry_msg \<Rightarrow> uuid_t \<Rightarrow> key_t \<Rightarrow> value_t \<Rightarrow> 's raft_crud \<Rightarrow> response_body \<times> 's raft_crud" where
  "rc_handle_create V X msg u k v st =
     (if validate_value_size (length v) then (Resp_error MSG_VALUE_SIZE_TOO_LARGE, st)
      else if validate_key_size (length k) then (Resp_error MSG_KEY_SIZE_TOO_LARGE, st)
      else if vt_has V (rc_storage st) u k then (Resp_error MSG_RECORD_EXISTS, st)
      else if current_state (rc_raft st) = Leader then (Resp_not_set, append_request X msg st)
      else (Resp_not_set, st))"

definition rc_handle_read :: "'s storage_vt \<Rightarrow> uuid_t \<Rightarrow> key_t \<Rightarrow> 's raft_crud \<Rightarrow> response_body res" where
  "rc_handle_read V u k st =
     (case vt_read V (rc_storage st) u k of
        Some record \<Rightarrow> Inr (Resp_read k record)
      | None \<Rightarrow>
          if current_state (rc_raft st) = Leader then Inr (Resp_error MSG_RECORD_NOT_FOUND)
          else set_leader_info st)"

definition rc_handle_update ::
  "'s storage_vt \<Rightarrow> raft_lib \<Rightarrow> entry_msg \<Rightarrow> uuid_t \<Rightarrow> key_t \<Rightarrow> value_t \<Rightarrow> 's raft_crud \<Rightarrow> (response_body \<times> 's raft_crud) res" where
  "rc_handle_update V X msg u k v st =
     (if validate_value_size (length v) then Inr (Resp_error MSG_VALUE_SIZE_TOO_LARGE, st)
      else if \<not> vt_has V (rc_storage st) u k then Inr (Resp_error MSG_RECORD_NOT_FOUND, st)
      else if current_state (rc_raft st) = Leader then Inr (Resp_not_set, append_request X msg st)
      else bindE (set_leader_info st) (\<lambda>b. Inr (b, st)))"

definition rc_handle_delete ::
  "'s storage_vt \<Rightarrow> raft_lib \<Rightarrow> entry_msg \<Rightarrow> uuid_t \<Rightarrow> key_t \<Rightarrow> 's raft_crud \<Rightarrow> (response_body \<times> 's raft_crud) res" where
  "rc_handle_delete V X msg u k st =
     (if current_state (rc_raft st) \<noteq> Leader then bindE (set_leader_info st) (\<lambda>b. Inr (b, st))
      else if vt_has V (rc_storage st) u k then Inr (Resp_not_set, append_request X msg st)
      else Inr (Resp_error MSG_RECORD_NOT_FOUND, st))"

definition rc_handle_get_keys :: "'s storage_vt \<Rightarrow> uuid_t \<Rightarrow> 's raft_crud \<Rightarrow> response_body" where
  "rc_handle_get_keys V u st = Resp_keys (vt_get_keys V (rc_storage st) u)"

definition rc_handle_has :: "'s storage_vt \<Rightarrow> uuid_t \<Rightarrow> key_t \<Rightarrow> 's raft_crud \<Rightarrow> response_body" where
  "rc_handle_has V u k st = Resp_has k (vt_has V (rc_storage st) u k)"

definition rc_handle_size :: "'s storage_vt \<Rightarrow> uuid_t \<Rightarrow> 's raft_crud \<Rightarrow> response_body" where
  "rc_handle_size V u st =
     (let (keys, size) = vt_get_size V (rc_storage st) u in Resp_size (word_of_nat size) (word_of_nat keys))"

definition do_candidate_tasks :: "'s raft_crud \<Rightarrow> response_body \<times> 's raft_crud" where
  "do_candidate_tasks st = (Resp_error MSG_ELECTION_IN_PROGRESS, st)"

definition do_leader_tasks ::
  "'s storage_vt \<Rightarrow> raft_lib \<Rightarrow> entry_msg \<Rightarrow> database_msg \<Rightarrow> 's raft_crud \<Rightarrow> (response_body \<times> 's raft_crud) res" where
  "do_leader_tasks V X msg request st =
     (let u = db_uuid (db_header request) in
      case db_body request of
        Db_create k v \<Rightarrow> Inr (rc_handle_create V X msg u k v st)
      | Db_read k \<Rightarrow> bindE (rc_handle_read V u k st) (\<lambda>b. Inr (b, st))
      | Db_update k v \<Rightarrow> rc_handle_update V X msg u k v st
      | Db_delete k \<Rightarrow> rc_handle_delete V X msg u k st
      | Db_keys \<Rightarrow> Inr (rc_handle_get_keys V u st, st)
      | Db_has k \<Rightarrow> Inr (rc_handle_has V u k st, st)
      | Db_size \<Rightarrow> Inr (rc_handle_size V u st, st)
      | _ \<Rightarrow> Inr (Resp_not_set, st))"

definition do_follower_tasks ::
  "'s storage_vt \<Rightarrow> raft_lib \<Rightarrow> entry_msg \<Rightarrow> database_msg \<Rightarrow> 's raft_crud \<Rightarrow> (response_body \<times> 's raft_crud) res" where
  "do_follower_tasks V X msg request st =
     (case db_body request of
        Db_read _ \<Rightarrow> do_leader_tasks V X msg request st
      | Db_keys \<Rightarrow> do_leader_tasks V X msg request st
      | Db_has _ \<Rightarrow> do_leader_tasks V X msg request st
      | Db_size \<Rightarrow> do_leader_tasks V X msg request st
      | _ \<Rightarrow> bindE (set_leader_info st) (\<lambda>b. Inr (b, st)))"

definition subscription_body :: "string option \<Rightarrow> response_body" where
  "subscription_body e = (case e of None \<Rightarrow> Resp_not_set | Some m \<Rightarrow> Resp_error m)"

definition do_raft_task_routing ::
  "'s storage_vt \<Rightarrow> raft_lib \<Rightarrow> entry_msg \<Rightarrow> database_msg \<Rightarrow> session_id \<Rightarrow> 's raft_crud \<Rightarrow> (response_body \<times> 's raft_crud) res" where
  "do_raft_task_routing V X msg request session st =
     (let u = db_uuid (db_header request) in
      case db_body request of
        Db_subscribe k \<Rightarrow>
          (let (e, subs) = subscribe u k (transaction_id (db_header request)) session (rc_subs st) in
           Inr (subscription_body e, st\<lparr>rc_subs := subs\<rparr>))
      | Db_unsubscribe k t \<Rightarrow>
          (let (e, subs) = unsubscribe u k t session (rc_subs st) in
           Inr (subscription_body e, st\<lparr>rc_subs := subs\<rparr>))
      | _ \<Rightarrow>
          (case current_state (rc_raft st) of
             Leader \<Rightarrow> do_leader_tasks V X msg request st
           | Candidate \<Rightarrow> Inr (do_candidate_tasks st)
           | Follower \<Rightarrow> do_follower_tasks V X msg request st))"

text \<open>\<open>ws_msg["msg"]\<close>: \<open>None\<close> when there is no such member.\<close>

definition msg_member :: "entry_msg \<Rightarrow> string option res" where
  "msg_member m = (case m of Msg_database w \<Rightarrow> Inr (Some w) | Msg_null \<Rightarrow> Inr None | Msg_other \<Rightarrow> Inr None
     | _ \<Rightarrow> Inl JSON_ERROR)"

definition rc_answer :: "session_id \<Rightarrow> database_response \<Rightarrow> bool \<Rightarrow> 's raft_crud \<Rightarrow> 's raft_crud" where
  "rc_answer session response end_session st = st\<lparr>rc_sent := rc_sent st @ [(session, response, end_session)]\<rparr>"

definition handle_ws_crud_messages ::
  "'s storage_vt \<Rightarrow> raft_lib \<Rightarrow> entry_msg \<Rightarrow> session_id \<Rightarrow> 's raft_crud \<Rightarrow> 's raft_crud res" where
  "handle_ws_crud_messages V X ws_msg session st =
     bindE (msg_member ws_msg) (\<lambda>member.
     case member of
       None \<Rightarrow> Inr (rc_answer session (default_response\<lparr>resp_body := Resp_error MSG_INVALID_CRUD_COMMAND\<rparr>) True st)
     | Some w \<Rightarrow>
         (case parse_bzn X w of
            None \<Rightarrow> Inr (rc_answer session (default_response\<lparr>resp_body := Resp_error MSG_INVALID_CRUD_COMMAND\<rparr>) True st)
          | Some (Bzn_db request) \<Rightarrow>
              bindE (do_raft_task_routing V X ws_msg request session st) (\<lambda>(b, st).
                Inr (rc_answer session \<lparr>resp_header = db_header request, resp_body = b\<rparr> False st))
          | Some _ \<Rightarrow>
              Inr (rc_answer session (default_response\<lparr>resp_body := Resp_error MSG_INVALID_ARGUMENTS\<rparr>) True st)))"

section \<open>Commits\<close>

definition commit_create :: "'s storage_vt \<Rightarrow> uuid_t \<Rightarrow> key_t \<Rightarrow> value_t \<Rightarrow> 's \<Rightarrow> bool \<times> 's" where
  "commit_create V u k v s = (let (r, s') = vt_create V s u k v in (r = result_ok, s'))"

definition commit_update :: "'s storage_vt \<Rightarrow> uuid_t \<Rightarrow> key_t \<Rightarrow> value_t \<Rightarrow> 's \<Rightarrow> bool \<times> 's" where
  "commit_update V u k v s = (let (r, s') = vt_update V s u k v in (r = result_ok, s'))"

definition commit_delete :: "'s storage_vt \<Rightarrow> uuid_t \<Rightarrow> key_t \<Rightarrow> 's \<Rightarrow> bool \<times> 's" where
  "commit_delete V u k s = (let (r, s') = vt_remove V s u k in (r = result_ok, s'))"

text \<open>The entry of \<open>commit_handlers\<close> for a message, \<open>None\<close> when there is none.\<close>

definition commit_database :: "'s storage_vt \<Rightarrow> database_msg \<Rightarrow> 's \<Rightarrow> (bool \<times> 's) option" where
  "commit_database V msg s =
     (let u = db_uuid (db_header msg) in
      case db_body msg of
        Db_create k v \<Rightarrow> Some (commit_create V u k v s)
      | Db_update k v \<Rightarrow> Some (commit_update V u k v s)
      | Db_delete k \<Rightarrow> Some (commit_delete V u k s)
      | _ \<Rightarrow> None)"

text \<open>The handler that \<open>raft_crud::start\<close> registers for committed log entries.\<close>

definition commit_handler ::
  "'s storage_vt \<Rightarrow> raft_lib \<Rightarrow> (session_id \<Rightarrow> bool) \<Rightarrow> entry_msg \<Rightarrow> 's raft_crud \<Rightarrow> 's raft_crud" where
  "commit_handler V X live ws_msg st =
     (case ws_msg of
        Msg_database w \<Rightarrow>
          (case parse_bzn X w of
             Some (Bzn_db msg) \<Rightarrow>
               (case commit_database V msg (rc_storage st) of
                  Some (ok, s) \<Rightarrow>
                    (let st = st\<lparr>rc_storage := s\<rparr> in
                     if ok then st\<lparr>rc_datagrams := rc_datagrams st @ inspect_commit live msg (rc_subs st)\<rparr> else st)
                | None \<Rightarrow> st)
           | _ \<Rightarrow> st)
      | _ \<Rightarrow> st)"

section \<open>A node\<close>

text \<open>
  A node of the Raft stack: client messages, and steps of its Raft participant after which the
  entries they committed have gone through the commit handler. The participant does not look at the
  storage, so it makes no difference that the code calls the handler within the step.
\<close>

definition new_commits :: "raft \<Rightarrow> raft \<Rightarrow> entry_msg list" where
  "new_commits r r' = drop (length (committed r)) (committed r')"

inductive node_step :: "'s storage_vt \<Rightarrow> raft_lib \<Rightarrow> 's raft_crud \<Rightarrow> 's raft_crud \<Rightarrow> bool" for V X where
  client: "handle_ws_crud_messages V X ws session st = Inr st' \<Longrightarrow> node_step V X st st'"
| participant: "raft_step X (rc_raft st) r
    \<Longrightarrow> node_step V X st (fold (commit_handler V X live) (new_commits (rc_raft st) r) (st\<lparr>rc_raft := r\<rparr>))"

inductive node_run :: "'s storage_vt \<Rightarrow> raft_lib \<Rightarrow> 's raft_crud \<Rightarrow> 's raft_crud \<Rightarrow> bool" for V X where
  node_refl: "node_run V X st st"
| node_next: "node_run V X st st' \<Longrightarrow> small_log (rc_raft st') \<Longrightarrow> node_step V X st' st'' \<Longrightarrow> node_run V X st st''"

definition new_node :: "raft \<Rightarrow> 's \<Rightarrow> 's raft_crud" where
  "new_node r s = \<lparr>rc_raft = r, rc_storage = s, rc_subs = [], rc_sent = [], rc_datagrams = []\<rparr>"

text \<open>What a committed payload does to the storage.\<close>

definition commit_storage :: "'s storage_vt \<Rightarrow> raft_lib \<Rightarrow> entry_msg \<Rightarrow> 's \<Rightarrow> 's" where
  "commit_storage V X m s =
     (case m of Msg_database w \<Rightarrow> (case parse_bzn X w of Some b \<Rightarrow> apply_to_storage V (bzn_db b) s | None \<Rightarrow> s)
      | _ \<Rightarrow> s)"

lemma commit_handler_storage:
  "rc_storage (commit_handler V X live m st) = commit_storage V X m (rc_storage st)
   \<and> rc_raft (commit_handler V X live m st) = rc_raft st"
  by (simp add: commit_handler_def commit_storage_def commit_database_def apply_to_storage_def bzn_db_def
      commit_create_def commit_update_def commit_delete_def default_database_msg_def Let_def
      split: entry_msg.split option.split bzn_msg.split database_body.split prod.split)

lemma fold_commit_handler:
  "rc_storage (fold (commit_handler V X live) ms st) = fold (commit_storage V X) ms (rc_storage st)
   \<and> rc_raft (fold (commit_handler V X live) ms st) = rc_raft st"
  by (induction ms arbitrary: st) (simp_all add: commit_handler_storage)

text \<open>Entries whose type says whether the payload is a database request, as both sides of the code make them.\<close>

definition typed_entry :: "log_entry \<Rightarrow> bool" where
  "typed_entry e \<longleftrightarrow> (entry_type e = LE_database \<longleftrightarrow> (\<exists>w. le_msg e = Msg_database w))"

interpretation typed: logged_entries typed_entry
  by unfold_locales
    (auto simp: typed_entry_def deduce_type_from_message_def split: entry_msg.splits option.splits)

lemma replay_typed: "typed_entry e \<Longrightarrow> replay_entry X V e s = Inr (commit_storage V X (le_msg e) s)"
  by (auto simp: typed_entry_def replay_entry_def commit_storage_def split: entry_msg.splits option.splits)

lemma replay_entries_typed:
  "\<forall>e \<in> set es. typed_entry e \<Longrightarrow> replay_entries X V es s = Inr (fold (commit_storage V X) (map le_msg es) s)"
  by (induction es arbitrary: s) (simp_all add: replay_typed)

definition node_ok :: "'s storage_vt \<Rightarrow> raft_lib \<Rightarrow> 's \<Rightarrow> 's raft_crud \<Rightarrow> bool" where
  "node_ok V X s st \<longleftrightarrow> raft_ok typed_entry (rc_raft st)
     \<and> entry_type (hd (log_entries (r_log (rc_raft st)))) \<noteq> LE_database
     \<and> rc_storage st = fold (commit_storage V X) (committed (rc_raft st)) s"

definition appended :: "raft_lib \<Rightarrow> entry_msg \<Rightarrow> 's raft_crud \<Rightarrow> 's raft_crud \<Rightarrow> bool" where
  "appended X msg st st' \<longleftrightarrow> rc_storage st' = rc_storage st
     \<and> (rc_raft st' = rc_raft st \<or> rc_raft st' = snd (append_log X msg LE_database (rc_raft st)))"

lemma appended_refl [simp]: "appended X msg st st"
  by (simp add: appended_def)

lemma leader_tasks_append:
  "do_leader_tasks V X msg request st = Inr (b, st') \<Longrightarrow> appended X msg st st'"
  by (cases "db_body request")
    (auto simp: do_leader_tasks_def rc_handle_create_def rc_handle_update_def rc_handle_delete_def
      append_request_def appended_def split: if_splits)

lemma follower_tasks_append:
  "do_follower_tasks V X msg request st = Inr (b, st') \<Longrightarrow> appended X msg st st'"
  by (cases "db_body request") (auto simp: do_follower_tasks_def appended_def dest: leader_tasks_append [unfolded appended_def])

lemma routing_append:
  assumes "do_raft_task_routing V X msg request session st = Inr (b, st')"
  shows "appended X msg st st'"
proof (cases "\<exists>k t. db_body request = Db_subscribe k \<or> db_body request = Db_unsubscribe k t")
  case True
  then show ?thesis using assms by (auto simp: do_raft_task_routing_def appended_def case_prod_beta Let_def)
next
  case False
  then have "(case current_state (rc_raft st) of
             Leader \<Rightarrow> do_leader_tasks V X msg request st
           | Candidate \<Rightarrow> Inr (do_candidate_tasks st)
           | Follower \<Rightarrow> do_follower_tasks V X msg request st) = Inr (b, st')"
    using assms by (cases "db_body request") (simp_all add: do_raft_task_routing_def)
  then show ?thesis
    by (cases "current_state (rc_raft st)")
      (auto simp: do_candidate_tasks_def intro: leader_tasks_append follower_tasks_append)
qed

lemma request_append:
  assumes "handle_ws_crud_messages V X ws session st = Inr st'"
  shows "rc_storage st' = rc_storage st
     \<and> (rc_raft st' = rc_raft st \<or> (\<exists>w. rc_raft st' = snd (append_log X (Msg_database w) LE_database (rc_raft st))))"
proof (cases "rc_storage st' = rc_storage st \<and> rc_raft st' = rc_raft st")
  case False
  then obtain w request b s where "ws = Msg_database w" "do_raft_task_routing V X ws request session st = Inr (b, s)"
      "st' = rc_answer session \<lparr>resp_header = db_header request, resp_body = b\<rparr> False s"
    using assms
    by (auto simp: handle_ws_crud_messages_def msg_member_def rc_answer_def split: entry_msg.splits option.splits bzn_msg.splits)
  then show ?thesis using routing_append [of V X ws request session st b s] by (auto simp: appended_def rc_answer_def)
qed simp

lemma grows_hd: "raft_ok P st \<Longrightarrow> grows P st st' \<Longrightarrow> hd (log_entries (r_log st')) = hd (log_entries (r_log st))"
  by (cases "log_entries (r_log st)") (auto simp: raft_ok_def grows_def prefix_def)

text \<open>A client request keeps the invariant: at most it appends to the log.\<close>

lemma append_node_ok:
  assumes ok: "node_ok V X s st" and small: "small_log (rc_raft st)" and keep: "rc_storage st' = rc_storage st"
    and a: "rc_raft st' = rc_raft st \<or> (\<exists>w. rc_raft st' = snd (append_log X (Msg_database w) LE_database (rc_raft st)))"
  shows "node_ok V X s st' \<and> grows typed_entry (rc_raft st) (rc_raft st')"
proof -
  from a have r: "rc_raft st' = rc_raft st \<or> raft_step X (rc_raft st) (rc_raft st')"
    by (metis prod.collapse raft_step.append)
  then have g: "grows typed_entry (rc_raft st) (rc_raft st')"
    using ok small typed.step_grows grows_refl unfolding node_ok_def by metis
  have "committed (rc_raft st') = committed (rc_raft st)"
    using a by (auto simp: append_log_def append_log_unsafe_def committed_def)
  with g keep ok grows_hd [OF _ g] grows_ok [OF g] show ?thesis by (simp add: node_ok_def)
qed

lemma node_step_ok:
  assumes ok: "node_ok V X s st" and small: "small_log (rc_raft st)" and step: "node_step V X st st'"
  shows "node_ok V X s st' \<and> grows typed_entry (rc_raft st) (rc_raft st')"
  using step
proof cases
  case (client ws session)
  then show ?thesis using append_node_ok [OF ok small] request_append by blast
next
  case (participant r live)
  have g: "grows typed_entry (rc_raft st) r"
    using ok small participant(2) typed.step_grows unfolding node_ok_def by blast
  then have c: "committed r = committed (rc_raft st) @ new_commits (rc_raft st) r"
    by (auto simp: grows_def new_commits_def prefix_def)
  have st': "rc_raft st' = r"
    "rc_storage st' = fold (commit_storage V X) (new_commits (rc_raft st) r) (rc_storage st)"
    using participant(1) fold_commit_handler [of V X live "new_commits (rc_raft st) r" "st\<lparr>rc_raft := r\<rparr>"] by simp_all
  have "rc_storage st' = fold (commit_storage V X) (committed r) s"
    using ok c st'(2) by (simp add: node_ok_def)
  with g st'(1) ok grows_hd [OF _ g] grows_ok [OF g] show ?thesis by (simp add: node_ok_def)
qed

lemma node_run_ok: "node_run V X st st' \<Longrightarrow> node_ok V X s st \<Longrightarrow> node_ok V X s st'"
  by (induction rule: node_run.induct) (auto dest: node_step_ok)

lemma fresh_log:
  assumes "codec_wf (r_codec X) {Msg_single (Some (map to_peer_message peers))}"
    and "new_raft X peers u None m v key = Inr r"
  shows "log_entries (r_log r) = [\<lparr>entry_type = LE_single_quorum, log_index = 0, le_term = 0,
     le_msg = Msg_single (Some (map to_peer_message peers))\<rparr>]"
proof -
  let ?e = "\<lparr>entry_type = LE_single_quorum, log_index = 0, le_term = 0,
     le_msg = Msg_single (Some (map to_peer_message peers))\<rparr>"
  have "new_raft_log (r_codec X) (Some (print_entries (r_codec X) [?e])) m = Inr (log_on_file (r_codec X) [?e] m)"
    by (rule new_raft_log_printed [OF assms(1)]) (simp_all add: named_type_def)
  then show ?thesis
    using assms(2) by (auto simp: new_raft_def create_dat_file_def print_entries_def log_on_file_def
        shutdown_on_exceeded_max_storage_def split: if_splits)
qed

lemma new_node_ok:
  assumes "codec_wf (r_codec X) {Msg_single (Some (map to_peer_message peers))}"
    and "new_raft X peers u None m v key = Inr r"
  shows "node_ok V X s (new_node r s)"
proof -
  note l = fresh_log [OF assms]
  have "raft_ok typed_entry r"
    using typed.new_raft_ok [OF assms(2)] l by (simp add: typed_entry_def)
  moreover from this have "committed r = []" using l by (simp add: raft_ok_def take_Cons')
  ultimately show ?thesis using l by (simp add: node_ok_def new_node_def)
qed

lemma reachable_node_ok:
  assumes "codec_wf (r_codec X) {Msg_single (Some (map to_peer_message peers))}"
    and "new_raft X peers u None m v key = Inr r" "node_run V X (new_node r s) st"
  shows "node_ok V X s st"
  using new_node_ok [OF assms(1,2)] by (rule node_run_ok [OF assms(3)])

lemma node_replay:
  assumes ok: "node_ok V X s st"
  shows "replay_entries X V (take (unat (commit_index (rc_raft st))) (log_entries (r_log (rc_raft st)))) s
       = Inr (rc_storage st)"
proof -
  let ?es = "log_entries (r_log (rc_raft st))" and ?c = "unat (commit_index (rc_raft st))"
  obtain e es where es: "take ?c ?es = e # es"
    using ok by (cases "take ?c ?es") (auto simp: node_ok_def raft_ok_def)
  have "e = hd ?es" using es by (metis hd_take list.sel(1) take_eq_Nil2 list.distinct(1) not_gr_zero)
  then have e: "entry_type e \<noteq> LE_database" using ok by (simp add: node_ok_def)
  have ty: "\<forall>x \<in> set (e # es). typed_entry x"
    using ok es set_take_subset [of ?c ?es] unfolding node_ok_def raft_ok_def by auto
  have c: "rc_storage st = fold (commit_storage V X) (map le_msg es) s"
    using ok es by (simp add: node_ok_def raft_ok_def)
  have "commit_storage V X (le_msg e) s = s"
    using e ty by (auto simp: typed_entry_def commit_storage_def split: entry_msg.splits)
  then show ?thesis unfolding es replay_entries_typed [OF ty] c by simp
qed

text \<open>
  The database of a node of the Raft stack is at every moment the one that replaying the committed
  part of its log on the initial database gives, whatever client requests and Raft messages it has
  handled; and when the whole log is committed, it is the one that \<open>initialize_storage_from_log\<close> rebuilds
  after a restart. This holds for every storage implementation.
\<close>

theorem raft_storage_is_replay:
  assumes "codec_wf (r_codec X) {Msg_single (Some (map to_peer_message peers))}"
    and "new_raft X peers u None m v key = Inr r" "node_run V X (new_node r s) st"
  shows "replay_entries X V (take (unat (commit_index (rc_raft st))) (log_entries (r_log (rc_raft st)))) s
       = Inr (rc_storage st)
     \<and> (unat (commit_index (rc_raft st)) = length (log_entries (r_log (rc_raft st)))
          \<longrightarrow> initialize_storage_from_log X V (rc_raft st) s = Inr (rc_storage st))"
  using node_replay [OF reachable_node_ok [OF assms]] by (auto simp: initialize_storage_from_log_def)

text \<open>
  C22: Where a client's create, update or delete request goes. No node executes it at once: the storage
  stays as it is. A candidate answers that an election is in progress and a follower with the address
  of the leader it knows, and neither touches its log; a leader either answers with an error and
  leaves its log alone, or answers without one and has the request as the last entry of its log.
\<close>

theorem raft_write_routing:
  assumes "parse_bzn X w = Some (Bzn_db request)"
    and "\<exists>k v. db_body request = Db_create k v \<or> db_body request = Db_update k v \<or> db_body request = Db_delete k"
    and "handle_ws_crud_messages V X (Msg_database w) session st = Inr st'"
  shows "rc_storage st' = rc_storage st
    \<and> (\<exists>b. rc_sent st' = rc_sent st @ [(session, \<lparr>resp_header = db_header request, resp_body = b\<rparr>, False)]
      \<and> (case current_state (rc_raft st) of
           Candidate \<Rightarrow> rc_raft st' = rc_raft st \<and> b = Resp_error MSG_ELECTION_IN_PROGRESS
         | Follower \<Rightarrow> rc_raft st' = rc_raft st \<and> (\<exists>p. get_leader_unsafe (rc_raft st) = Inr p \<and> b = Resp_redirect p)
         | Leader \<Rightarrow>
             if b = Resp_not_set
             then log_entries (r_log (rc_raft st')) = log_entries (r_log (rc_raft st))
                @ [\<lparr>entry_type = LE_database, log_index = word_of_nat (log_size (r_log (rc_raft st))),
                    le_term = current_term (rc_raft st), le_msg = Msg_database w\<rparr>]
             else rc_raft st' = rc_raft st \<and> (\<exists>e. b = Resp_error e)))"
proof -
  obtain b s where r: "do_raft_task_routing V X (Msg_database w) request session st = Inr (b, s)"
    and st': "st' = rc_answer session \<lparr>resp_header = db_header request, resp_body = b\<rparr> False s"
    using assms(1,3) by (auto simp: handle_ws_crud_messages_def msg_member_def)
  show ?thesis
  proof (cases "current_state (rc_raft st)")
    case Candidate
    then show ?thesis
      using r st' assms(2) by (auto simp: do_raft_task_routing_def do_candidate_tasks_def rc_answer_def Let_def)
  next
    case Follower
    then show ?thesis
      using r st' assms(2)
      by (auto simp: do_raft_task_routing_def do_follower_tasks_def set_leader_info_def rc_answer_def Let_def)
  next
    case Leader
    then show ?thesis
      using r st' assms(2)
      by (auto simp: do_raft_task_routing_def do_leader_tasks_def rc_handle_create_def rc_handle_update_def
          rc_handle_delete_def append_request_def append_log_def append_log_unsafe_def leader_append_entry_def
          rc_answer_def Let_def split: if_splits)
  qed
qed

section \<open>A small node\<close>

definition sample_create :: database_msg where
  "sample_create = \<lparr>db_header = \<lparr>db_uuid = ''u'', transaction_id = 1\<rparr>, db_body = Db_create ''k'' ''v''\<rparr>"

definition sample_db_rlib :: raft_lib where
  "sample_db_rlib = sample_rlib\<lparr>parse_bzn := \<lambda>_. Some (Bzn_db sample_create)\<rparr>"

lemma sample_db_new: "new_raft sample_db_rlib sample_peers u None 1000 False '''' = Inr (sample_raft u)"
proof -
  have "new_raft sample_db_rlib sample_peers u None 1000 False ''''
      = new_raft sample_rlib sample_peers u None 1000 False ''''"
    by (simp add: new_raft_def create_dat_file_def sample_db_rlib_def)
  then show ?thesis by (simp add: sample_raft_new)
qed

lemma sample_db_codec: "codec_wf (r_codec sample_db_rlib) {Msg_single (Some (map to_peer_message sample_peers))}"
  by (simp add: sample_db_rlib_def sample_rlib_def sample_log_codec_wf)

lemma sample_node_run:
  "\<exists>st. node_run V sample_db_rlib (new_node (sample_raft ''a'') s) st
     \<and> rc_storage st = apply_to_storage V sample_create s
     \<and> map le_msg (log_entries (r_log (rc_raft st))) = [le_msg sample_first_entry, Msg_database ''m'']
     \<and> unat (commit_index (rc_raft st)) = 2"
proof -
  let ?st = "new_node (sample_raft ''a'') s" and ?m = "Msg_database ''m''"
  have "case handle_ws_raft_messages sample_db_rlib sample_append 0 (sample_raft ''a'') of Inl _ \<Rightarrow> False
     | Inr r \<Rightarrow> new_commits (sample_raft ''a'') r = [?m] \<and> unat (commit_index r) = 2
         \<and> map le_msg (log_entries (r_log r)) = [le_msg sample_first_entry, ?m]"
    by code_simp
  then obtain r where r: "handle_ws_raft_messages sample_db_rlib sample_append 0 (sample_raft ''a'') = Inr r"
    and c: "new_commits (sample_raft ''a'') r = [?m]" "unat (commit_index r) = 2"
      "map le_msg (log_entries (r_log r)) = [le_msg sample_first_entry, ?m]"
    by (auto split: sum.splits)
  have q: "rc_raft ?st = sample_raft ''a''" "rc_storage ?st = s" by (simp_all add: new_node_def)
  have "raft_step sample_db_rlib (rc_raft ?st) r" using raft_step.message [OF r] q by simp
  from node_step.participant [OF this, of V "\<lambda>_. True"]
  have "node_run V sample_db_rlib ?st (commit_handler V sample_db_rlib (\<lambda>_. True) ?m (?st\<lparr>rc_raft := r\<rparr>))"
    using node_next [OF node_refl, of ?st] sample_raft_small q c(1) by simp
  moreover have "commit_storage V sample_db_rlib ?m s = apply_to_storage V sample_create s"
    by (simp add: commit_storage_def sample_db_rlib_def bzn_db_def)
  ultimately show ?thesis
    using c q by (intro exI [of _ "commit_handler V sample_db_rlib (\<lambda>_. True) ?m (?st\<lparr>rc_raft := r\<rparr>)"])
      (simp add: commit_handler_storage)
qed

theorem raft_storage_is_replay_witness:
  "\<exists>st. node_run mem_vt sample_db_rlib (new_node (sample_raft ''a'') []) st
     \<and> mem_read (rc_storage st) ''u'' ''k'' = Some ''v''
     \<and> replay_entries sample_db_rlib mem_vt
         (take (unat (commit_index (rc_raft st))) (log_entries (r_log (rc_raft st)))) [] = Inr (rc_storage st)"
proof -
  obtain st where st: "node_run mem_vt sample_db_rlib (new_node (sample_raft ''a'') []) st"
    "rc_storage st = apply_to_storage mem_vt sample_create []"
    using sample_node_run [of mem_vt "[]"] by blast
  then have "mem_read (rc_storage st) ''u'' ''k'' = Some ''v''"
    by (simp add: sample_create_def apply_to_storage_def mem_vt_def mem_create_def mem_read_def
        MAX_VALUE_SIZE_def MAX_KEY_SIZE_def)
  with st(1) raft_storage_is_replay [OF sample_db_codec sample_db_new st(1)] show ?thesis by blast
qed

theorem raft_write_routing_witness:
  "\<exists>st'. handle_ws_crud_messages mem_vt sample_db_rlib (Msg_database ''m'') 7
        (new_node (sample_raft ''a''\<lparr>current_state := Leader\<rparr>) []) = Inr st'
     \<and> rc_storage st' = []
     \<and> rc_sent st' = [(7, \<lparr>resp_header = db_header sample_create, resp_body = Resp_not_set\<rparr>, False)]
     \<and> map le_msg (log_entries (r_log (rc_raft st'))) = [le_msg sample_first_entry, Msg_database ''m'']"
proof -
  let ?st = "new_node (sample_raft ''a''\<lparr>current_state := Leader\<rparr>) ([] :: mem_storage)"
  have "\<exists>st'. handle_ws_crud_messages mem_vt sample_db_rlib (Msg_database ''m'') 7 ?st = Inr st'
     \<and> rc_sent st' = [(7, \<lparr>resp_header = db_header sample_create, resp_body = Resp_not_set\<rparr>, False)]"
    by (simp add: handle_ws_crud_messages_def msg_member_def sample_db_rlib_def do_raft_task_routing_def
        do_leader_tasks_def rc_handle_create_def validate_value_size_def validate_key_size_def sample_create_def
        new_node_def mem_vt_def mem_has_def mem_get_keys_def append_request_def rc_answer_def MAX_VALUE_SIZE_def MAX_KEY_SIZE_def)
  then obtain st' where st': "handle_ws_crud_messages mem_vt sample_db_rlib (Msg_database ''m'') 7 ?st = Inr st'"
    and b: "rc_sent st' = [(7, \<lparr>resp_header = db_header sample_create, resp_body = Resp_not_set\<rparr>, False)]"
    by blast
  have p: "parse_bzn sample_db_rlib ''m'' = Some (Bzn_db sample_create)" by (simp add: sample_db_rlib_def)
  have q: "\<exists>k v. db_body sample_create = Db_create k v \<or> db_body sample_create = Db_update k v
      \<or> db_body sample_create = Db_delete k"
    by (simp add: sample_create_def)
  have st: "current_state (rc_raft ?st) = Leader" "rc_storage ?st = []" "rc_sent ?st = []"
    "log_entries (r_log (rc_raft ?st)) = [sample_first_entry]"
    by (simp_all add: new_node_def sample_raft_def log_on_file_def)
  note r = raft_write_routing [OF p q st', unfolded st raft_state.case]
  then obtain b' where b': "rc_sent st' = [] @ [(7, \<lparr>resp_header = db_header sample_create, resp_body = b'\<rparr>, False)]"
    and l: "b' = Resp_not_set \<Longrightarrow> map le_msg (log_entries (r_log (rc_raft st'))) = map le_msg [sample_first_entry] @ [Msg_database ''m'']"
    by (auto simp del: append_Nil split: if_splits)
  have "b' = Resp_not_set" using b b' by simp
  with l r st' b show ?thesis by simp
qed

end
