(* ===== verification/Http.thy ===== *)
theory Http
  imports Raft_Crud
begin

text \<open>
  The HTTP interface of the Raft stack, \<open>http/connection.cpp\<close>: one connection reads one request
  \<open>/<req>/<uuid>/<key>\<close>, calls the handler of \<open>raft_crud\<close> for it and writes one response. The socket
  and the timer are effects: what is written is appended to \<open>hc_written\<close>.

  Beast's request and response are the records \<open>http_request\<close> and \<open>http_response\<close>, with the fields
  the code sets. Serialising a message and encoding it in base64 is the parameter \<open>to_wire\<close>; the JSON
  document around it is \<open>Msg_database\<close>.
\<close>

section \<open>Requests and responses\<close>

datatype http_verb = Verb_get | Verb_post | Verb_other

datatype http_status = Status_ok | Status_bad_request | Status_temporary_redirect

record http_request =
  hq_method :: http_verb
  hq_target :: string
  hq_body :: string
  hq_version :: nat

record http_response =
  hs_result :: http_status
  hs_location :: "string option"
  hs_body :: string
  hs_version :: nat
  hs_server :: string
  hs_content_type :: string
  hs_content_length :: nat
  hs_keep_alive :: bool

definition default_http_response :: http_response where
  "default_http_response = \<lparr>hs_result = Status_ok, hs_location = None, hs_body = '''', hs_version = 11,
     hs_server = '''', hs_content_type = '''', hs_content_length = 0, hs_keep_alive = True\<rparr>"

definition CREATE_REQ :: string where "CREATE_REQ = ''create''"
definition READ_REQ :: string where "READ_REQ = ''read''"
definition UPDATE_REQ :: string where "UPDATE_REQ = ''update''"
definition DELETE_REQ :: string where "DELETE_REQ = ''delete''"

definition MAX_PATH_SIZE :: nat where "MAX_PATH_SIZE = 4"

lemmas http_verbs = CREATE_REQ_def READ_REQ_def UPDATE_REQ_def DELETE_REQ_def

text \<open>\<open>boost::split(path, target, boost::is_any_of("/"))\<close>, without compression of adjacent separators.\<close>

fun split_path :: "string \<Rightarrow> string list" where
  "split_path [] = [[]]"
| "split_path (c # cs) =
     (if c = CHR ''/'' then [] # split_path cs
      else (case split_path cs of t # ts \<Rightarrow> (c # t) # ts | [] \<Rightarrow> [[c]]))"

definition format_http_response :: "string \<Rightarrow> response_body \<Rightarrow> http_response \<Rightarrow> http_response" where
  "format_http_response target response http =
     (case response of
        Resp_redirect leader \<Rightarrow>
          if pa_host leader \<noteq> []
          then http\<lparr>hs_result := Status_temporary_redirect,
                 hs_location := Some (''http://'' @ pa_host leader @ '':'' @ to_string (ucast (pa_http_port leader)) @ target)\<rparr>
          else http\<lparr>hs_body := hs_body http @ ''err''\<rparr>
      | Resp_read _ v \<Rightarrow> http\<lparr>hs_body := hs_body http @ ''ack'' @ v\<rparr>
      | Resp_error _ \<Rightarrow> http\<lparr>hs_body := hs_body http @ ''err''\<rparr>
      | _ \<Rightarrow> http\<lparr>hs_body := hs_body http @ ''ack''\<rparr>)"

section \<open>The connection\<close>

record http_connection =
  hc_request :: http_request
  hc_response :: http_response
  hc_reading :: bool
  hc_deadline :: bool
  hc_closed :: bool
  hc_written :: "http_response list"
  hc_started :: bool

definition start_deadline_timer :: "http_connection \<Rightarrow> http_connection" where
  "start_deadline_timer c = c\<lparr>hc_deadline := True\<rparr>"

definition do_read_request :: "http_connection \<Rightarrow> http_connection" where
  "do_read_request c = (start_deadline_timer c)\<lparr>hc_reading := True\<rparr>"

definition connection_start :: "http_connection \<Rightarrow> http_connection" where
  "connection_start c = (if hc_started c then c else do_read_request (c\<lparr>hc_started := True\<rparr>))"

text \<open>The wait of the deadline timer ends: \<open>ec\<close> is set when it was cancelled.\<close>

definition deadline_handler :: "bool \<Rightarrow> http_connection \<Rightarrow> http_connection" where
  "deadline_handler ec c = (let c = c\<lparr>hc_deadline := False\<rparr> in if \<not> ec then c\<lparr>hc_closed := True\<rparr> else c)"

definition write_response :: "string \<Rightarrow> http_connection \<Rightarrow> http_connection" where
  "write_response version c =
     (let r = (hc_response c)\<lparr>hs_version := hq_version (hc_request c), hs_server := ''Bluzelle/'' @ version,
           hs_content_type := ''text/plain'', hs_content_length := length (hs_body (hc_response c)), hs_keep_alive := False\<rparr>
      in c\<lparr>hc_response := r, hc_written := hc_written c @ [r]\<rparr>)"

definition make_request :: "uuid_t \<Rightarrow> database_body \<Rightarrow> database_msg" where
  "make_request u b = \<lparr>db_header = default_header\<lparr>db_uuid := u\<rparr>, db_body = b\<rparr>"

definition bad_request :: "http_connection \<Rightarrow> http_connection" where
  "bad_request c = c\<lparr>hc_response := (hc_response c)\<lparr>hs_result := Status_bad_request\<rparr>\<rparr>"

definition put_response :: "response_body \<Rightarrow> http_connection \<Rightarrow> http_connection" where
  "put_response b c = c\<lparr>hc_response := format_http_response (hq_target (hc_request c)) b (hc_response c)\<rparr>"

definition handle_get ::
  "'s storage_vt \<Rightarrow> string list \<Rightarrow> http_connection \<Rightarrow> 's raft_crud \<Rightarrow> http_connection res" where
  "handle_get V path c st =
     (if path ! 1 = READ_REQ
      then bindE (rc_handle_read V (path ! 2) (path ! 3) st) (\<lambda>b. Inr (put_response b c))
      else Inr (bad_request c))"

definition handle_post ::
  "'s storage_vt \<Rightarrow> raft_lib \<Rightarrow> (bzn_msg \<Rightarrow> string) \<Rightarrow> string list \<Rightarrow> http_connection \<Rightarrow> 's raft_crud
    \<Rightarrow> (http_connection \<times> 's raft_crud) res" where
  "handle_post V X to_wire path c st =
     (let post_data = hq_body (hc_request c); u = path ! 2; k = path ! 3;
          crud_msg = (\<lambda>b. Msg_database (to_wire (Bzn_db (make_request u b)))) in
      if path ! 1 = CREATE_REQ
      then (case rc_handle_create V X (crud_msg (Db_create k post_data)) u k post_data st of
              (b, st) \<Rightarrow> Inr (put_response b c, st))
      else if path ! 1 = UPDATE_REQ
      then bindE (rc_handle_update V X (crud_msg (Db_update k post_data)) u k post_data st) (\<lambda>(b, st).
             Inr (put_response b c, st))
      else if path ! 1 = DELETE_REQ
      then bindE (rc_handle_delete V X (crud_msg (Db_delete k)) u k st) (\<lambda>(b, st).
             Inr (put_response b c, st))
      else Inr (bad_request c, st))"

text \<open>The completion handler of the read.\<close>

definition read_handler ::
  "'s storage_vt \<Rightarrow> raft_lib \<Rightarrow> (bzn_msg \<Rightarrow> string) \<Rightarrow> string \<Rightarrow> http_request option \<Rightarrow> http_connection \<Rightarrow> 's raft_crud
    \<Rightarrow> (http_connection \<times> 's raft_crud) res" where
  "read_handler V X to_wire version req c st =
     (let c = c\<lparr>hc_reading := False\<rparr> in
      case req of
        None \<Rightarrow> Inr (c, st)
      | Some request \<Rightarrow>
          (let c = c\<lparr>hc_request := request, hc_deadline := False\<rparr>;
               path = split_path (hq_target request) in
           bindE
             (if length path \<noteq> MAX_PATH_SIZE then Inr (bad_request c, st)
              else (case hq_method request of
                      Verb_get \<Rightarrow> bindE (handle_get V path c st) (\<lambda>c. Inr (c, st))
                    | Verb_post \<Rightarrow> handle_post V X to_wire path c st
                    | Verb_other \<Rightarrow> Inr (bad_request c, st)))
             (\<lambda>(c, st). Inr (write_response version c, st))))"

definition new_connection :: http_connection where
  "new_connection = \<lparr>hc_request = \<lparr>hq_method = Verb_other, hq_target = '''', hq_body = '''', hq_version = 11\<rparr>,
     hc_response = default_http_response, hc_reading = False, hc_deadline = False, hc_closed = False,
     hc_written = [], hc_started = False\<rparr>"

section \<open>Paths\<close>

lemma split_path_nonempty [simp]: "split_path s \<noteq> []"
  by (induction s) (auto split: list.splits)

lemma length_split_path: "length (split_path s) = Suc (length (filter (\<lambda>c. c = CHR ''/'') s))"
  by (induction s) (auto split: list.splits)

lemma split_path_plain [simp]: "CHR ''/'' \<notin> set a \<Longrightarrow> split_path a = [a]"
  by (induction a) auto

lemma split_path_first [simp]: "CHR ''/'' \<notin> set a \<Longrightarrow> split_path (a @ CHR ''/'' # s) = a # split_path s"
  by (induction a) auto

definition target_of :: "string \<Rightarrow> uuid_t \<Rightarrow> key_t \<Rightarrow> string" where
  "target_of req u k = ''/'' @ req @ ''/'' @ u @ ''/'' @ k"

text \<open>Splitting is inverse to joining with slashes.\<close>

fun join_path :: "string list \<Rightarrow> string" where
  "join_path [] = []"
| "join_path [t] = t"
| "join_path (t # ts) = t @ CHR ''/'' # join_path ts"

lemma join_split_path [simp]: "join_path (split_path s) = s"
proof (induction s)
  case (Cons c s)
  obtain t ts where s: "split_path s = t # ts" by (cases "split_path s") auto
  then show ?case using Cons by (cases ts) auto
qed simp

lemma split_path_no_slash: "t \<in> set (split_path s) \<Longrightarrow> CHR ''/'' \<notin> set t"
  by (induction s arbitrary: t) (auto split: list.splits if_splits)

lemma split_join_path [simp]: "ts \<noteq> [] \<Longrightarrow> \<forall>t \<in> set ts. CHR ''/'' \<notin> set t \<Longrightarrow> split_path (join_path ts) = ts"
  by (induction ts rule: join_path.induct) auto

lemma split_path_four: "split_path s = [a, b, c, d] \<longleftrightarrow> s = join_path [a, b, c, d] \<and> (\<forall>t \<in> {a, b, c, d}. CHR ''/'' \<notin> set t)"
  (is "?l \<longleftrightarrow> ?r")
proof
  assume ?l
  then show ?r using join_split_path [of s] split_path_no_slash [of _ s] by auto
next
  assume ?r
  then show ?l using split_join_path [of "[a, b, c, d]"] by auto
qed

lemma split_path_target: "CHR ''/'' \<notin> set req \<Longrightarrow> CHR ''/'' \<notin> set u \<Longrightarrow> CHR ''/'' \<notin> set k \<Longrightarrow> split_path (target_of req u k) = [[], req, u, k]"
  by (simp add: target_of_def)

section \<open>What a request does\<close>

text \<open>The database request an HTTP request stands for.\<close>

definition request_of :: "http_request \<Rightarrow> (uuid_t \<times> database_body) option" where
  "request_of request =
     (case split_path (hq_target request) of
        [_, req, u, k] \<Rightarrow>
          (case hq_method request of
             Verb_get \<Rightarrow> if req = READ_REQ then Some (u, Db_read k) else None
           | Verb_post \<Rightarrow>
               if req = CREATE_REQ then Some (u, Db_create k (hq_body request))
               else if req = UPDATE_REQ then Some (u, Db_update k (hq_body request))
               else if req = DELETE_REQ then Some (u, Db_delete k) else None
           | Verb_other \<Rightarrow> None)
      | _ \<Rightarrow> None)"

definition wire_msg :: "(bzn_msg \<Rightarrow> string) \<Rightarrow> uuid_t \<Rightarrow> database_body \<Rightarrow> entry_msg" where
  "wire_msg to_wire u b = Msg_database (to_wire (Bzn_db (make_request u b)))"

text \<open>The connection after the response has been put together and written.\<close>

definition answered :: "string \<Rightarrow> http_request \<Rightarrow> response_body \<Rightarrow> http_connection \<Rightarrow> http_connection" where
  "answered version request b c =
     write_response version (put_response b (c\<lparr>hc_reading := False, hc_request := request, hc_deadline := False\<rparr>))"

definition refused :: "string \<Rightarrow> http_request \<Rightarrow> http_connection \<Rightarrow> http_connection" where
  "refused version request c =
     write_response version (bad_request (c\<lparr>hc_reading := False, hc_request := request, hc_deadline := False\<rparr>))"

lemma path_cases:
  obtains a req u k where "path = [a, req, u, k]" | "length path \<noteq> MAX_PATH_SIZE"
proof (cases "length path = 4")
  case True
  then obtain a req u k where "path = [a, req, u, k]"
    by (auto simp: numeral_eq_Suc length_Suc_conv)
  then show ?thesis by (rule that(1))
qed (auto simp: MAX_PATH_SIZE_def intro: that(2))

lemma bindE_assoc: "bindE (bindE m f) g = bindE m (\<lambda>x. bindE (f x) g)"
  by (simp add: bindE_def split: sum.split)

text \<open>
  The handler in terms of the database request: for none it refuses, otherwise it calls the handler of
  \<open>raft_crud\<close> whatever the state of the Raft participant.
\<close>

lemma read_handler_request:
  "read_handler V X to_wire version (Some request) c st =
     (case request_of request of
        None \<Rightarrow> Inr (refused version request c, st)
      | Some (u, b) \<Rightarrow>
          bindE (do_leader_tasks V X (wire_msg to_wire u b) (make_request u b) st) (\<lambda>(r, st).
            Inr (answered version request r c, st)))"
proof (cases "split_path (hq_target request)" rule: path_cases)
  case (1 a req u k)
  note defs = read_handler_def request_of_def handle_get_def handle_post_def do_leader_tasks_def make_request_def
    wire_msg_def answered_def refused_def MAX_PATH_SIZE_def http_verbs split_def numeral_eq_Suc bindE_assoc Let_def
  show ?thesis
  proof (cases "hq_method request")
    case Verb_post
    consider "req = CREATE_REQ" | "req = UPDATE_REQ" | "req = DELETE_REQ" | "req \<notin> {CREATE_REQ, UPDATE_REQ, DELETE_REQ}" by blast
    then show ?thesis using 1 Verb_post by cases (simp_all add: defs)
  qed (use 1 in \<open>simp_all add: defs\<close>)
next
  case 2
  then have "request_of request = None"
    by (auto simp: request_of_def MAX_PATH_SIZE_def split: list.splits)
  with 2 show ?thesis by (simp add: read_handler_def refused_def)
qed

lemma answered_written [simp]:
  "hc_written (answered version request b c) = hc_written c @
     [(format_http_response (hq_target request) b (hc_response c))
        \<lparr>hs_version := hq_version request, hs_server := ''Bluzelle/'' @ version, hs_content_type := ''text/plain'',
         hs_content_length := length (hs_body (format_http_response (hq_target request) b (hc_response c))), hs_keep_alive := False\<rparr>]"
  by (simp add: answered_def write_response_def put_response_def Let_def)

lemma refused_written [simp]:
  "hc_written (refused version request c) = hc_written c @
     [(hc_response c)\<lparr>hs_result := Status_bad_request, hs_version := hq_version request, hs_server := ''Bluzelle/'' @ version,
         hs_content_type := ''text/plain'', hs_content_length := length (hs_body (hc_response c)), hs_keep_alive := False\<rparr>]"
  by (simp add: refused_def write_response_def bad_request_def Let_def)

text \<open>
  C14: on the leader a request over HTTP does what the same request over the websocket does. The
  connection reads the request off the path \<open>/<req>/<uuid>/<key>\<close>; the node ends in the state the
  websocket request leaves, and the one response that is written is the websocket's answer in the
  format of the HTTP interface, with its length and without keep-alive. The text form of a message must read back.
\<close>

theorem http_matches_websocket:
  assumes "current_state (rc_raft st) = Leader" and "request_of request = Some (u, b)"
    and "parse_bzn X (to_wire (Bzn_db (make_request u b))) = Some (Bzn_db (make_request u b))"
    and "handle_ws_crud_messages V X (wire_msg to_wire u b) session st = Inr st1"
  shows "\<exists>answer c'. rc_sent st1 = rc_sent st @ [(session, answer, False)]
     \<and> read_handler V X to_wire version (Some request) new_connection st = Inr (c', st1\<lparr>rc_sent := rc_sent st\<rparr>)
     \<and> (\<exists>r. hc_written c' = [r] \<and> hs_content_length r = length (hs_body r) \<and> \<not> hs_keep_alive r
          \<and> hs_result r = hs_result (format_http_response (hq_target request) (resp_body answer) default_http_response)
          \<and> hs_body r = hs_body (format_http_response (hq_target request) (resp_body answer) default_http_response))"
proof -
  let ?m = "wire_msg to_wire u b" and ?q = "make_request u b"
  have q: "db_body ?q = b" "db_header ?q = default_header\<lparr>db_uuid := u\<rparr>" by (simp_all add: make_request_def)
  have b: "(\<exists>k. b = Db_read k) \<or> (\<exists>k v. b = Db_create k v) \<or> (\<exists>k v. b = Db_update k v) \<or> (\<exists>k. b = Db_delete k)"
    using assms(2) by (auto simp: request_of_def split: list.splits http_verb.splits if_splits)
  then have route: "do_raft_task_routing V X ?m ?q session st = do_leader_tasks V X ?m ?q st"
    using assms(1) by (auto simp: do_raft_task_routing_def q)
  obtain r st2 where t: "do_leader_tasks V X ?m ?q st = Inr (r, st2)"
    and st1: "st1 = rc_answer session \<lparr>resp_header = db_header ?q, resp_body = r\<rparr> False st2"
    using assms(3,4) by (auto simp: handle_ws_crud_messages_def msg_member_def wire_msg_def route [unfolded wire_msg_def])
  have keep: "rc_sent st2 = rc_sent st"
    using t b by (auto simp: do_leader_tasks_def q rc_handle_create_def rc_handle_update_def rc_handle_delete_def
        append_request_def split: if_splits)
  have "read_handler V X to_wire version (Some request) new_connection st = Inr (answered version request r new_connection, st2)"
    by (simp add: read_handler_request assms(2) t)
  moreover have "st2 = st1\<lparr>rc_sent := rc_sent st\<rparr>" using keep by (simp add: st1 rc_answer_def)
  moreover have "rc_sent st1 = rc_sent st @ [(session, \<lparr>resp_header = db_header ?q, resp_body = r\<rparr>, False)]"
    using keep by (simp add: st1 rc_answer_def)
  ultimately show ?thesis
    by (intro exI [of _ "\<lparr>resp_header = db_header ?q, resp_body = r\<rparr>"] exI conjI) (assumption | simp add: new_connection_def)+
qed

text \<open>A leader, and a create request.\<close>

definition sample_http :: http_request where
  "sample_http = \<lparr>hq_method = Verb_post, hq_target = ''/create/u/k'', hq_body = ''v'', hq_version = 11\<rparr>"

definition sample_http_rlib :: raft_lib where
  "sample_http_rlib = sample_rlib\<lparr>parse_bzn := \<lambda>_. Some (Bzn_db (make_request ''u'' (Db_create ''k'' ''v'')))\<rparr>"

lemma sample_http_request: "request_of sample_http = Some (''u'', Db_create ''k'' ''v'')"
  by code_simp

theorem http_matches_websocket_witness:
  "\<exists>c' st'. read_handler mem_vt sample_http_rlib (\<lambda>_. ''m'') ''1'' (Some sample_http) new_connection
       (new_node (sample_raft ''a''\<lparr>current_state := Leader\<rparr>) []) = Inr (c', st')
     \<and> rc_raft st' = snd (append_log sample_http_rlib (Msg_database ''m'') LE_database (sample_raft ''a''\<lparr>current_state := Leader\<rparr>))"
proof -
  let ?st = "new_node (sample_raft ''a''\<lparr>current_state := Leader\<rparr>) []"
  have l: "current_state (rc_raft ?st) = Leader" by (simp add: new_node_def)
  have p: "parse_bzn sample_http_rlib ''m'' = Some (Bzn_db (make_request ''u'' (Db_create ''k'' ''v'')))"
    by (simp add: sample_http_rlib_def)
  obtain st1 where st1: "handle_ws_crud_messages mem_vt sample_http_rlib (wire_msg (\<lambda>_. ''m'') ''u'' (Db_create ''k'' ''v'')) 7 ?st = Inr st1"
    "rc_raft st1 = snd (append_log sample_http_rlib (Msg_database ''m'') LE_database (sample_raft ''a''\<lparr>current_state := Leader\<rparr>))"
    by (simp add: handle_ws_crud_messages_def msg_member_def wire_msg_def p do_raft_task_routing_def do_leader_tasks_def
        rc_handle_create_def make_request_def new_node_def rc_answer_def append_request_def validate_value_size_def
        validate_key_size_def MAX_VALUE_SIZE_def MAX_KEY_SIZE_def mem_vt_def mem_has_def mem_get_keys_def)
  from http_matches_websocket [OF l sample_http_request p st1(1), of "''1''"] st1(2) show ?thesis
    by (elim exE conjE) (intro exI conjI, assumption, simp)
qed

text \<open>
  a node that is not the leader acknowledges a create request over HTTP without any effect. If the
  key does not exist and the sizes are in bounds, the response is \<open>200\<close> with the body \<open>ack\<close>, and the node
  is unchanged: nothing has been appended to its log and nothing has been stored. (Over the websocket the
  routing by the state of the node answers with the address of the leader or with an error.)
\<close>

theorem http_create_lost_on_follower:
  assumes "current_state (rc_raft st) \<noteq> Leader" and "request_of request = Some (u, Db_create k v)"
    and "length v \<le> MAX_VALUE_SIZE" "length k \<le> MAX_KEY_SIZE" "\<not> vt_has V (rc_storage st) u k"
  shows "\<exists>c' r. read_handler V X to_wire version (Some request) new_connection st = Inr (c', st)
     \<and> hc_written c' = [r] \<and> hs_result r = Status_ok \<and> hs_body r = ''ack''"
proof -
  have "do_leader_tasks V X m (make_request u (Db_create k v)) st = Inr (Resp_not_set, st)" for m
    using assms(1,3-5)
    by (simp add: do_leader_tasks_def make_request_def rc_handle_create_def validate_value_size_def validate_key_size_def not_less)
  then have "read_handler V X to_wire version (Some request) new_connection st
      = Inr (answered version request Resp_not_set new_connection, st)"
    by (simp add: read_handler_request assms(2))
  then show ?thesis
    by (simp add: new_connection_def format_http_response_def default_http_response_def)
qed

theorem http_create_lost_on_follower_witness:
  "\<exists>c' r. read_handler mem_vt sample_http_rlib (\<lambda>_. ''m'') ''1'' (Some sample_http) new_connection
       (new_node (sample_raft ''a''\<lparr>current_state := Follower\<rparr>) []) = Inr (c', new_node (sample_raft ''a''\<lparr>current_state := Follower\<rparr>) [])
     \<and> hc_written c' = [r] \<and> hs_result r = Status_ok \<and> hs_body r = ''ack''"
proof -
  let ?st = "new_node (sample_raft ''a''\<lparr>current_state := Follower\<rparr>) []"
  have "current_state (rc_raft ?st) \<noteq> Leader" "\<not> vt_has mem_vt (rc_storage ?st) ''u'' ''k''"
    by (simp_all add: new_node_def mem_vt_def mem_has_def mem_get_keys_def)
  with http_create_lost_on_follower [OF _ sample_http_request, of ?st mem_vt sample_http_rlib] show ?thesis
    by (simp add: MAX_VALUE_SIZE_def MAX_KEY_SIZE_def)
qed

section \<open>A node with both interfaces\<close>

text \<open>A node serves websocket and HTTP requests and takes the steps of its Raft participant.\<close>

inductive served_run ::
  "'s storage_vt \<Rightarrow> raft_lib \<Rightarrow> (bzn_msg \<Rightarrow> string) \<Rightarrow> string \<Rightarrow> 's raft_crud \<Rightarrow> 's raft_crud \<Rightarrow> bool" for V X to_wire version where
  served_refl: "served_run V X to_wire version st st"
| served_node: "served_run V X to_wire version st st' \<Longrightarrow> small_log (rc_raft st') \<Longrightarrow> node_step V X st' st''
    \<Longrightarrow> served_run V X to_wire version st st''"
| served_http: "served_run V X to_wire version st st' \<Longrightarrow> small_log (rc_raft st')
    \<Longrightarrow> read_handler V X to_wire version request c st' = Inr (c', st'')
    \<Longrightarrow> served_run V X to_wire version st st''"

lemma read_handler_append:
  assumes "read_handler V X to_wire version request c st = Inr (c', st')"
  shows "rc_storage st' = rc_storage st
     \<and> (rc_raft st' = rc_raft st \<or> (\<exists>w. rc_raft st' = snd (append_log X (Msg_database w) LE_database (rc_raft st))))"
proof (cases request)
  case None
  then show ?thesis using assms by (simp add: read_handler_def)
next
  case (Some q)
  show ?thesis
  proof (cases "request_of q")
    case None
    then show ?thesis using assms Some by (simp add: read_handler_request)
  next
    fix a assume a: "request_of q = Some a"
    obtain u b where "a = (u, b)" by (cases a)
    then obtain r where "do_leader_tasks V X (wire_msg to_wire u b) (make_request u b) st = Inr (r, st')"
      using assms Some a by (auto simp: read_handler_request)
    from leader_tasks_append [OF this] show ?thesis by (auto simp: appended_def wire_msg_def)
  qed
qed

lemma served_run_ok: "served_run V X to_wire version st st' \<Longrightarrow> node_ok V X s st \<Longrightarrow> node_ok V X s st'"
proof (induction rule: served_run.induct)
  case (served_http st st' request c c' st'')
  note a = read_handler_append [OF served_http.hyps(3)]
  show ?case
    using append_node_ok [OF served_http.IH [OF served_http.prems] served_http.hyps(2) conjunct1 [OF a] conjunct2 [OF a]] ..
qed (auto dest: node_step_ok)

text \<open>
  C13: The database of a node of the Raft stack is at every moment the one that replaying the committed
  part of its log on the initial database gives, whatever requests over the websocket and over HTTP and
  whatever Raft messages it has handled, and whatever storage it has; and when the whole log is
  committed, it is the one that \<open>initialize_storage_from_log\<close> rebuilds after a restart.
\<close>

theorem served_storage_is_replay:
  assumes "codec_wf (r_codec X) {Msg_single (Some (map to_peer_message peers))}"
    and "new_raft X peers u None m v key = Inr r" "served_run V X to_wire version (new_node r s) st"
  shows "replay_entries X V (take (unat (commit_index (rc_raft st))) (log_entries (r_log (rc_raft st)))) s
       = Inr (rc_storage st)
     \<and> (unat (commit_index (rc_raft st)) = length (log_entries (r_log (rc_raft st)))
          \<longrightarrow> initialize_storage_from_log X V (rc_raft st) s = Inr (rc_storage st))"
  using node_replay [OF served_run_ok [OF assms(3) new_node_ok [OF assms(1,2)]]]
  by (auto simp: initialize_storage_from_log_def)

lemma node_run_served: "node_run V X st st' \<Longrightarrow> served_run V X to_wire version st st'"
  by (induction rule: node_run.induct) (auto intro: served_run.intros)

theorem served_storage_is_replay_witness:
  "\<exists>st. served_run mem_vt sample_db_rlib (\<lambda>_. ''m'') ''1'' (new_node (sample_raft ''a'') []) st
     \<and> mem_read (rc_storage st) ''u'' ''k'' = Some ''v''
     \<and> replay_entries sample_db_rlib mem_vt
         (take (unat (commit_index (rc_raft st))) (log_entries (r_log (rc_raft st)))) [] = Inr (rc_storage st)"
proof -
  obtain st where st: "node_run mem_vt sample_db_rlib (new_node (sample_raft ''a'') []) st"
    "rc_storage st = apply_to_storage mem_vt sample_create []"
    using sample_node_run [of mem_vt "[]"] by blast
  then have "mem_read (rc_storage st) ''u'' ''k'' = Some ''v''"
    by (simp add: sample_create_def apply_to_storage_def mem_vt_def mem_create_def mem_read_def
        MAX_VALUE_SIZE_def MAX_KEY_SIZE_def)
  moreover have r: "served_run mem_vt sample_db_rlib (\<lambda>_. ''m'') ''1'' (new_node (sample_raft ''a'') []) st"
    by (rule node_run_served [OF st(1)])
  ultimately show ?thesis using served_storage_is_replay [OF sample_db_codec sample_db_new r] by blast
qed

section \<open>The server\<close>

text \<open>\<open>http/server.cpp\<close>: accepted sockets become started connections, and the server accepts again.\<close>

record http_server =
  hv_started :: bool
  hv_accepting :: bool
  hv_connections :: "http_connection list"

definition http_do_accept :: "http_server \<Rightarrow> http_server" where
  "http_do_accept sv = sv\<lparr>hv_accepting := True\<rparr>"

definition http_accept_handler :: "bool \<Rightarrow> http_server \<Rightarrow> http_server" where
  "http_accept_handler ec sv =
     (let sv = sv\<lparr>hv_accepting := False\<rparr> in
      http_do_accept (if ec then sv else sv\<lparr>hv_connections := hv_connections sv @ [connection_start new_connection]\<rparr>))"

definition http_server_start :: "http_server \<Rightarrow> http_server" where
  "http_server_start sv = (if hv_started sv then sv else http_do_accept (sv\<lparr>hv_started := True\<rparr>))"

text \<open>
  Whatever accepts fail, the server goes on accepting, and every accepted connection is reading its
  request under the deadline.
\<close>

lemma http_server_keeps_accepting:
  assumes "hv_accepting sv"
  shows "hv_accepting (fold http_accept_handler ecs sv)
     \<and> hv_connections (fold http_accept_handler ecs sv)
        = hv_connections sv @ map (\<lambda>_. connection_start new_connection) (filter Not ecs)"
  using assms
  by (induction ecs arbitrary: sv) (simp_all add: http_accept_handler_def http_do_accept_def Let_def)

lemma started_connection: "hc_reading (connection_start new_connection) \<and> hc_deadline (connection_start new_connection)"
  by (simp add: connection_start_def do_read_request_def start_deadline_timer_def new_connection_def)

end
