(* ===== verification/Utils.thy ===== *)
theory Utils
  imports Prelude
begin

text \<open>
  The helpers of \<open>utils/\<close>: the calls to a contract on the Ethereum test network that look up the
  blacklist (\<open>utils/blacklist.cpp\<close>) and fetch the public key that signs node identities, hexadecimal
  text, base64 and signatures (\<open>utils/crypto.cpp\<close>).

  The network is the parameter \<open>web\<close>: what the n-th request reads, and whether curl reported success;
  the JSON layer gives the member \<open>result\<close> of an answer as text. OpenSSL is a table of calls, \<open>openssl\<close>.
\<close>

section \<open>Hexadecimal text\<close>

definition hex_digit :: "nat \<Rightarrow> char" where
  "hex_digit d = (if d < 10 then char_of (48 + d) else char_of (87 + d))"

definition hex_val :: "char \<Rightarrow> nat option" where
  "hex_val c =
     (let n = of_char c :: nat in
      if 48 \<le> n \<and> n \<le> 57 then Some (n - 48)
      else if 97 \<le> n \<and> n \<le> 102 then Some (n - 87)
      else if 65 \<le> n \<and> n \<le> 70 then Some (n - 55)
      else None)"

fun show_hex :: "nat \<Rightarrow> string" where
  "show_hex n = (if n < 16 then [hex_digit n] else show_hex (n div 16) @ [hex_digit (n mod 16)])"

declare show_hex.simps [simp del]

definition hex_number :: "string \<Rightarrow> nat" where
  "hex_number ds = foldl (\<lambda>n c. 16 * n + the (hex_val c)) 0 ds"

text \<open>
  \<open>strtoul(s, nullptr, 16)\<close>: white space, a sign, \<open>0x\<close> before a digit, then digits; and \<open>std::stoul\<close>,
  which turns a missing number and an overflow into exceptions.
\<close>

definition c_space :: "char \<Rightarrow> bool" where
  "c_space c \<longleftrightarrow> c = CHR '' '' \<or> (9 \<le> (of_char c :: nat) \<and> (of_char c :: nat) \<le> 13)"

definition strip_0x :: "string \<Rightarrow> string" where
  "strip_0x s =
     (case s of
        a # b # c # t \<Rightarrow> if a = CHR ''0'' \<and> (b = CHR ''x'' \<or> b = CHR ''X'') \<and> hex_val c \<noteq> None then c # t else s
      | _ \<Rightarrow> s)"

definition scan_hex :: "string \<Rightarrow> bool \<times> string" where
  "scan_hex s =
     (let s = dropWhile c_space (takeWhile (\<lambda>c. c \<noteq> CHR 0x00) s);
          (neg, s) = (case s of [] \<Rightarrow> (False, [])
             | c # t \<Rightarrow> if c = CHR ''-'' then (True, t) else if c = CHR ''+'' then (False, t) else (False, s)) in
      (neg, takeWhile (\<lambda>c. hex_val c \<noteq> None) (strip_0x s)))"

definition strtoul_hex :: "string \<Rightarrow> u64" where
  "strtoul_hex s =
     (let (neg, ds) = scan_hex s in
      if 2 ^ 64 \<le> hex_number ds then - 1
      else if neg then - word_of_nat (hex_number ds) else word_of_nat (hex_number ds))"

definition stoul_hex :: "string \<Rightarrow> u64 res" where
  "stoul_hex s =
     (let (neg, ds) = scan_hex s in
      if ds = [] then Inl (Runtime_error ''stoul'')
      else if 2 ^ 64 \<le> hex_number ds then Inl Out_of_range
      else Inr (strtoul_hex s))"

section \<open>Calls to the contract\<close>

record web =
  web_post :: "nat \<Rightarrow> string \<Rightarrow> string \<times> string option" \<comment> \<open>what was read; the error text of curl, if it failed\<close>
  json_parses :: "string \<Rightarrow> bool"
  json_result :: "string \<Rightarrow> string res" \<comment> \<open>\<open>["result"].asString()\<close> of what the text parses to, null if it does not\<close>

text \<open>The requests of the sources, with their quotation marks written as backquotes.\<close>

definition with_quotes :: "string \<Rightarrow> string" where
  "with_quotes s = map (\<lambda>c. if c = CHR ''`'' then CHR 0x22 else c) s"

definition ROPSTEN_DATA :: "string \<Rightarrow> string" where
  "ROPSTEN_DATA uuid = with_quotes (''{`jsonrpc`:`2.0`,`method`:`eth_call`,`params`:[{`to`:`0x58261EEc3fCD83DACB5E0532277c27f1cA58270E`,`data`: `0x3a4e44a0''
     @ uuid @ ''` },`latest`],`id`:1}'')"

definition REQUEST_BASE :: "string \<Rightarrow> string" where
  "REQUEST_BASE call = with_quotes (''{`jsonrpc`:`2.0`,`method`:`eth_call`,`params`:[{`to`:`0x492CCD1eAeCDA0262e3AAeF8445F3F731a30AfbB`,`data`: `''
     @ call @ ''` },`latest`],`id`:1}'')"

definition GET_KEY_SIZE :: string where "GET_KEY_SIZE = ''0xcf5d53f1''"
definition GET_KEY_CHUNK :: string where "GET_KEY_CHUNK = ''0x96ce93e2''"

definition is_blacklisted :: "web \<Rightarrow> nat \<Rightarrow> uuid_t \<Rightarrow> bool res" where
  "is_blacklisted W t raw_uuid =
     (let uuid = filter (\<lambda>c. c \<noteq> CHR ''-'') raw_uuid; (body, failed) = web_post W t (ROPSTEN_DATA uuid) in
      case failed of
        Some e \<Rightarrow> Inl (Runtime_error (''curl_easy_perform() failed in whitelist: '' @ e))
      | None \<Rightarrow>
          if \<not> json_parses W body then Inr False
          else (case bindE (json_result W body) stoul_hex of
                  Inl _ \<Rightarrow> Inr False
                | Inr n \<Rightarrow> Inr (n = 1)))"

text \<open>\<open>get_curl_response(call)["result"].asString()\<close>: errors of curl and of the parser are only logged.\<close>

definition get_curl_response :: "web \<Rightarrow> nat \<Rightarrow> string \<Rightarrow> string res" where
  "get_curl_response W t call = json_result W (fst (web_post W t (REQUEST_BASE call)))"

definition get_public_pem_size :: "web \<Rightarrow> nat \<Rightarrow> u64" where
  "get_public_pem_size W t =
     (case bindE (get_curl_response W t GET_KEY_SIZE) stoul_hex of Inl _ \<Rightarrow> 0 | Inr n \<Rightarrow> n)"

definition integer_to_32_byte_hex :: "u64 \<Rightarrow> string" where
  "integer_to_32_byte_hex index =
     (let s = show_hex (unat index) in replicate (32 * 2 - length s) (CHR ''0'') @ s)"

definition get_public_pem_chunk :: "web \<Rightarrow> nat \<Rightarrow> u64 \<Rightarrow> string res" where
  "get_public_pem_chunk W t index =
     bindE (get_curl_response W t (GET_KEY_CHUNK @ integer_to_32_byte_hex index)) (\<lambda>s.
       if length s < 2 then Inl Out_of_range else Inr (drop 2 s))"

fun insert_breaks_from :: "nat \<Rightarrow> nat \<Rightarrow> string \<Rightarrow> string" where
  "insert_breaks_from line_length i [] = []"
| "insert_breaks_from line_length i (c # cs) =
     (if i mod line_length = 0 then [CHR 0x0A, c] else [c]) @ insert_breaks_from line_length (Suc i) cs"

definition insert_line_breaks :: "string \<Rightarrow> string" where
  "insert_line_breaks s = insert_breaks_from 64 0 s"

fun hex_bytes :: "string \<Rightarrow> string" where
  "hex_bytes [] = []"
| "hex_bytes [a] = [char_of (unat (ucast (strtoul_hex [a]) :: u8))]"
| "hex_bytes (a # b # s) = char_of (unat (ucast (strtoul_hex [a, b]) :: u8)) # hex_bytes s"

definition hex_string_to_string :: "string \<Rightarrow> string" where
  "hex_string_to_string hex_string = insert_line_breaks (hex_bytes hex_string)"

text \<open>
  The loop asks for the number of chunks again before every chunk; \<open>t\<close> counts the requests, so that
  the answers may change.
\<close>

partial_function (option) pem_chunks :: "web \<Rightarrow> nat \<Rightarrow> u64 \<Rightarrow> string \<Rightarrow> string res option" where
  "pem_chunks W t index public_key_hex =
     (if index < get_public_pem_size W t
      then (case get_public_pem_chunk W (Suc t) index of
              Inl e \<Rightarrow> Some (Inl e)
            | Inr line \<Rightarrow> pem_chunks W (t + 2) (index + 1) (public_key_hex @ line))
      else Some (Inr public_key_hex))"

definition retrieve_bluzelle_public_key_from_contract :: "web \<Rightarrow> string res option" where
  "retrieve_bluzelle_public_key_from_contract W =
     map_option (\<lambda>r. bindE r (\<lambda>hex. Inr (''-----BEGIN PUBLIC KEY-----'' @ hex_string_to_string hex
         @ [CHR 0x0A] @ ''-----END PUBLIC KEY-----'')))
       (pem_chunks W 0 0 [])"

section \<open>Base64 and signatures\<close>

text \<open>\<open>size_t\<close> arithmetic; the last but one character of a text of length 1 is out of range.\<close>

definition calculate_decode_length :: "string \<Rightarrow> u64 res" where
  "calculate_decode_length s =
     (if s = [] then Inr 0
      else let len = word_of_nat (length s) :: u64 in
        if List.last s = CHR ''='' \<and> length s = 1 then Inl (Undefined_behaviour ''string index out of range'')
        else let padding = (if List.last s = CHR ''='' \<and> s ! (length s - 2) = CHR ''='' then 2 else 1) in
          Inr ((len * 3) div 4 - padding))"

record openssl =
  ssl_base64 :: "string \<Rightarrow> string" \<comment> \<open>what \<open>BIO_read\<close> through a base64 filter delivers\<close>
  ssl_rsa :: "string \<Rightarrow> string option" \<comment> \<open>the key that a PEM text holds\<close>
  ssl_verify :: "string \<Rightarrow> string \<Rightarrow> string \<Rightarrow> nat option" \<comment> \<open>status of \<open>EVP_DigestVerifyFinal\<close>; \<open>None\<close> if a call before it failed\<close>
  ssl_pem :: "string \<Rightarrow> (string \<times> string) option option" \<comment> \<open>name and data in a PEM file; \<open>None\<close> if it cannot be opened, \<open>Some None\<close> if \<open>PEM_read\<close> fails\<close>

text \<open>
  The status and the decoded bytes. The buffer has the computed length, and \<open>BIO_read\<close> is told that it
  has the length of the text: what does not fit is written past its end.
\<close>

definition crypto_base64_decode :: "openssl \<Rightarrow> string \<Rightarrow> (nat \<times> string) res" where
  "crypto_base64_decode S base64_message =
     (if base64_message = [] then Inr (1, [])
      else bindE (calculate_decode_length base64_message) (\<lambda>decoded_length.
        if 2 ^ 63 \<le> unat decoded_length then Inl (Runtime_error ''vector::_M_default_append'')
        else let data = ssl_base64 S base64_message in
          if unat decoded_length < length data then Inl (Undefined_behaviour ''write past the end of a vector'')
          else if length data \<noteq> unat decoded_length
          then Inr (1, data @ replicate (unat decoded_length - length data) (CHR 0x00))
          else Inr (0, data)))"

text \<open>\<open>RSA_verify_signature\<close>: whether the verification was carried out, and its verdict.\<close>

definition RSA_verify_signature :: "openssl \<Rightarrow> string \<Rightarrow> string \<Rightarrow> string \<Rightarrow> bool \<times> bool" where
  "RSA_verify_signature S rsa signature uuid =
     (case ssl_verify S rsa signature uuid of
        None \<Rightarrow> (False, False)
      | Some auth_status \<Rightarrow>
          if auth_status = 0 \<or> auth_status = 1 then (True, auth_status = 1) else (False, False))"

definition verify_signature :: "openssl \<Rightarrow> string \<Rightarrow> string \<Rightarrow> string \<Rightarrow> bool res" where
  "verify_signature S public_key signature uuid =
     (if public_key = [] \<or> signature = [] \<or> uuid = [] then Inr False
      else case ssl_rsa S public_key of
        None \<Rightarrow> Inr False
      | Some public_rsa \<Rightarrow>
          bindE (crypto_base64_decode S signature) (\<lambda>(_, binary_signature).
            let (ret_val, authentic) = RSA_verify_signature S public_rsa binary_signature uuid in
            Inr (ret_val \<and> authentic)))"

definition read_pem_file :: "openssl \<Rightarrow> string \<Rightarrow> string \<Rightarrow> string res" where
  "read_pem_file S filename expected_type =
     (case ssl_pem S filename of
        None \<Rightarrow> Inl (Runtime_error (''Failed to read pem file: '' @ filename))
      | Some None \<Rightarrow> Inl (Undefined_behaviour ''read of an uninitialised pointer'')
      | Some (Some (name, data)) \<Rightarrow>
          if name \<noteq> expected_type
          then Inl (Runtime_error (''Expected to find a '' @ expected_type @ '' in '' @ filename @ '', but found a '' @ name))
          else Inr data)"

section \<open>Reading back\<close>

lemma hex_val_digit [simp]: "d < 16 \<Longrightarrow> hex_val (hex_digit d) = Some d"
  by (auto simp: hex_val_def hex_digit_def Let_def)

lemma hex_number_snoc [simp]: "hex_number (ds @ [c]) = 16 * hex_number ds + the (hex_val c)"
  by (simp add: hex_number_def)

lemma hex_number_show_hex [simp]: "hex_number (show_hex n) = n"
proof (induction n rule: show_hex.induct)
  case (1 n)
  then show ?case
    by (cases "n < 16") (simp_all add: show_hex.simps [of n] hex_number_def [of "[_]"])
qed

lemma show_hex_nonempty [simp]: "show_hex n \<noteq> []"
  by (simp add: show_hex.simps [of n])

lemma show_hex_digits: "c \<in> set (show_hex n) \<Longrightarrow> hex_val c \<noteq> None"
proof (induction n rule: show_hex.induct)
  case (1 n)
  then show ?case by (cases "n < 16") (auto simp: show_hex.simps [of n])
qed

lemma show_hex_length: "n < 16 ^ Suc k \<Longrightarrow> length (show_hex n) \<le> Suc k"
proof (induction k arbitrary: n)
  case (Suc k)
  then have "n div 16 < 16 ^ Suc k" by (simp add: less_mult_imp_div_less)
  with Suc.IH show ?case by (simp add: show_hex.simps [of n])
qed (simp add: show_hex.simps)

lemma hex_val_0 [simp]: "hex_val (CHR ''0'') = Some 0"
  by (simp add: hex_val_def)

lemma hex_number_zeros: "hex_number (replicate k (CHR ''0'') @ s) = hex_number s"
  by (induction k) (simp_all add: hex_number_def)

lemma hex_not_blank: "hex_val c \<noteq> None \<Longrightarrow> \<not> c_space c \<and> c \<noteq> CHR 0x00 \<and> c \<noteq> CHR ''-'' \<and> c \<noteq> CHR ''+''"
  by (auto simp: hex_val_def c_space_def Let_def split: if_splits)

lemma takeWhile_digits:
  "\<forall>c \<in> set s. hex_val c \<noteq> None \<Longrightarrow> takeWhile (\<lambda>c. \<exists>y. hex_val c = Some y) s = s"
  "\<forall>c \<in> set s. hex_val c \<noteq> None \<Longrightarrow> takeWhile (\<lambda>c. c \<noteq> CHR 0x00) s = s"
  using hex_not_blank by (auto simp: takeWhile_eq_all_conv)

lemma scan_hex_0x:
  assumes "s \<noteq> []" "\<forall>c \<in> set s. hex_val c \<noteq> None"
  shows "scan_hex (''0x'' @ s) = (False, s)"
proof -
  obtain c t where s: "s = c # t" using assms(1) by (cases s) auto
  then have c: "hex_val c \<noteq> None" using assms(2) by simp
  with s assms(2) hex_not_blank [OF c] show ?thesis
    by (simp add: scan_hex_def takeWhile_digits strip_0x_def c_space_def)
qed

lemma padded_hex:
  "hex_number (integer_to_32_byte_hex n) = unat n"
  "\<forall>c \<in> set (integer_to_32_byte_hex n). hex_val c \<noteq> None" "length (integer_to_32_byte_hex n) = 64"
proof -
  have "length (show_hex (unat n)) \<le> 16"
    using show_hex_length [of "unat n" 15] u64_bound [of n] by simp
  then show "length (integer_to_32_byte_hex n) = 64" by (simp add: integer_to_32_byte_hex_def Let_def)
qed (auto simp: integer_to_32_byte_hex_def Let_def hex_number_zeros dest: show_hex_digits)

lemma stoul_padded_hex: "stoul_hex (''0x'' @ integer_to_32_byte_hex n) = Inr n"
proof -
  have "scan_hex (''0x'' @ integer_to_32_byte_hex n) = (False, integer_to_32_byte_hex n)"
    using padded_hex(2,3) [of n] by (intro scan_hex_0x) auto
  then show ?thesis
    using u64_bound [of n] padded_hex(1,3) [of n] by (auto simp: stoul_hex_def strtoul_hex_def)
qed

text \<open>The hexadecimal form of a text, two digits for each character.\<close>

definition hex_encode :: "string \<Rightarrow> string" where
  "hex_encode s = concat (map (\<lambda>c. [hex_digit (of_char c div 16), hex_digit (of_char c mod 16)]) s)"

lemma strtoul_two_digits:
  assumes "a < 16" "b < 16"
  shows "strtoul_hex [hex_digit a, hex_digit b] = word_of_nat (16 * a + b)"
proof -
  have d: "hex_val (hex_digit a) \<noteq> None" "hex_val (hex_digit b) \<noteq> None" using assms by simp_all
  then have "scan_hex [hex_digit a, hex_digit b] = (False, [hex_digit a, hex_digit b])"
    using hex_not_blank [OF d(1)] hex_not_blank [OF d(2)] assms by (simp add: scan_hex_def strip_0x_def)
  then show ?thesis using assms by (simp add: strtoul_hex_def hex_number_def)
qed

lemma hex_bytes_encode: "hex_bytes (hex_encode s) = s"
proof (induction s)
  case (Cons c s)
  have c: "(of_char c :: nat) < 256" by simp
  have "16 * (of_char c div 16) + of_char c mod 16 = (of_char c :: nat)" by simp
  then have "strtoul_hex [hex_digit (of_char c div 16), hex_digit (of_char c mod 16)] = word_of_nat (of_char c)"
    using c by (subst strtoul_two_digits) (auto simp: less_mult_imp_div_less)
  moreover have "unat (word_of_nat (of_char c) :: u64) = of_char c"
    by (rule unat_of_nat_u64, rule order.strict_trans [OF c]) simp
  then have "unat (ucast (word_of_nat (of_char c) :: u64) :: u8) = of_char c"
    by (simp add: unsigned_ucast_eq take_bit_eq_mod)
  ultimately show ?case using Cons by (simp add: hex_encode_def)
qed (simp add: hex_encode_def)

lemma hex_encode_concat: "hex_encode (concat ss) = concat (map hex_encode ss)"
  by (induction ss) (simp_all add: hex_encode_def)

lemma breaks_removed: "CHR 0x0A \<notin> set s \<Longrightarrow> filter (\<lambda>c. c \<noteq> CHR 0x0A) (insert_breaks_from n i s) = s"
  by (induction n i s rule: insert_breaks_from.induct) auto

section \<open>The key loop\<close>

lemma chunk_reply:
  "get_curl_response W t (GET_KEY_CHUNK @ integer_to_32_byte_hex i) = Inr (''0x'' @ s) \<Longrightarrow> get_public_pem_chunk W t i = Inr s"
  by (simp add: get_public_pem_chunk_def)

lemma size_reply:
  "get_curl_response W t GET_KEY_SIZE = Inr (''0x'' @ integer_to_32_byte_hex n) \<Longrightarrow> get_public_pem_size W t = n"
  using stoul_padded_hex [of n] by (simp add: get_public_pem_size_def)

lemma pem_chunks_collect:
  assumes "length pieces < 2 ^ 64" "\<And>t. get_public_pem_size W t = word_of_nat (length pieces)"
    and "\<And>t i. i < length pieces \<Longrightarrow> get_public_pem_chunk W t (word_of_nat i) = Inr (pieces ! i)"
  shows "i \<le> length pieces \<Longrightarrow> pem_chunks W t (word_of_nat i) acc = Some (Inr (acc @ concat (drop i pieces)))"
proof (induction "length pieces - i" arbitrary: i t acc)
  case 0
  then show ?case using assms(2) by (subst pem_chunks.simps) simp
next
  case (Suc k)
  then have i: "i < length pieces" by simp
  then have lt: "(word_of_nat i :: u64) < word_of_nat (length pieces)"
    using assms(1) by (simp add: word_less_nat_alt unat_of_nat)
  have "pem_chunks W (t + 2) (word_of_nat (Suc i)) (acc @ pieces ! i) = Some (Inr ((acc @ pieces ! i) @ concat (drop (Suc i) pieces)))"
    by (rule Suc.hyps(1)) (use Suc.hyps(2) i in simp_all)
  moreover have "drop i pieces = pieces ! i # drop (Suc i) pieces" using i by (simp add: Cons_nth_drop_Suc)
  ultimately show ?case
    using lt assms(2,3) i by (subst pem_chunks.simps) (simp add: add.commute)
qed

lemma pem_chunks_returns:
  assumes "\<And>t. get_public_pem_size W t \<le> bound"
  shows "\<exists>r. pem_chunks W t index acc = Some r"
proof (induction "unat bound - unat index" arbitrary: t index acc rule: less_induct)
  case less
  show ?case
  proof (cases "index < get_public_pem_size W t")
    case True
    with assms [of t] have lt: "index < bound" by simp
    then have "unat (index + 1) = Suc (unat index)" by unat_arith
    then have "unat bound - unat (index + 1) < unat bound - unat index"
      using lt by (simp add: word_less_nat_alt)
    with less True show ?thesis by (subst pem_chunks.simps) (simp split: sum.split)
  qed (subst pem_chunks.simps, simp)
qed

lemma decode_buffer:
  assumes "s \<noteq> []" "calculate_decode_length s = Inr w" "unat w = l"
  shows "crypto_base64_decode S s =
      (if 2 ^ 63 \<le> l then Inl (Runtime_error ''vector::_M_default_append'')
       else if l < length (ssl_base64 S s) then Inl (Undefined_behaviour ''write past the end of a vector'')
       else if length (ssl_base64 S s) \<noteq> l
       then Inr (1, ssl_base64 S s @ replicate (l - length (ssl_base64 S s)) (CHR 0x00)) else Inr (0, ssl_base64 S s))"
  using assms by (simp add: crypto_base64_decode_def Let_def)

section \<open>Properties\<close>

text \<open>
  C29: The public key that is published in hexadecimal pieces is retrieved as it is. When the contract
  answers with the number of pieces and with each piece, the loop over the pieces returns, and the key
  between the BEGIN and END lines is the concatenation of the pieces, up to the line breaks inserted.
\<close>

theorem public_key_retrieval:
  assumes "length pieces < 2 ^ 64" "\<forall>p \<in> set pieces. CHR 0x0A \<notin> set p"
    and "\<forall>t. get_curl_response W t GET_KEY_SIZE = Inr (''0x'' @ integer_to_32_byte_hex (word_of_nat (length pieces)))"
    and "\<forall>t i. i < length pieces \<longrightarrow> get_curl_response W t (GET_KEY_CHUNK @ integer_to_32_byte_hex (word_of_nat i))
           = Inr (''0x'' @ hex_encode (pieces ! i))"
  shows "\<exists>body. retrieve_bluzelle_public_key_from_contract W
         = Some (Inr (''-----BEGIN PUBLIC KEY-----'' @ body @ [CHR 0x0A] @ ''-----END PUBLIC KEY-----''))
       \<and> filter (\<lambda>c. c \<noteq> CHR 0x0A) body = concat pieces"
proof -
  let ?hs = "map hex_encode pieces"
  have "pem_chunks W 0 (word_of_nat 0) [] = Some (Inr ([] @ concat (drop 0 ?hs)))"
    by (rule pem_chunks_collect) (use assms in \<open>auto simp: size_reply chunk_reply\<close>)
  then have "retrieve_bluzelle_public_key_from_contract W
      = Some (Inr (''-----BEGIN PUBLIC KEY-----'' @ insert_line_breaks (concat pieces) @ [CHR 0x0A] @ ''-----END PUBLIC KEY-----''))"
    by (simp add: retrieve_bluzelle_public_key_from_contract_def hex_string_to_string_def
        hex_encode_concat [symmetric] hex_bytes_encode)
  moreover have "filter (\<lambda>c. c \<noteq> CHR 0x0A) (insert_line_breaks (concat pieces)) = concat pieces"
    unfolding insert_line_breaks_def using assms(2) by (intro breaks_removed) auto
  ultimately show ?thesis by blast
qed



section \<open>Small instances\<close>

text \<open>A contract that publishes the key \<open>ab\<close> in one piece.\<close>

definition sample_web :: web where
  "sample_web = \<lparr>web_post = (\<lambda>_ request. (request, None)), json_parses = (\<lambda>_. True),
     json_result = (\<lambda>request. Inr (''0x'' @
       (if request = REQUEST_BASE GET_KEY_SIZE then integer_to_32_byte_hex 1 else hex_encode ''ab'')))\<rparr>"

lemma sample_web_size: "get_curl_response sample_web t GET_KEY_SIZE = Inr (''0x'' @ integer_to_32_byte_hex 1)"
  by (simp add: get_curl_response_def sample_web_def)

theorem public_key_retrieval_witness:
  "\<exists>body. retrieve_bluzelle_public_key_from_contract sample_web
         = Some (Inr (''-----BEGIN PUBLIC KEY-----'' @ body @ [CHR 0x0A] @ ''-----END PUBLIC KEY-----''))
       \<and> filter (\<lambda>c. c \<noteq> CHR 0x0A) body = ''ab''"
proof -
  have "REQUEST_BASE (GET_KEY_CHUNK @ s) \<noteq> REQUEST_BASE GET_KEY_SIZE" for s
    by (simp add: REQUEST_BASE_def with_quotes_def GET_KEY_CHUNK_def GET_KEY_SIZE_def)
  then have "get_curl_response sample_web t (GET_KEY_CHUNK @ s) = Inr (''0x'' @ hex_encode ''ab'')" for t s
    by (simp add: get_curl_response_def sample_web_def)
  with sample_web_size show ?thesis
    using public_key_retrieval [of "[''ab'']" sample_web] by simp
qed


definition sample_ssl :: openssl where
  "sample_ssl = \<lparr>ssl_base64 = (\<lambda>_. ''abc''), ssl_rsa = (\<lambda>_. None), ssl_verify = (\<lambda>_ _ _. None), ssl_pem = (\<lambda>_. None)\<rparr>"


end
