(* ===== verification/Bootstrap.thy ===== *)
theory Bootstrap
  imports Messages Utils
begin

text \<open>
  The list of initial peers, \<open>bootstrap/bootstrap_peers.cpp\<close>, read from a file or from a web address
  (\<open>utils/http_get.cpp\<close>). The document is what the JSON parser makes of the text: for each element
  what the accessors the code uses give, a value or an exception; an element without a member has
  the empty string or zero there, as jsoncpp converts null. Files, the network and the parser are
  parameters.
\<close>

section \<open>Fetching\<close>

text \<open>
  \<open>url_regex\<close>: an optional \<open>http://\<close>, an optional \<open>www.\<close>, a host with a dot after at least one character
  and something behind it, and an optional target that starts with a slash. The optional parts are
  tried first and given up if the rest does not match.
\<close>

definition strip_prefix :: "string \<Rightarrow> string \<Rightarrow> string option" where
  "strip_prefix p s = (if take (length p) s = p then Some (drop (length p) s) else None)"

definition host_and_target :: "string \<Rightarrow> (string \<times> string) option" where
  "host_and_target s =
     (let host = takeWhile (\<lambda>c. c \<noteq> CHR ''/'') s; target = dropWhile (\<lambda>c. c \<noteq> CHR ''/'') s;
          label = takeWhile (\<lambda>c. c \<noteq> CHR ''.'') host in
      if label \<noteq> [] \<and> Suc (length label) < length host \<and> (\<forall>c \<in> set target. c \<noteq> CHR 0x0A \<and> c \<noteq> CHR 0x0D)
      then Some (host, target) else None)"

definition try_after :: "string \<Rightarrow> (string \<Rightarrow> 'a option) \<Rightarrow> string \<Rightarrow> 'a option" where
  "try_after p f s =
     (case strip_prefix p s of
        None \<Rightarrow> f s
      | Some t \<Rightarrow> (case f t of None \<Rightarrow> f s | Some r \<Rightarrow> Some r))"

definition url_match :: "string \<Rightarrow> (string \<times> string) option" where
  "url_match url = try_after ''http://'' (try_after ''www.'' host_and_target) url"

definition sync_get :: "(string \<Rightarrow> string \<Rightarrow> string res) \<Rightarrow> string \<Rightarrow> string res" where
  "sync_get http_get url =
     (case url_match url of
        None \<Rightarrow> Inl (Runtime_error (''could not parse url '' @ url))
      | Some (host, target) \<Rightarrow> http_get host target)"

section \<open>Peers\<close>

record peer_json =
  pj_host :: "string res"
  pj_port :: "u32 res"
  pj_http_port :: "u32 res"
  pj_uuid :: "string res option" \<comment> \<open>\<open>None\<close> when there is no such member\<close>
  pj_name :: "string res option"

definition member_or_unknown :: "string res option \<Rightarrow> string res" where
  "member_or_unknown m = (case m of None \<Rightarrow> Inr ''unknown'' | Some r \<Rightarrow> r)"

text \<open>The first part of the loop body: the address an element stands for, if it is not skipped.\<close>

definition read_peer :: "peer_json \<Rightarrow> peer_address_t option" where
  "read_peer p =
     (case bindE (pj_host p) (\<lambda>host. bindE (pj_port p) (\<lambda>port32. bindE (pj_http_port p) (\<lambda>http32.
           bindE (member_or_unknown (pj_uuid p)) (\<lambda>uuid. bindE (member_or_unknown (pj_name p)) (\<lambda>name.
           Inr (host, port32, http32, uuid, name)))))) of
        Inl _ \<Rightarrow> None
      | Inr (host, port32, http32, uuid, name) \<Rightarrow>
          (let port = ucast port32 :: u16; http_port = ucast http32 :: u16 in
           if port32 \<noteq> ucast port then None
           else if http32 \<noteq> ucast http_port then None
           else if host = [] \<or> port = 0 \<or> http_port = 0 then None
           else Some \<lparr>pa_host = host, pa_port = port, pa_http_port = http_port, pa_name = name, pa_uuid = uuid\<rparr>))"

text \<open>The number of valid addresses and the peers; \<open>t\<close> counts the requests to the blacklist.\<close>

fun initialize_peer_list ::
  "web \<Rightarrow> bool \<Rightarrow> peer_json list \<Rightarrow> nat \<Rightarrow> peer_address_t list \<Rightarrow> (nat \<times> peer_address_t list) res" where
  "initialize_peer_list W validation [] t peers = Inr (0, peers)"
| "initialize_peer_list W validation (p # root) t peers =
     (case read_peer p of
        None \<Rightarrow> initialize_peer_list W validation root t peers
      | Some a \<Rightarrow>
          bindE (if validation then is_blacklisted W t (pa_uuid a) else Inr False) (\<lambda>blacklisted.
            if blacklisted then initialize_peer_list W validation root (Suc t) peers
            else bindE (initialize_peer_list W validation root (Suc t) (peers_insert a peers)) (\<lambda>(n, peers).
              Inr (Suc n, peers))))"

text \<open>The result, the number of duplicates that is logged, and the peers.\<close>

definition ingest_json ::
  "(string \<Rightarrow> peer_json list option) \<Rightarrow> web \<Rightarrow> bool \<Rightarrow> string \<Rightarrow> peer_address_t list \<Rightarrow> (bool \<times> u64 \<times> peer_address_t list) res" where
  "ingest_json parse W validation peers_text peers =
     (case parse peers_text of
        None \<Rightarrow> Inr (False, 0, peers)
      | Some root \<Rightarrow>
          bindE (initialize_peer_list W validation root 0 peers) (\<lambda>(valid_addresses_read, peers').
            let new_addresses = word_of_nat (length peers') - word_of_nat (length peers) :: u64;
                duplicate_addresses = new_addresses - word_of_nat valid_addresses_read in
            Inr (0 < new_addresses, duplicate_addresses, peers')))"

definition fetch_peers_from_file ::
  "(string \<Rightarrow> string option) \<Rightarrow> (string \<Rightarrow> peer_json list option) \<Rightarrow> web \<Rightarrow> bool \<Rightarrow> string \<Rightarrow> peer_address_t list
    \<Rightarrow> (bool \<times> u64 \<times> peer_address_t list) res" where
  "fetch_peers_from_file read_file parse W validation filename peers =
     (case read_file filename of
        None \<Rightarrow> Inr (False, 0, peers)
      | Some file \<Rightarrow> ingest_json parse W validation file peers)"

definition fetch_peers_from_url ::
  "(string \<Rightarrow> string \<Rightarrow> string res) \<Rightarrow> (string \<Rightarrow> peer_json list option) \<Rightarrow> web \<Rightarrow> bool \<Rightarrow> string \<Rightarrow> peer_address_t list
    \<Rightarrow> (bool \<times> u64 \<times> peer_address_t list) res" where
  "fetch_peers_from_url http_get parse W validation url peers =
     bindE (sync_get http_get url) (\<lambda>text. ingest_json parse W validation text peers)"

section \<open>Correctness\<close>

definition peer_complete :: "peer_address_t \<Rightarrow> bool" where
  "peer_complete a \<longleftrightarrow> pa_host a \<noteq> [] \<and> pa_port a \<noteq> 0 \<and> pa_http_port a \<noteq> 0"

fun peers_distinct :: "peer_address_t list \<Rightarrow> bool" where
  "peers_distinct [] = True"
| "peers_distinct (a # ps) = ((\<forall>b \<in> set ps. \<not> peer_eq a b) \<and> peers_distinct ps)"

definition peers_ok :: "peer_address_t list \<Rightarrow> bool" where
  "peers_ok ps \<longleftrightarrow> (\<forall>a \<in> set ps. peer_complete a) \<and> peers_distinct ps"

definition has_peer :: "peer_address_t list \<Rightarrow> peer_address_t \<Rightarrow> bool" where
  "has_peer ps a \<longleftrightarrow> (\<exists>b \<in> set ps. peer_eq b a)"

lemma read_peer_complete: "read_peer p = Some a \<Longrightarrow> peer_complete a"
  by (auto simp: read_peer_def peer_complete_def Let_def split: sum.splits if_splits)

lemma peers_distinct_snoc: "peers_distinct (ps @ [a]) \<longleftrightarrow> peers_distinct ps \<and> (\<forall>b \<in> set ps. \<not> peer_eq b a)"
  by (induction ps) auto

lemma peers_insert_ok: "peers_ok ps \<Longrightarrow> peer_complete a \<Longrightarrow> peers_ok (peers_insert a ps)"
  by (auto simp: peers_ok_def peers_insert_def peers_distinct_snoc)

lemma has_peer_insert: "has_peer (peers_insert a ps) b \<longleftrightarrow> has_peer ps b \<or> peer_eq a b"
  by (auto simp: has_peer_def peers_insert_def intro: peer_eq_trans peer_eq_sym)

lemma peers_insert_grows: "\<exists>qs. peers_insert a ps = ps @ qs \<and> length qs \<le> 1"
  by (simp add: peers_insert_def)

text \<open>The addresses in a document that may become peers.\<close>

definition admitted :: "web \<Rightarrow> bool \<Rightarrow> peer_json list \<Rightarrow> peer_address_t \<Rightarrow> bool" where
  "admitted W validation root b \<longleftrightarrow> (\<exists>p \<in> set root. read_peer p = Some b)
     \<and> (validation \<longrightarrow> (\<exists>t. is_blacklisted W t (pa_uuid b) = Inr False))"

lemma admitted_Cons: "admitted W v root b \<Longrightarrow> admitted W v (p # root) b"
  by (auto simp: admitted_def)

lemma initialize_result:
  "initialize_peer_list W v root t ps = Inr (n, ps') \<Longrightarrow> peers_ok ps \<Longrightarrow>
    peers_ok ps' \<and> (\<exists>qs. ps' = ps @ qs \<and> length qs \<le> n \<and> n \<le> length root)
    \<and> (\<forall>a. has_peer ps' a \<longrightarrow> has_peer ps a \<or> (\<exists>b. admitted W v root b \<and> peer_eq b a))
    \<and> (\<not> v \<longrightarrow> (\<forall>b. admitted W v root b \<longrightarrow> has_peer ps' b))"
proof (induction W v root t ps arbitrary: n ps' rule: initialize_peer_list.induct)
  case (2 W v p root t ps)
  show ?case
  proof (cases "read_peer p")
    case None
    with 2 show ?thesis by (fastforce simp: admitted_def)
  next
    case (Some a)
    then obtain bl where bl: "(if v then is_blacklisted W t (pa_uuid a) else Inr False) = Inr bl"
      using "2.prems"(1) by (auto split: sum.splits)
    show ?thesis
    proof (cases bl)
      case True
      with bl have "v" by (cases v) auto
      with 2(2) [OF Some bl True] "2.prems" Some bl True show ?thesis
        by (auto simp: le_SucI dest: admitted_Cons)
    next
      case False
      let ?ps = "peers_insert a ps"
      obtain m where m: "initialize_peer_list W v root (Suc t) ?ps = Inr (m, ps')" "n = Suc m"
        using "2.prems"(1) Some bl False by auto
      have "peers_ok ?ps" using "2.prems"(2) Some by (simp add: peers_insert_ok read_peer_complete)
      note IH = 2(3) [OF Some bl False m(1) this]
      have adm: "admitted W v (p # root) a" using Some bl False by (auto simp: admitted_def split: if_splits)
      obtain qs qs' where "?ps = ps @ qs" "length qs \<le> 1" "ps' = ?ps @ qs'" "length qs' \<le> m" "m \<le> length root"
        using IH peers_insert_grows [of a ps] by blast
      then have ext: "\<exists>rs. ps' = ps @ rs \<and> length rs \<le> n \<and> n \<le> length (p # root)" using m(2) by auto
      have new: "has_peer ps' c \<longrightarrow> has_peer ps c \<or> (\<exists>b. admitted W v (p # root) b \<and> peer_eq b c)" for c
        using IH adm has_peer_insert [of a ps c] admitted_Cons by blast
      have "has_peer ps' b" if "\<not> v" "admitted W v (p # root) b" for b
      proof (cases "admitted W v root b")
        case False
        with that Some have "b = a" by (auto simp: admitted_def)
        moreover have "has_peer ?ps a" by (simp add: has_peer_insert)
        ultimately show ?thesis using \<open>ps' = ?ps @ qs'\<close> by (auto simp: has_peer_def)
      qed (use IH that in blast)
      with IH ext new show ?thesis by blast
    qed
  qed
qed (simp add: admitted_def)

section \<open>Property\<close>


definition sample_json_peer :: peer_json where
  "sample_json_peer = \<lparr>pj_host = Inr ''h'', pj_port = Inr 80, pj_http_port = Inr 81, pj_uuid = None, pj_name = None\<rparr>"


section \<open>The peers of a daemon\<close>

text \<open>\<open>init_peers\<close> of \<open>swarm/main.cpp\<close>: both sources are read, and what the fetches return is not looked at.\<close>

record peer_source =
  ps_read_file :: "string \<Rightarrow> string option"
  ps_http_get :: "string \<Rightarrow> string \<Rightarrow> string res"
  ps_parse :: "string \<Rightarrow> peer_json list option"
  ps_web :: web

definition init_peers ::
  "peer_source \<Rightarrow> bool \<Rightarrow> string \<Rightarrow> string \<Rightarrow> peer_address_t list \<Rightarrow> (bool \<times> peer_address_t list) res" where
  "init_peers S validation peers_file peers_url peers =
     (if peers_file = [] \<and> peers_url = [] then Inr (False, peers)
      else bindE (if peers_file \<noteq> []
                  then bindE (fetch_peers_from_file (ps_read_file S) (ps_parse S) (ps_web S) validation peers_file peers)
                         (\<lambda>(_, _, peers). Inr peers)
                  else Inr peers) (\<lambda>peers.
           bindE (if peers_url \<noteq> []
                  then bindE (fetch_peers_from_url (ps_http_get S) (ps_parse S) (ps_web S) validation peers_url peers)
                         (\<lambda>(_, _, peers). Inr peers)
                  else Inr peers) (\<lambda>peers.
             Inr (peers \<noteq> [], peers))))"

lemma ingest_ok: "ingest_json parse W v s ps = Inr (found, logged, ps') \<Longrightarrow> peers_ok ps \<Longrightarrow> peers_ok ps'"
  by (auto simp: ingest_json_def Let_def split: option.splits dest: initialize_result)

lemma fetch_ok:
  "fetch_peers_from_file rf parse W v f ps = Inr (found, logged, ps') \<Longrightarrow> peers_ok ps \<Longrightarrow> peers_ok ps'"
  "fetch_peers_from_url get parse W v url ps = Inr (found', logged', ps') \<Longrightarrow> peers_ok ps \<Longrightarrow> peers_ok ps'"
  by (auto simp: fetch_peers_from_file_def fetch_peers_from_url_def split: option.splits intro: ingest_ok)

lemma init_peers_ok:
  assumes "init_peers S validation peers_file peers_url [] = Inr (ok, peers)"
  shows "peers_ok peers \<and> (ok \<longleftrightarrow> peers \<noteq> [])"
proof -
  have "peers_ok []" by (simp add: peers_ok_def)
  with assms show ?thesis
    by (auto simp: init_peers_def split: if_splits intro: fetch_ok(1) fetch_ok(2) [OF _ fetch_ok(1)] fetch_ok(2))
qed

end
