(* ===== verification/Options.thy ===== *)
theory Options
  imports Utils
begin

text \<open>
  The configuration of a daemon: \<open>options/simple_options.cpp\<close> declares the options, reads them from a
  JSON file and validates them; \<open>options/options.cpp\<close> derives from them what the program asks for.

  The option library of boost is third-party code. The model has its documented behaviour: an option
  is looked up by its full name and a name declared twice is ambiguous; storing converts each value to
  the declared type, keeps a value that was already given explicitly, and fills in defaults; notifying
  fails if a required option has no value. How a text is converted to a type is the parameter
  \<open>convert\<close>. Floating point values are kept as they are written.
\<close>

section \<open>Option names and declarations\<close>

definition AUDIT_MEM_SIZE :: string where "AUDIT_MEM_SIZE = ''audit_mem_size''"
definition AUDIT_ENABLED :: string where "AUDIT_ENABLED = ''audit_enabled''"
definition BOOTSTRAP_PEERS_FILE :: string where "BOOTSTRAP_PEERS_FILE = ''bootstrap_file''"
definition BOOTSTRAP_PEERS_URL :: string where "BOOTSTRAP_PEERS_URL = ''bootstrap_url''"
definition DEBUG_LOGGING :: string where "DEBUG_LOGGING = ''debug_logging''"
definition ETHERERUM_IO_API_TOKEN :: string where "ETHERERUM_IO_API_TOKEN = ''ethereum_io_api_token''"
definition ETHERERUM :: string where "ETHERERUM = ''ethereum''"
definition HTTP_PORT :: string where "HTTP_PORT = ''http_port''"
definition LISTENER_ADDRESS :: string where "LISTENER_ADDRESS = ''listener_address''"
definition LISTENER_PORT :: string where "LISTENER_PORT = ''listener_port''"
definition LOG_TO_STDOUT :: string where "LOG_TO_STDOUT = ''log_to_stdout''"
definition LOGFILE_DIR :: string where "LOGFILE_DIR = ''logfile_dir''"
definition LOGFILE_MAX_SIZE :: string where "LOGFILE_MAX_SIZE = ''logfile_max_size''"
definition LOGFILE_ROTATION_SIZE :: string where "LOGFILE_ROTATION_SIZE = ''logfile_rotation_size''"
definition MAX_STORAGE :: string where "MAX_STORAGE = ''max_storage''"
definition MEM_STORAGE :: string where "MEM_STORAGE = ''mem_storage''"
definition MONITOR_ADDRESS :: string where "MONITOR_ADDRESS = ''monitor_address''"
definition MONITOR_PORT :: string where "MONITOR_PORT = ''monitor_port''"
definition NODE_UUID :: string where "NODE_UUID = ''uuid''"
definition NODE_PUBKEY_FILE :: string where "NODE_PUBKEY_FILE = ''public_key_file''"
definition NODE_PRIVATEKEY_FILE :: string where "NODE_PRIVATEKEY_FILE = ''private_key_file''"
definition PBFT_ENABLED :: string where "PBFT_ENABLED = ''use_pbft''"
definition STATE_DIR :: string where "STATE_DIR = ''state_dir''"
definition WS_IDLE_TIMEOUT :: string where "WS_IDLE_TIMEOUT = ''ws_idle_timeout''"
definition PEER_VALIDATION_ENABLED :: string where "PEER_VALIDATION_ENABLED = ''peer_validation_enabled''"
definition SIGNED_KEY :: string where "SIGNED_KEY = ''signed_key''"
definition CHAOS_ENABLED :: string where "CHAOS_ENABLED = ''chaos_testing_enabled''"
definition CHAOS_NODE_FAILURE_SHAPE :: string where "CHAOS_NODE_FAILURE_SHAPE = ''chaos_node_failure_shape''"
definition CHAOS_NODE_FAILURE_SCALE :: string where "CHAOS_NODE_FAILURE_SCALE = ''chaos_node_failure_scale_hours''"
definition CHAOS_MESSAGE_DROP_CHANCE :: string where "CHAOS_MESSAGE_DROP_CHANCE = ''chaos_message_drop_chance''"
definition CHAOS_MESSAGE_DELAY_CHANCE :: string where "CHAOS_MESSAGE_DELAY_CHANCE = ''chaos_message_delay_chance''"
definition CHAOS_MESSAGE_DELAY_TIME :: string where "CHAOS_MESSAGE_DELAY_TIME = ''chaos_message_delay_time_milliseconds''"
definition CRYPTO_ENABLED_OUTGOING :: string where "CRYPTO_ENABLED_OUTGOING = ''crypto_enabled_outgoing''"
definition CRYPTO_ENABLED_INCOMING :: string where "CRYPTO_ENABLED_INCOMING = ''crypto_enabled_incoming''"

lemmas option_names = AUDIT_MEM_SIZE_def AUDIT_ENABLED_def BOOTSTRAP_PEERS_FILE_def BOOTSTRAP_PEERS_URL_def
  DEBUG_LOGGING_def ETHERERUM_IO_API_TOKEN_def ETHERERUM_def HTTP_PORT_def LISTENER_ADDRESS_def LISTENER_PORT_def
  LOG_TO_STDOUT_def LOGFILE_DIR_def LOGFILE_MAX_SIZE_def LOGFILE_ROTATION_SIZE_def MAX_STORAGE_def MEM_STORAGE_def
  MONITOR_ADDRESS_def MONITOR_PORT_def NODE_UUID_def NODE_PUBKEY_FILE_def NODE_PRIVATEKEY_FILE_def PBFT_ENABLED_def
  STATE_DIR_def WS_IDLE_TIMEOUT_def PEER_VALIDATION_ENABLED_def SIGNED_KEY_def CHAOS_ENABLED_def
  CHAOS_NODE_FAILURE_SHAPE_def CHAOS_NODE_FAILURE_SCALE_def CHAOS_MESSAGE_DROP_CHANCE_def
  CHAOS_MESSAGE_DELAY_CHANCE_def CHAOS_MESSAGE_DELAY_TIME_def CRYPTO_ENABLED_OUTGOING_def CRYPTO_ENABLED_INCOMING_def

datatype opt_type = T_string | T_uint16 | T_uint64 | T_uint | T_bool | T_double

datatype opt_value = V_string string | V_uint16 u16 | V_uint64 u64 | V_uint u32 | V_bool bool | V_double string

fun value_type :: "opt_value \<Rightarrow> opt_type" where
  "value_type (V_string _) = T_string"
| "value_type (V_uint16 _) = T_uint16"
| "value_type (V_uint64 _) = T_uint64"
| "value_type (V_uint _) = T_uint"
| "value_type (V_bool _) = T_bool"
| "value_type (V_double _) = T_double"

text \<open>Name, type, default value and whether the option is required.\<close>

type_synonym opt_decl = "string \<times> opt_type \<times> opt_value option \<times> bool"

definition build_options :: "opt_decl list" where
  "build_options =
    [(BOOTSTRAP_PEERS_FILE, T_string, None, False),
     (BOOTSTRAP_PEERS_URL, T_string, None, False),
     (ETHERERUM_IO_API_TOKEN, T_string, None, True),
     (ETHERERUM, T_string, None, True),
     (HTTP_PORT, T_uint16, Some (V_uint16 8080), False),
     (LISTENER_ADDRESS, T_string, None, True),
     (LISTENER_PORT, T_uint16, None, True),
     (MAX_STORAGE, T_string, Some (V_string ''2G''), False),
     (MEM_STORAGE, T_bool, Some (V_bool True), False),
     (NODE_UUID, T_string, None, False),
     (STATE_DIR, T_string, Some (V_string ''./.state/''), False),
     (WS_IDLE_TIMEOUT, T_uint64, None, False),
     (LOG_TO_STDOUT, T_bool, Some (V_bool False), False),
     (LOGFILE_DIR, T_string, Some (V_string ''logs/''), False),
     (LOGFILE_MAX_SIZE, T_string, Some (V_string ''512K''), False),
     (LOGFILE_ROTATION_SIZE, T_string, Some (V_string ''64K''), False),
     (DEBUG_LOGGING, T_bool, Some (V_bool False), False),
     (AUDIT_ENABLED, T_bool, Some (V_bool False), False),
     (AUDIT_MEM_SIZE, T_uint64, Some (V_uint64 10000), False),
     (MONITOR_ADDRESS, T_string, None, False),
     (MONITOR_PORT, T_uint16, None, False),
     (AUDIT_MEM_SIZE, T_uint64, Some (V_uint64 10000), False),
     (PBFT_ENABLED, T_bool, Some (V_bool False), False),
     (PEER_VALIDATION_ENABLED, T_bool, Some (V_bool False), False),
     (SIGNED_KEY, T_string, None, False),
     (NODE_PUBKEY_FILE, T_string, Some (V_string ''.state/public-key.pem''), False),
     (NODE_PRIVATEKEY_FILE, T_string, Some (V_string ''.state/private-key.pem''), False),
     (CRYPTO_ENABLED_INCOMING, T_bool, Some (V_bool False), False),
     (CRYPTO_ENABLED_OUTGOING, T_bool, Some (V_bool True), False),
     (CHAOS_ENABLED, T_bool, Some (V_bool False), False),
     (CHAOS_NODE_FAILURE_SHAPE, T_double, Some (V_double ''0.5''), False),
     (CHAOS_NODE_FAILURE_SCALE, T_double, Some (V_double ''10''), False),
     (CHAOS_MESSAGE_DELAY_CHANCE, T_double, Some (V_double ''0.1''), False),
     (CHAOS_MESSAGE_DELAY_TIME, T_uint, Some (V_uint 2500), False),
     (CHAOS_MESSAGE_DROP_CHANCE, T_double, Some (V_double ''0.025''), False)]"

section \<open>The store\<close>

text \<open>\<open>variables_map\<close>: a value and whether it is a default.\<close>

type_synonym variables_map = "(string, opt_value \<times> bool) smap"

definition opt_has :: "variables_map \<Rightarrow> string \<Rightarrow> bool" where
  "opt_has vm name \<longleftrightarrow> map_of vm name \<noteq> None"

text \<open>\<open>get<T>\<close>: the value, \<open>T()\<close> if there is none, and \<open>bad_any_cast\<close> if it has another type.\<close>

definition get_as :: "(opt_value \<Rightarrow> 'a option) \<Rightarrow> 'a \<Rightarrow> variables_map \<Rightarrow> string \<Rightarrow> 'a res" where
  "get_as cast zero vm name =
     (case map_of vm name of
        None \<Rightarrow> Inr zero
      | Some (v, _) \<Rightarrow> (case cast v of None \<Rightarrow> Inl (Runtime_error ''bad_any_cast'') | Some x \<Rightarrow> Inr x))"

definition get_string :: "variables_map \<Rightarrow> string \<Rightarrow> string res" where
  "get_string = get_as (\<lambda>v. case v of V_string s \<Rightarrow> Some s | _ \<Rightarrow> None) ''''"

definition get_uint16 :: "variables_map \<Rightarrow> string \<Rightarrow> u16 res" where
  "get_uint16 = get_as (\<lambda>v. case v of V_uint16 w \<Rightarrow> Some w | _ \<Rightarrow> None) 0"

definition get_uint64 :: "variables_map \<Rightarrow> string \<Rightarrow> u64 res" where
  "get_uint64 = get_as (\<lambda>v. case v of V_uint64 w \<Rightarrow> Some w | _ \<Rightarrow> None) 0"

definition get_bool :: "variables_map \<Rightarrow> string \<Rightarrow> bool res" where
  "get_bool = get_as (\<lambda>v. case v of V_bool b \<Rightarrow> Some b | _ \<Rightarrow> None) False"

text \<open>\<open>options_root.find_nothrow(name, false)\<close>.\<close>

definition find_option :: "string \<Rightarrow> opt_decl option res" where
  "find_option name =
     (case filter (\<lambda>d. fst d = name) build_options of
        [] \<Rightarrow> Inr None
      | [d] \<Rightarrow> Inr (Some d)
      | _ \<Rightarrow> Inl (Runtime_error ''ambiguous_option''))"

text \<open>\<open>po::store\<close>: the given values in turn, then the defaults of options without a value.\<close>

fun store_values :: "(opt_type \<Rightarrow> string \<Rightarrow> opt_value option) \<Rightarrow> (string \<times> string) list \<Rightarrow> variables_map \<Rightarrow> variables_map res" where
  "store_values convert [] vm = Inr vm"
| "store_values convert ((name, txt) # opts) vm =
     bindE (find_option name) (\<lambda>found.
       case found of
         None \<Rightarrow> Inl (Runtime_error ''unknown_option'')
       | Some (_, ty, _, _) \<Rightarrow>
           if (case map_of vm name of Some (_, d) \<Rightarrow> \<not> d | None \<Rightarrow> False) then store_values convert opts vm
           else (case convert ty txt of
              None \<Rightarrow> Inl (Runtime_error ''invalid_option_value'')
            | Some v \<Rightarrow> store_values convert opts (smap_set name (v, False) vm)))"

definition store_defaults :: "variables_map \<Rightarrow> variables_map" where
  "store_defaults vm =
     fold (\<lambda>(name, _, def, _) vm.
       case def of Some v \<Rightarrow> if map_of vm name = None then smap_set name (v, True) vm else vm | None \<Rightarrow> vm)
       build_options vm"

definition notify :: "variables_map \<Rightarrow> unit res" where
  "notify vm =
     (if list_ex (\<lambda>(name, _, _, required). required \<and> map_of vm name = None) build_options
      then Inl (Runtime_error ''required_option'') else Inr ())"

text \<open>
  \<open>handle_config_file_options\<close> on the members of the file, with their values as the texts that are
  handed to boost; \<open>None\<close> if the file could not be read or parsed, \<open>Some None\<close> if it is not an object.
\<close>

fun known_members :: "(string \<times> string) list \<Rightarrow> (string \<times> string) list res" where
  "known_members [] = Inr []"
| "known_members ((name, txt) # ms) =
     bindE (find_option name) (\<lambda>found.
       bindE (known_members ms) (\<lambda>opts. Inr (if found = None then opts else (name, txt) # opts)))"

definition handle_config_file_options ::
  "(opt_type \<Rightarrow> string \<Rightarrow> opt_value option) \<Rightarrow> (string \<times> string) list option option \<Rightarrow> variables_map \<Rightarrow> variables_map res" where
  "handle_config_file_options convert file vm =
     (case file of
        None \<Rightarrow> Inl (Runtime_error ''Failed to load'')
      | Some None \<Rightarrow> Inl (Runtime_error ''Config file should be an object'')
      | Some (Some members) \<Rightarrow>
          bindE (known_members members) (\<lambda>opts.
          bindE (store_values convert opts vm) (\<lambda>vm.
            let vm = store_defaults vm in
            bindE (notify vm) (\<lambda>_. Inr vm))))"

definition is_hex_notation :: "string \<Rightarrow> bool" where
  "is_hex_notation s \<longleftrightarrow> take 2 s = ''0x'' \<and> 2 < length s \<and> (\<forall>c \<in> set (drop 2 s). hex_val c \<noteq> None)"

definition defaulted :: "variables_map \<Rightarrow> string \<Rightarrow> bool" where
  "defaulted vm name = (case map_of vm name of Some (_, d) \<Rightarrow> d | None \<Rightarrow> False)"

definition validate_options :: "variables_map \<Rightarrow> bool res" where
  "validate_options vm =
     bindE (get_uint16 vm LISTENER_PORT) (\<lambda>port.
     bindE (get_string vm ETHERERUM) (\<lambda>eth_address.
       Inr (\<not> (port \<le> 1024
          \<or> \<not> is_hex_notation eth_address
          \<or> \<not> (opt_has vm BOOTSTRAP_PEERS_FILE \<or> opt_has vm BOOTSTRAP_PEERS_URL)
          \<or> (\<not> defaulted vm NODE_PUBKEY_FILE \<and> opt_has vm NODE_UUID)))))"

text \<open>
  \<open>parse\<close>; \<open>command_line\<close> is what \<open>handle_command_line_options\<close> returns, false for a request of the
  version or the help or for a wrong command line, true with the file read from the path it gives.
\<close>

definition options_parse ::
  "(opt_type \<Rightarrow> string \<Rightarrow> opt_value option) \<Rightarrow> bool \<Rightarrow> (string \<times> string) list option option \<Rightarrow> variables_map \<Rightarrow> (bool \<times> variables_map) res" where
  "options_parse convert command_line file vm =
     (if \<not> command_line then Inr (False, vm)
      else bindE (handle_config_file_options convert file vm) (\<lambda>vm.
           bindE (validate_options vm) (\<lambda>valid. Inr (valid, vm))))"

text \<open>
  \<open>handle_command_line_options\<close>, on what Boost makes of the arguments: \<open>None\<close> if it throws, otherwise
  which of the options occur, with the argument of \<open>config\<close>. The result is the path of the
  configuration file, or \<open>None\<close> where the function returns false. The option \<open>config\<close> has a default,
  so that the store always counts it.
\<close>

record command_line =
  cl_help :: bool
  cl_version :: bool
  cl_config :: "string option"

definition DEFAULT_CONFIG_FILE :: string where
  "DEFAULT_CONFIG_FILE = ''bluzelle.json''"

definition handle_command_line_options :: "command_line option \<Rightarrow> string option" where
  "handle_command_line_options args =
     (case args of
        None \<Rightarrow> None
      | Some cl \<Rightarrow>
          (let config = (case cl_config cl of None \<Rightarrow> Some DEFAULT_CONFIG_FILE | Some path \<Rightarrow> Some path) in
           if cl_version cl then None
           else if cl_help cl \<or> config = None then None
           else config))"

definition parse_command_line ::
  "(opt_type \<Rightarrow> string \<Rightarrow> opt_value option) \<Rightarrow> (string \<Rightarrow> (string \<times> string) list option option) \<Rightarrow> command_line option
   \<Rightarrow> variables_map \<Rightarrow> (bool \<times> variables_map) res" where
  "parse_command_line convert files args vm =
     (case handle_command_line_options args of
        None \<Rightarrow> options_parse convert False None vm
      | Some config_file \<Rightarrow> options_parse convert True (files config_file) vm)"

section \<open>Derived options\<close>

definition BYTE_SUFFIXES :: "(char, u64) smap" where
  "BYTE_SUFFIXES = [(CHR ''B'', 1), (CHR ''G'', 1073741824), (CHR ''K'', 1024), (CHR ''M'', 1048576), (CHR ''T'', 1099511627776)]"

text \<open>The suffix part of the expression, \<open>[K,M,G,T]?[B]?\<close>; the comma is one of the characters.\<close>

definition size_suffix :: "string \<Rightarrow> bool" where
  "size_suffix s \<longleftrightarrow> s \<in> set [[], ''B'', ''K'', '','', ''M'', ''G'', ''T'', ''KB'', '',B'', ''MB'', ''GB'', ''TB'']"

definition parse_size :: "string \<Rightarrow> u64 res" where
  "parse_size max_value =
     (let digits = takeWhile (\<lambda>c. digit_val c \<noteq> None) max_value; suffix = dropWhile (\<lambda>c. digit_val c \<noteq> None) max_value in
      if digits \<noteq> [] \<and> size_suffix suffix
      then bindE (cast_digits_u64 digits) (\<lambda>n.
             case map_of BYTE_SUFFIXES (if suffix = [] then CHR ''B'' else hd suffix) of
               None \<Rightarrow> Inl Out_of_range
             | Some factor \<Rightarrow> Inr (n * factor))
      else Inl (Runtime_error (CHR 0x0A # ''Unable to parse size value from options: '' @ max_value)))"

definition get_max_storage :: "variables_map \<Rightarrow> u64 res" where
  "get_max_storage vm = bindE (get_string vm MAX_STORAGE) parse_size"

definition get_logfile_rotation_size :: "variables_map \<Rightarrow> u64 res" where
  "get_logfile_rotation_size vm = bindE (get_string vm LOGFILE_ROTATION_SIZE) parse_size"

definition get_logfile_max_size :: "variables_map \<Rightarrow> u64 res" where
  "get_logfile_max_size vm = bindE (get_string vm LOGFILE_MAX_SIZE) parse_size"

definition options_get_uuid :: "openssl \<Rightarrow> (string \<Rightarrow> string) \<Rightarrow> variables_map \<Rightarrow> uuid_t res" where
  "options_get_uuid S base64_encode vm =
     (if opt_has vm NODE_UUID then get_string vm NODE_UUID
      else bindE (get_string vm NODE_PUBKEY_FILE) (\<lambda>file.
           bindE (read_pem_file S file ''PUBLIC KEY'') (\<lambda>pubkey_raw. Inr (base64_encode pubkey_raw))))"

text \<open>
  Reading an address and resolving a name are calls of asio; their exceptions carry a text. Whatever
  is thrown inside the try blocks is thrown again as a runtime error with that text.
\<close>

definition asio_call :: "string + 'a \<Rightarrow> 'a res" where
  "asio_call r = (case r of Inl what \<Rightarrow> Inl (Runtime_error what) | Inr x \<Rightarrow> Inr x)"

definition rethrow :: "string \<Rightarrow> 'a res \<Rightarrow> 'a res" where
  "rethrow prefix r = (case r of Inl (Runtime_error what) \<Rightarrow> Inl (Runtime_error (CHR 0x0A # prefix @ what)) | _ \<Rightarrow> r)"

definition get_listener :: "(string \<Rightarrow> string + string) \<Rightarrow> variables_map \<Rightarrow> endpoint res" where
  "get_listener from_string vm =
     rethrow ''Could not create listener: ''
       (bindE (get_string vm LISTENER_ADDRESS) (\<lambda>a. bindE (asio_call (from_string a)) (\<lambda>addr.
           bindE (get_uint16 vm LISTENER_PORT) (\<lambda>port. Inr (addr, port)))))"

definition get_monitor_endpoint :: "(string \<Rightarrow> string \<Rightarrow> string + endpoint) \<Rightarrow> variables_map \<Rightarrow> endpoint option res" where
  "get_monitor_endpoint resolve vm =
     (if opt_has vm MONITOR_PORT \<and> opt_has vm MONITOR_ADDRESS
      then rethrow ''Could not create monitor endpoint: ''
             (bindE (get_string vm MONITOR_ADDRESS) (\<lambda>a. bindE (get_uint16 vm MONITOR_PORT) (\<lambda>port.
                bindE (asio_call (resolve a (to_string (ucast port)))) (\<lambda>ep. Inr (Some ep)))))
      else Inr None)"

definition pbft_enabled :: "variables_map \<Rightarrow> bool res" where
  "pbft_enabled vm = get_bool vm PBFT_ENABLED"

definition get_ethererum_address :: "variables_map \<Rightarrow> string res" where
  "get_ethererum_address vm = get_string vm ETHERERUM"

definition get_ethererum_io_api_token :: "variables_map \<Rightarrow> string res" where
  "get_ethererum_io_api_token vm = get_string vm ETHERERUM_IO_API_TOKEN"

definition get_bootstrap_peers_file :: "variables_map \<Rightarrow> string res" where
  "get_bootstrap_peers_file vm = get_string vm BOOTSTRAP_PEERS_FILE"

definition get_bootstrap_peers_url :: "variables_map \<Rightarrow> string res" where
  "get_bootstrap_peers_url vm = get_string vm BOOTSTRAP_PEERS_URL"

definition get_debug_logging :: "variables_map \<Rightarrow> bool res" where
  "get_debug_logging vm = get_bool vm DEBUG_LOGGING"

definition get_log_to_stdout :: "variables_map \<Rightarrow> bool res" where
  "get_log_to_stdout vm = get_bool vm LOG_TO_STDOUT"

definition get_ws_idle_timeout :: "variables_map \<Rightarrow> u64 res" where
  "get_ws_idle_timeout vm = get_uint64 vm WS_IDLE_TIMEOUT"

definition get_audit_mem_size :: "variables_map \<Rightarrow> u64 res" where
  "get_audit_mem_size vm = get_uint64 vm AUDIT_MEM_SIZE"

definition get_state_dir :: "variables_map \<Rightarrow> string res" where
  "get_state_dir vm = get_string vm STATE_DIR"

definition get_logfile_dir :: "variables_map \<Rightarrow> string res" where
  "get_logfile_dir vm = get_string vm LOGFILE_DIR"

definition get_mem_storage :: "variables_map \<Rightarrow> bool res" where
  "get_mem_storage vm = get_bool vm MEM_STORAGE"

definition get_http_port :: "variables_map \<Rightarrow> u16 res" where
  "get_http_port vm = get_uint16 vm HTTP_PORT"

definition peer_validation_enabled :: "variables_map \<Rightarrow> bool res" where
  "peer_validation_enabled vm = get_bool vm PEER_VALIDATION_ENABLED"

definition get_signed_key :: "variables_map \<Rightarrow> string res" where
  "get_signed_key vm = get_string vm SIGNED_KEY"

lemmas option_getters = pbft_enabled_def get_ethererum_address_def get_ethererum_io_api_token_def
  get_bootstrap_peers_file_def get_bootstrap_peers_url_def get_debug_logging_def get_log_to_stdout_def
  get_ws_idle_timeout_def get_audit_mem_size_def get_state_dir_def get_logfile_dir_def get_mem_storage_def
  get_http_port_def peer_validation_enabled_def get_signed_key_def

section \<open>Well-typed stores\<close>

definition option_type :: "string \<Rightarrow> opt_type option" where
  "option_type = map_of (map (\<lambda>(name, ty, _). (name, ty)) build_options)"

definition vm_typed :: "variables_map \<Rightarrow> bool" where
  "vm_typed vm \<longleftrightarrow> (\<forall>name v d. map_of vm name = Some (v, d) \<longrightarrow> option_type name = Some (value_type v))"

lemma map_of_filter_single:
  "filter (\<lambda>d. fst d = name) ds = [(n, ty, r)] \<Longrightarrow> n = name \<and> map_of (map (\<lambda>(name, ty, _). (name, ty)) ds) name = Some ty"
  by (induction ds) (auto split: if_splits)

lemma find_option_type: "find_option name = Inr (Some (n, ty, def, req)) \<Longrightarrow> option_type name = Some ty"
  unfolding find_option_def option_type_def
  by (auto split: list.splits dest!: map_of_filter_single)

lemma vm_typed_set: "vm_typed vm \<Longrightarrow> option_type name = Some (value_type v) \<Longrightarrow> vm_typed (smap_set name (v, d) vm)"
  by (auto simp: vm_typed_def)

lemma store_values_typed:
  assumes "\<And>ty s v. convert ty s = Some v \<Longrightarrow> value_type v = ty"
  shows "store_values convert opts vm = Inr vm' \<Longrightarrow> vm_typed vm \<Longrightarrow> vm_typed vm'"
  using assms
proof (induction convert opts vm arbitrary: vm' rule: store_values.induct)
  case (2 convert name t opts vm)
  from 2(3) obtain n ty def req where f: "find_option name = Inr (Some (n, ty, def, req))"
    by (auto simp: bindE_def split: sum.splits option.splits)
  show ?case
  proof (cases "case map_of vm name of Some (_, d) \<Rightarrow> \<not> d | None \<Rightarrow> False")
    case True
    then show ?thesis using 2 f by simp
  next
    case False
    then obtain v where v: "convert ty t = Some v" and s: "store_values convert opts (smap_set name (v, False) vm) = Inr vm'"
      using 2(3) f by (auto split: option.splits)
    have "option_type name = Some (value_type v)"
      using find_option_type [OF f] 2(5) [OF v] by simp
    then show ?thesis using 2(2) [OF f refl _ _ _ False v s] 2(4,5) by (simp add: vm_typed_set)
  qed
qed simp

text \<open>What a look-up finds after the defaults are filled in: the given value, or the first default declared.\<close>

fun default_in :: "opt_decl list \<Rightarrow> string \<Rightarrow> opt_value option" where
  "default_in [] name = None"
| "default_in ((n, _, def, _) # ds) name = (if n = name \<and> def \<noteq> None then def else default_in ds name)"

lemma fold_defaults_lookup:
  fixes ds :: "opt_decl list"
  shows "map_of (fold (\<lambda>(name, _, def, _) vm.
       case def of Some v \<Rightarrow> if map_of vm name = None then smap_set name (v, True) vm else vm | None \<Rightarrow> vm) ds vm) name
     = (case map_of vm name of Some e \<Rightarrow> Some e | None \<Rightarrow> map_option (\<lambda>v. (v, True)) (default_in ds name))"
  by (induction ds arbitrary: vm) (auto split: option.splits if_splits)

lemmas store_defaults_lookup = fold_defaults_lookup [of build_options, folded store_defaults_def]

lemma default_types: "list_all (\<lambda>(name, _, def, _). case def of Some v \<Rightarrow> option_type name = Some (value_type v) | None \<Rightarrow> True) build_options"
  by code_simp

lemma default_in_typed:
  "list_all (\<lambda>(name, _, def, _). case def of Some v \<Rightarrow> option_type name = Some (value_type v) | None \<Rightarrow> True) ds
    \<Longrightarrow> default_in ds name = Some v \<Longrightarrow> option_type name = Some (value_type v)"
  by (induction ds name rule: default_in.induct) (auto split: if_splits)

lemma default_in_declared: "(name, ty, def, req) \<in> set ds \<Longrightarrow> def \<noteq> None \<Longrightarrow> default_in ds name \<noteq> None"
  by (induction ds name rule: default_in.induct) auto

lemma store_defaults_typed: "vm_typed vm \<Longrightarrow> vm_typed (store_defaults vm)"
  using default_in_typed [OF default_types]
  by (auto simp: vm_typed_def store_defaults_lookup split: option.splits)

lemma store_defaults_present: "(name, ty, def, req) \<in> set build_options \<Longrightarrow> def \<noteq> None \<Longrightarrow> opt_has (store_defaults vm) name"
  by (frule default_in_declared) (auto simp: opt_has_def store_defaults_lookup split: option.splits)

lemma get_as_typed:
  assumes "vm_typed vm" "option_type name = Some ty" "\<And>v. value_type v = ty \<Longrightarrow> cast v \<noteq> None"
  shows "\<exists>x. get_as cast zero vm name = Inr x"
proof (cases "map_of vm name")
  case None
  then show ?thesis by (simp add: get_as_def)
next
  case (Some e)
  obtain v d where e: "e = (v, d)" by (cases e)
  have "value_type v = ty" using assms(1,2) Some by (auto simp: vm_typed_def e)
  then obtain x where "cast v = Some x" using assms(3) by blast
  then show ?thesis using Some by (simp add: get_as_def e)
qed

lemma get_typed:
  assumes "vm_typed vm"
  shows "option_type name = Some T_string \<Longrightarrow> \<exists>s. get_string vm name = Inr s"
    and "option_type name = Some T_uint16 \<Longrightarrow> \<exists>w. get_uint16 vm name = Inr w"
    and "option_type name = Some T_uint64 \<Longrightarrow> \<exists>w. get_uint64 vm name = Inr w"
    and "option_type name = Some T_bool \<Longrightarrow> \<exists>b. get_bool vm name = Inr b"
  unfolding get_string_def get_uint16_def get_uint64_def get_bool_def
  by (erule get_as_typed [OF assms]; case_tac v; simp)+

lemma getter_types:
  "list_all (\<lambda>(name, ty). option_type name = Some ty)
     [(PBFT_ENABLED, T_bool), (ETHERERUM, T_string), (ETHERERUM_IO_API_TOKEN, T_string), (BOOTSTRAP_PEERS_FILE, T_string),
      (BOOTSTRAP_PEERS_URL, T_string), (DEBUG_LOGGING, T_bool), (LOG_TO_STDOUT, T_bool), (WS_IDLE_TIMEOUT, T_uint64),
      (AUDIT_MEM_SIZE, T_uint64), (STATE_DIR, T_string), (LOGFILE_DIR, T_string), (MEM_STORAGE, T_bool),
      (HTTP_PORT, T_uint16), (PEER_VALIDATION_ENABLED, T_bool), (SIGNED_KEY, T_string)]"
  by code_simp

text \<open>No getter raises on a well-typed store.\<close>

lemma getters_return:
  assumes "vm_typed vm"
  shows "\<forall>get \<in> {pbft_enabled, get_debug_logging, get_log_to_stdout, get_mem_storage, peer_validation_enabled}. \<exists>b. get vm = Inr b"
    and "\<forall>get \<in> {get_ethererum_address, get_ethererum_io_api_token, get_bootstrap_peers_file, get_bootstrap_peers_url,
        get_state_dir, get_logfile_dir, get_signed_key}. \<exists>s. get vm = Inr s"
    and "\<forall>get \<in> {get_ws_idle_timeout, get_audit_mem_size}. \<exists>w. get vm = Inr w"
    and "\<exists>w. get_http_port vm = Inr w"
  using getter_types get_typed [OF assms] by (auto simp: option_getters)

lemma config_file_store:
  assumes "\<And>ty s v. convert ty s = Some v \<Longrightarrow> value_type v = ty"
    and "handle_config_file_options convert (Some (Some members)) [] = Inr vm"
  shows "vm_typed vm \<and> (\<forall>(name, _, def, req) \<in> set build_options. def \<noteq> None \<or> req \<longrightarrow> opt_has vm name)"
proof -
  from assms(2) obtain opts vm1 where s: "store_values convert opts [] = Inr vm1" and vm: "vm = store_defaults vm1" and n: "notify vm = Inr ()"
    by (auto simp: handle_config_file_options_def Let_def)
  have "vm_typed vm1"
    using store_values_typed [OF assms(1) s] by (simp add: vm_typed_def)
  from store_defaults_typed [OF this] store_defaults_present n show ?thesis
    by (fastforce simp: vm opt_has_def notify_def list_ex_iff split: if_splits)
qed


text \<open>A conversion of strings and ports, and a configuration file with the required options.\<close>

definition sample_convert :: "opt_type \<Rightarrow> string \<Rightarrow> opt_value option" where
  "sample_convert ty s =
     (case ty of
        T_string \<Rightarrow> Some (V_string s)
      | T_uint16 \<Rightarrow> (case read_digits 0 s of Some n \<Rightarrow> if n < 65536 then Some (V_uint16 (word_of_nat n)) else None | None \<Rightarrow> None)
      | _ \<Rightarrow> None)"

definition sample_members :: "(string \<times> string) list" where
  "sample_members = [(''bootstrap_file'', ''peers.json''), (''ethereum'', ''0x006eae''), (''ethereum_io_api_token'', ''abc''),
     (''listener_address'', ''127.0.0.1''), (''listener_port'', ''49152''), (''unknown'', ''1'')]"

lemma sample_convert_typed: "sample_convert ty s = Some v \<Longrightarrow> value_type v = ty"
  by (auto simp: sample_convert_def split: opt_type.splits option.splits if_splits)

definition sample_store :: variables_map where
  "sample_store = [(''bootstrap_file'', V_string ''peers.json'', False), (''ethereum'', V_string ''0x006eae'', False),
     (''ethereum_io_api_token'', V_string ''abc'', False), (''listener_address'', V_string ''127.0.0.1'', False),
     (''listener_port'', V_uint16 49152, False)]"

lemma sample_known: "known_members sample_members = Inr (butlast sample_members)"
  by code_simp

lemma sample_stored: "store_values sample_convert (butlast sample_members) [] = Inr sample_store"
  by (simp add: sample_members_def sample_store_def sample_convert_def find_option_def build_options_def option_names digit_val_def)

lemma sample_defaulted: "validate_options (store_defaults sample_store) = Inr True"
  by (simp add: validate_options_def get_uint16_def get_string_def get_as_def opt_has_def defaulted_def is_hex_notation_def
      store_defaults_lookup sample_store_def option_names build_options_def hex_val_def)

lemma sample_notified: "notify (store_defaults sample_store) = Inr ()"
  by (simp add: notify_def store_defaults_lookup) (simp add: build_options_def sample_store_def option_names)

lemma sample_parse: "options_parse sample_convert True (Some (Some sample_members)) [] = Inr (True, store_defaults sample_store)"
  by (simp add: options_parse_def handle_config_file_options_def sample_known sample_stored sample_notified sample_defaulted)


section \<open>An option that is declared twice\<close>

text \<open>
  a configuration file that gives the memory limit of the audit module is refused: the option is
  declared in two groups and the look-up by name finds both, so that the option can never be set.
\<close>

theorem audit_mem_size_ambiguous:
  assumes "AUDIT_MEM_SIZE \<in> fst ` set members"
  shows "\<exists>what. options_parse convert True (Some (Some members)) vm = Inl (Runtime_error what)"
proof -
  have amb: "find_option AUDIT_MEM_SIZE = Inl (Runtime_error ''ambiguous_option'')" by code_simp
  have "\<exists>what. known_members members = Inl (Runtime_error what)"
    using assms
  proof (induction members rule: known_members.induct)
    case (2 name t ms)
    show ?case
    proof (cases "find_option name")
      case (Inl e)
      then show ?thesis by (auto simp: find_option_def split: list.splits)
    next
      case (Inr found)
      then have "AUDIT_MEM_SIZE \<in> fst ` set ms" using 2(2) amb by auto
      with 2(1) [OF Inr] Inr show ?thesis by auto
    qed
  qed simp
  then show ?thesis by (auto simp: options_parse_def handle_config_file_options_def)
qed

theorem audit_mem_size_ambiguous_witness:
  "AUDIT_MEM_SIZE \<in> fst ` set [(''audit_mem_size'', ''5000'')]
    \<and> (\<exists>what. options_parse sample_convert True (Some (Some [(''audit_mem_size'', ''5000'')])) [] = Inl (Runtime_error what))"
proof -
  have m: "AUDIT_MEM_SIZE \<in> fst ` set [(''audit_mem_size'', ''5000'')]" by (simp add: AUDIT_MEM_SIZE_def)
  show ?thesis using m audit_mem_size_ambiguous [OF m, of sample_convert "[]"] by blast
qed

section \<open>Sizes\<close>

text \<open>The power of 1024 a suffix stands for.\<close>

definition suffix_power :: "string \<Rightarrow> nat" where
  "suffix_power s = (case s of [] \<Rightarrow> 0 | c # _ \<Rightarrow>
     if c = CHR ''K'' then 1 else if c = CHR ''M'' then 2 else if c = CHR ''G'' then 3 else if c = CHR ''T'' then 4 else 0)"

lemma suffix_no_digit: "size_suffix s \<Longrightarrow> s = [] \<or> digit_val (hd s) = None"
  by (auto simp: size_suffix_def digit_val_def)

lemma split_digits:
  assumes "size_suffix s"
  shows "takeWhile (\<lambda>c. digit_val c \<noteq> None) (show_nat n @ s) = show_nat n"
    and "dropWhile (\<lambda>c. digit_val c \<noteq> None) (show_nat n @ s) = s"
proof -
  have "takeWhile (\<lambda>c. digit_val c \<noteq> None) s = []" "dropWhile (\<lambda>c. digit_val c \<noteq> None) s = s"
    using suffix_no_digit [OF assms] by (cases s; auto)+
  moreover have "\<And>c. c \<in> set (show_nat n) \<Longrightarrow> digit_val c \<noteq> None" by (rule digit_val_show_nat)
  ultimately show "takeWhile (\<lambda>c. digit_val c \<noteq> None) (show_nat n @ s) = show_nat n"
    and "dropWhile (\<lambda>c. digit_val c \<noteq> None) (show_nat n @ s) = s"
    by (simp_all add: takeWhile_append2 dropWhile_append2)
qed

text \<open>
  a size is the number times the power of 1024 of its suffix, computed in 64 bits: a product of
  more than 64 bits wraps around. A number of more than 64 bits is refused; so is a suffix that starts
  with a comma, which the pattern accepts and the table of suffixes does not have.
\<close>

theorem parse_size_outcome:
  assumes "size_suffix s"
  shows "parse_size (show_nat n @ s) =
     (if 2 ^ 64 \<le> n then Inl (Runtime_error ''bad_lexical_cast'')
      else if s \<noteq> [] \<and> hd s = CHR '','' then Inl Out_of_range
      else Inr (word_of_nat (n * 1024 ^ suffix_power s)))"
proof -
  have f: "map_of BYTE_SUFFIXES (if s = [] then CHR ''B'' else hd s)
      = (if s \<noteq> [] \<and> hd s = CHR '','' then None else Some (word_of_nat (1024 ^ suffix_power s)))"
    using assms by (auto simp: size_suffix_def BYTE_SUFFIXES_def suffix_power_def)
  have c: "cast_digits_u64 (show_nat n) = (if 2 ^ 64 \<le> n then Inl (Runtime_error ''bad_lexical_cast'') else Inr (word_of_nat n))"
    by (simp add: cast_digits_u64_def)
  show ?thesis
    unfolding parse_size_def Let_def split_digits [OF assms] f c using assms by (cases "2 ^ 64 \<le> n") simp_all
qed

theorem parse_size_outcome_witness:
  "size_suffix ''T'' \<and> size_suffix ''G'' \<and> size_suffix '',''
    \<and> parse_size (show_nat 2 @ ''G'') = Inr 2147483648
    \<and> parse_size (show_nat 16777216 @ ''T'') = Inr 0
    \<and> parse_size (show_nat 5 @ '','') = Inl Out_of_range"
proof -
  have s: "size_suffix ''T''" "size_suffix ''G''" "size_suffix '',''" by (simp_all add: size_suffix_def)
  have "parse_size (show_nat 2 @ ''G'') = Inr 2147483648"
    by (subst parse_size_outcome [OF s(2)]) (simp add: suffix_power_def)
  moreover have "parse_size (show_nat 16777216 @ ''T'') = Inr 0"
    by (subst parse_size_outcome [OF s(1)]) (simp add: suffix_power_def word_unat_eq_iff unat_of_nat_u64)
  moreover have "parse_size (show_nat 5 @ '','') = Inl Out_of_range"
    by (subst parse_size_outcome [OF s(3)]) simp
  ultimately show ?thesis using s by blast
qed

end
