(* ===== verification/Message_Crypto.thy ===== *)
theory Message_Crypto
  imports Options
begin

text \<open>
  Signatures on messages, \<open>crypto/crypto.cpp\<close>. An envelope is the protobuf message \<open>bzn_envelope\<close> with
  its payload as bytes. OpenSSL is the parameter \<open>ec_lib\<close>: reading a public key from a PEM text, reading
  the private key from a file, computing and checking a signature, and SHA-512. The laws of a signature
  scheme are the predicate \<open>key_pair\<close>.
\<close>

section \<open>Envelopes\<close>

datatype payload =
    P_not_set
  | P_pbft_request string
  | P_database_response string
  | P_json string
  | P_audit string
  | P_pbft string
  | P_pbft_membership string
  | P_status_request string

datatype payload_kind =
    kNotSet | kPbftRequest | kDatabaseResponse | kJson | kAudit | kPbft | kPbftMembership | kStatusRequest

record envelope =
  ev_sender :: string
  ev_signature :: string
  ev_payload :: payload

fun payload_case :: "payload \<Rightarrow> payload_kind" where
  "payload_case P_not_set = kNotSet"
| "payload_case (P_pbft_request _) = kPbftRequest"
| "payload_case (P_database_response _) = kDatabaseResponse"
| "payload_case (P_json _) = kJson"
| "payload_case (P_audit _) = kAudit"
| "payload_case (P_pbft _) = kPbft"
| "payload_case (P_pbft_membership _) = kPbftMembership"
| "payload_case (P_status_request _) = kStatusRequest"

section \<open>The crypto object\<close>

record ec_lib =
  ec_public :: "string \<Rightarrow> string option" \<comment> \<open>the checked key in a PEM text\<close>
  ec_private :: "string \<Rightarrow> string option" \<comment> \<open>the checked private key in a file\<close>
  ec_sign :: "string \<Rightarrow> string \<Rightarrow> string option" \<comment> \<open>private key and text to signature\<close>
  ec_verify :: "string \<Rightarrow> string \<Rightarrow> string \<Rightarrow> bool" \<comment> \<open>public key, text and signature\<close>
  ec_sha512 :: "string \<Rightarrow> string option"

record crypto =
  cr_uuid :: "uuid_t res" \<comment> \<open>what \<open>options->get_uuid()\<close> returns\<close>
  cr_key :: "string option" \<comment> \<open>\<open>private_key_EVP\<close>, if it holds a key\<close>

definition PEM_PREFIX :: string where "PEM_PREFIX = ''-----BEGIN PUBLIC KEY-----'' @ [CHR 0x0A]"
definition PEM_SUFFIX :: string where "PEM_SUFFIX = CHR 0x0A # ''-----END PUBLIC KEY-----'' @ [CHR 0x0A]"

definition load_private_key :: "ec_lib \<Rightarrow> variables_map \<Rightarrow> crypto \<Rightarrow> (bool \<times> crypto) res" where
  "load_private_key L vm cr =
     bindE (get_string vm NODE_PRIVATEKEY_FILE) (\<lambda>filename.
       Inr (ec_private L filename \<noteq> None, cr\<lparr>cr_key := ec_private L filename\<rparr>))"

definition new_crypto :: "ec_lib \<Rightarrow> uuid_t res \<Rightarrow> variables_map \<Rightarrow> crypto res" where
  "new_crypto L uuid vm =
     (let cr = \<lparr>cr_uuid = uuid, cr_key = None\<rparr> in
      bindE (get_bool vm CRYPTO_ENABLED_OUTGOING) (\<lambda>outgoing.
        if outgoing then bindE (load_private_key L vm cr) (\<lambda>(_, cr). Inr cr) else Inr cr))"

fun extract_payload :: "payload \<Rightarrow> string res" where
  "extract_payload (P_pbft_request s) = Inr s"
| "extract_payload (P_database_response s) = Inr s"
| "extract_payload (P_json s) = Inr s"
| "extract_payload (P_audit s) = Inr s"
| "extract_payload (P_pbft s) = Inr s"
| "extract_payload (P_pbft_membership s) = Inr s"
| "extract_payload _ = Inl (Runtime_error ''Crypto does not know how to handle a message with type'')"

text \<open>
  \<open>verify\<close>: the sender is written between the lines of a PEM file; writing the empty string counts as
  a failure. The payload is asked for only if the key could be read.
\<close>

definition crypto_verify :: "ec_lib \<Rightarrow> envelope \<Rightarrow> bool res" where
  "crypto_verify L msg =
     (if ev_sender msg = [] then Inr False
      else case ec_public L (PEM_PREFIX @ ev_sender msg @ PEM_SUFFIX) of
        None \<Rightarrow> Inr False
      | Some pubkey \<Rightarrow>
          bindE (extract_payload (ev_payload msg)) (\<lambda>p. Inr (ec_verify L pubkey p (ev_signature msg))))"

text \<open>\<open>sign\<close>: the result, and the message, which may have got a sender and a signature.\<close>

definition crypto_sign :: "ec_lib \<Rightarrow> crypto \<Rightarrow> envelope \<Rightarrow> (bool \<times> envelope) res" where
  "crypto_sign L cr msg =
     bindE (if ev_sender msg = [] then bindE (cr_uuid cr) (\<lambda>u. Inr (msg\<lparr>ev_sender := u\<rparr>)) else Inr msg) (\<lambda>msg.
     bindE (cr_uuid cr) (\<lambda>uuid.
       if ev_sender msg \<noteq> uuid then Inr (False, msg)
       else case cr_key cr of
         None \<Rightarrow> Inr (False, msg)
       | Some key \<Rightarrow>
           bindE (extract_payload (ev_payload msg)) (\<lambda>p.
             case ec_sign L key p of
               None \<Rightarrow> Inr (False, msg)
             | Some s \<Rightarrow> Inr (True, msg\<lparr>ev_signature := s\<rparr>))))"

definition crypto_hash :: "ec_lib \<Rightarrow> string \<Rightarrow> string res" where
  "crypto_hash L msg =
     (case ec_sha512 L msg of
        None \<Rightarrow> Inl (Runtime_error (CHR 0x0A # ''failed to compute message hash '' @ msg))
      | Some h \<Rightarrow> Inr h)"

section \<open>Signatures\<close>

text \<open>
  A key pair whose public half is what the sender's name reads as, with the documented law of signing:
  every text can be signed, and its signature verifies.
\<close>

definition key_pair :: "ec_lib \<Rightarrow> uuid_t \<Rightarrow> string \<Rightarrow> bool" where
  "key_pair L uuid private_key \<longleftrightarrow> uuid \<noteq> []
     \<and> (\<exists>public_key. ec_public L (PEM_PREFIX @ uuid @ PEM_SUFFIX) = Some public_key
         \<and> (\<forall>p. \<exists>s. ec_sign L private_key p = Some s \<and> ec_verify L public_key p s))"

lemma sign_verifies:
  assumes "key_pair L uuid private_key" "cr_uuid cr = Inr uuid" "cr_key cr = Some private_key"
    and "ev_sender msg = [] \<or> ev_sender msg = uuid" "extract_payload (ev_payload msg) = Inr p"
  shows "\<exists>msg'. crypto_sign L cr msg = Inr (True, msg') \<and> ev_sender msg' = uuid \<and> ev_payload msg' = ev_payload msg
     \<and> crypto_verify L msg' = Inr True"
proof -
  from assms(1) obtain public_key s where k: "uuid \<noteq> []" "ec_public L (PEM_PREFIX @ uuid @ PEM_SUFFIX) = Some public_key"
    and s: "ec_sign L private_key p = Some s" "ec_verify L public_key p s"
    unfolding key_pair_def by blast
  have "crypto_sign L cr msg = Inr (True, msg\<lparr>ev_sender := uuid, ev_signature := s\<rparr>)"
    using assms(2-) s(1) k(1) by (auto simp: crypto_sign_def)
  moreover have "crypto_verify L (msg\<lparr>ev_sender := uuid, ev_signature := s\<rparr>) = Inr True"
    using assms(5) s(2) k by (simp add: crypto_verify_def)
  ultimately show ?thesis by simp
qed

text \<open>The bytes that are signed do not say which payload they are.\<close>

definition signable :: "payload_kind \<Rightarrow> bool" where
  "signable k \<longleftrightarrow> k \<notin> {kNotSet, kStatusRequest}"

lemma extract_signable: "(\<exists>p. extract_payload q = Inr p) \<longleftrightarrow> signable (payload_case q)"
  by (cases q) (simp_all add: signable_def)

text \<open>
  a signature does not bind the type of the payload. An envelope that verifies still verifies when
  its bytes are presented as another of the signed payload types, from the same sender and with the
  same signature; so a signed message of one protocol can be replayed as a message of another.
\<close>

theorem signature_ignores_payload_type:
  assumes "crypto_verify L msg = Inr True"
    and "extract_payload (ev_payload msg) = Inr p" "extract_payload q = Inr p"
  shows "crypto_verify L (msg\<lparr>ev_payload := q\<rparr>) = Inr True"
  using assms by (simp add: crypto_verify_def split: if_splits option.splits)

definition sample_ec :: ec_lib where
  "sample_ec = \<lparr>ec_public = Some, ec_private = (\<lambda>f. if f = ''key.pem'' then Some ''k'' else None),
     ec_sign = (\<lambda>k p. Some (CHR ''s'' # p)), ec_verify = (\<lambda>k p s. s = CHR ''s'' # p), ec_sha512 = Some\<rparr>"

lemma sample_key_pair: "key_pair sample_ec ''node'' ''k''"
  by (simp add: key_pair_def sample_ec_def)

theorem signature_ignores_payload_type_witness:
  "crypto_verify sample_ec \<lparr>ev_sender = ''node'', ev_signature = ''sx'', ev_payload = P_audit ''x''\<rparr> = Inr True
   \<and> crypto_verify sample_ec \<lparr>ev_sender = ''node'', ev_signature = ''sx'', ev_payload = P_pbft ''x''\<rparr> = Inr True"
proof -
  let ?m = "\<lparr>ev_sender = ''node'', ev_signature = ''sx'', ev_payload = P_audit ''x''\<rparr>"
  have v: "crypto_verify sample_ec ?m = Inr True" by (simp add: crypto_verify_def sample_ec_def)
  from signature_ignores_payload_type [OF v, of "''x''" "P_pbft ''x''"] v show ?thesis by simp
qed

end
