(* ===== verification/Session.thy ===== *)
theory Session
  imports Message_Crypto
begin

text \<open>
  The chaos module, \<open>chaos/chaos.cpp\<close>, and a websocket session, \<open>node/session.cpp\<close>. Random numbers are
  the parameter \<open>below\<close>: whether the \<open>n\<close>-th number drawn is below the value of a chance, given as text.
  The websocket, the timer and the strand are effects on the record \<open>session\<close>: how many reads are
  outstanding, what has been written, how often closing has been asked for.
\<close>

section \<open>Chaos\<close>

record chaos =
  ch_started :: bool
  ch_crash_timer :: bool
  ch_crashed :: bool
  ch_draws :: nat

definition get_double :: "variables_map \<Rightarrow> string \<Rightarrow> string res" where
  "get_double = get_as (\<lambda>v. case v of V_double s \<Rightarrow> Some s | _ \<Rightarrow> None) ''0''"

definition get_uint :: "variables_map \<Rightarrow> string \<Rightarrow> u32 res" where
  "get_uint = get_as (\<lambda>v. case v of V_uint w \<Rightarrow> Some w | _ \<Rightarrow> None) 0"

definition chaos_enabled :: "variables_map \<Rightarrow> bool res" where
  "chaos_enabled vm = get_bool vm CHAOS_ENABLED"

definition start_crash_timer :: "variables_map \<Rightarrow> chaos \<Rightarrow> chaos res" where
  "start_crash_timer vm ch =
     bindE (get_double vm CHAOS_NODE_FAILURE_SHAPE) (\<lambda>shape. bindE (get_double vm CHAOS_NODE_FAILURE_SCALE) (\<lambda>scale.
       Inr (ch\<lparr>ch_draws := Suc (ch_draws ch), ch_crash_timer := True\<rparr>)))"

definition handle_crash_timer :: "chaos \<Rightarrow> chaos" where
  "handle_crash_timer ch = ch\<lparr>ch_crashed := True\<rparr>"

definition chaos_start :: "variables_map \<Rightarrow> chaos \<Rightarrow> chaos res" where
  "chaos_start vm ch =
     bindE (chaos_enabled vm) (\<lambda>enabled.
       if enabled \<and> \<not> ch_started ch then start_crash_timer vm (ch\<lparr>ch_started := True\<rparr>) else Inr ch)"

definition chance :: "(nat \<Rightarrow> string \<Rightarrow> bool) \<Rightarrow> variables_map \<Rightarrow> string \<Rightarrow> chaos \<Rightarrow> (bool \<times> chaos) res" where
  "chance below vm name ch =
     bindE (chaos_enabled vm) (\<lambda>enabled.
       if enabled
       then bindE (get_double vm name) (\<lambda>d. Inr (below (ch_draws ch) d, ch\<lparr>ch_draws := Suc (ch_draws ch)\<rparr>))
       else Inr (False, ch))"

definition is_message_delayed :: "(nat \<Rightarrow> string \<Rightarrow> bool) \<Rightarrow> variables_map \<Rightarrow> chaos \<Rightarrow> (bool \<times> chaos) res" where
  "is_message_delayed below vm = chance below vm CHAOS_MESSAGE_DELAY_CHANCE"

definition is_message_dropped :: "(nat \<Rightarrow> string \<Rightarrow> bool) \<Rightarrow> variables_map \<Rightarrow> chaos \<Rightarrow> (bool \<times> chaos) res" where
  "is_message_dropped below vm = chance below vm CHAOS_MESSAGE_DROP_CHANCE"

text \<open>\<open>reschedule_message\<close>: the callback is run again after this many milliseconds.\<close>

definition reschedule_message :: "variables_map \<Rightarrow> u32 res" where
  "reschedule_message vm = get_uint vm CHAOS_MESSAGE_DELAY_TIME"

text \<open>The two questions that precede every message: delayed with the time, dropped, or to be sent.\<close>

datatype fate = Delayed u32 | Dropped | Passed

definition message_fate :: "(nat \<Rightarrow> string \<Rightarrow> bool) \<Rightarrow> variables_map \<Rightarrow> chaos \<Rightarrow> (fate \<times> chaos) res" where
  "message_fate below vm ch =
     bindE (is_message_delayed below vm ch) (\<lambda>(delayed, ch).
       if delayed then bindE (reschedule_message vm) (\<lambda>t. Inr (Delayed t, ch))
       else bindE (is_message_dropped below vm ch) (\<lambda>(dropped, ch). Inr (if dropped then Dropped else Passed, ch)))"

lemma no_chaos: "chaos_enabled vm = Inr False \<Longrightarrow> message_fate below vm ch = Inr (Passed, ch)"
  by (simp add: message_fate_def is_message_delayed_def is_message_dropped_def chance_def)

section \<open>Sessions\<close>

record session =
  sn_id :: session_id
  sn_open :: bool
  sn_accepting :: bool
  sn_reads :: nat
  sn_timer :: bool
  sn_closes :: nat
  sn_written :: "string list"
  sn_timeout :: u64
  sn_delayed :: "(u32 \<times> string \<times> bool option) list"

definition DEFAULT_WS_TIMEOUT_MS :: u64 where "DEFAULT_WS_TIMEOUT_MS = 10000"

definition new_session :: "session_id \<Rightarrow> bool \<Rightarrow> u64 \<Rightarrow> session" where
  "new_session sid opened ws_idle_timeout =
     \<lparr>sn_id = sid, sn_open = opened, sn_accepting = False, sn_reads = 0, sn_timer = False, sn_closes = 0, sn_written = [],
      sn_timeout = (if ws_idle_timeout \<noteq> 0 then ws_idle_timeout else DEFAULT_WS_TIMEOUT_MS), sn_delayed = []\<rparr>"

definition start_idle_timeout :: "session \<Rightarrow> session" where
  "start_idle_timeout sn = sn\<lparr>sn_timer := True\<rparr>"

definition do_read :: "session \<Rightarrow> session" where
  "do_read sn = (let sn = start_idle_timeout sn in sn\<lparr>sn_reads := Suc (sn_reads sn)\<rparr>)"

definition session_start :: "session \<Rightarrow> session" where
  "session_start sn = (if \<not> sn_open sn then sn\<lparr>sn_accepting := True\<rparr> else sn)"

definition accept_handler :: "bool \<Rightarrow> session \<Rightarrow> session" where
  "accept_handler ec sn =
     (let sn = sn\<lparr>sn_accepting := False\<rparr> in if ec then sn else do_read (sn\<lparr>sn_open := True\<rparr>))"

definition session_close :: "session \<Rightarrow> session" where
  "session_close sn = (let sn = sn\<lparr>sn_timer := False\<rparr> in if sn_open sn then sn\<lparr>sn_closes := Suc (sn_closes sn)\<rparr> else sn)"

definition idle_handler :: "bool \<Rightarrow> session \<Rightarrow> session" where
  "idle_handler ec sn = sn\<lparr>sn_timer := False\<rparr>"

text \<open>What a message that was read is handed to: the JSON handler, the protobuf handler, or nothing.\<close>

datatype 'j incoming = In_json 'j | In_proto envelope | In_none

definition session_read_handler ::
  "(string \<Rightarrow> 'j option) \<Rightarrow> (string \<Rightarrow> envelope option) \<Rightarrow> string option \<Rightarrow> session \<Rightarrow> 'j incoming \<times> session" where
  "session_read_handler parse_json parse_envelope data sn =
     (let sn = sn\<lparr>sn_reads := sn_reads sn - 1, sn_timer := False\<rparr> in
      case data of
        None \<Rightarrow> (In_none, sn)
      | Some ss \<Rightarrow>
          (case parse_json ss of
             Some msg \<Rightarrow> (In_json msg, sn)
           | None \<Rightarrow> (case parse_envelope ss of Some proto_msg \<Rightarrow> (In_proto proto_msg, sn) | None \<Rightarrow> (In_none, sn))))"

text \<open>\<open>send_message\<close> and \<open>send_datagram\<close>; \<open>ok\<close> says whether the write succeeds.\<close>

definition session_send_message ::
  "(nat \<Rightarrow> string \<Rightarrow> bool) \<Rightarrow> variables_map \<Rightarrow> string \<Rightarrow> bool \<Rightarrow> bool \<Rightarrow> chaos \<times> session \<Rightarrow> (chaos \<times> session) res" where
  "session_send_message below vm msg end_session ok = (\<lambda>(ch, sn).
     bindE (message_fate below vm ch) (\<lambda>(fate, ch).
       case fate of
         Delayed t \<Rightarrow> Inr (ch, sn\<lparr>sn_delayed := sn_delayed sn @ [(t, msg, Some end_session)]\<rparr>)
       | Dropped \<Rightarrow> Inr (ch, sn)
       | Passed \<Rightarrow>
           (let sn = sn\<lparr>sn_timer := False\<rparr> in
            if \<not> ok then Inr (ch, session_close sn)
            else let sn = sn\<lparr>sn_written := sn_written sn @ [msg]\<rparr> in
              if end_session then Inr (ch, session_close sn) else Inr (ch, do_read sn))))"

definition session_send_datagram ::
  "(nat \<Rightarrow> string \<Rightarrow> bool) \<Rightarrow> variables_map \<Rightarrow> string \<Rightarrow> bool \<Rightarrow> chaos \<times> session \<Rightarrow> (chaos \<times> session) res" where
  "session_send_datagram below vm msg ok = (\<lambda>(ch, sn).
     bindE (message_fate below vm ch) (\<lambda>(fate, ch).
       case fate of
         Delayed t \<Rightarrow> Inr (ch, sn\<lparr>sn_delayed := sn_delayed sn @ [(t, msg, None)]\<rparr>)
       | Dropped \<Rightarrow> Inr (ch, sn)
       | Passed \<Rightarrow> Inr (ch, if \<not> ok then session_close sn else sn\<lparr>sn_written := sn_written sn @ [msg]\<rparr>)))"

section \<open>Runs of a session\<close>

text \<open>
  What happens to a session: its accept completes, a read completes, the program sends, a delayed
  message is tried again, the timer ends, the program closes it.
\<close>

datatype session_event =
    Ev_accepted bool
  | Ev_read "string option"
  | Ev_send string bool bool
  | Ev_datagram string bool
  | Ev_retry nat bool
  | Ev_idle bool
  | Ev_close

definition session_retry ::
  "(nat \<Rightarrow> string \<Rightarrow> bool) \<Rightarrow> variables_map \<Rightarrow> nat \<Rightarrow> bool \<Rightarrow> chaos \<times> session \<Rightarrow> (chaos \<times> session) res" where
  "session_retry below vm i ok = (\<lambda>(ch, sn).
     case sn_delayed sn ! i of
       (_, msg, kind) \<Rightarrow>
         (let sn = sn\<lparr>sn_delayed := take i (sn_delayed sn) @ drop (Suc i) (sn_delayed sn)\<rparr> in
          case kind of
            Some end_session \<Rightarrow> session_send_message below vm msg end_session ok (ch, sn)
          | None \<Rightarrow> session_send_datagram below vm msg ok (ch, sn)))"

text \<open>\<open>None\<close> for an event that cannot happen: nothing is outstanding that could complete.\<close>

definition session_event ::
  "(nat \<Rightarrow> string \<Rightarrow> bool) \<Rightarrow> variables_map \<Rightarrow> session_event \<Rightarrow> chaos \<times> session \<Rightarrow> (chaos \<times> session) res option" where
  "session_event below vm ev cs =
     (case ev of
        Ev_accepted ec \<Rightarrow> if sn_accepting (snd cs) then Some (Inr (fst cs, accept_handler ec (snd cs))) else None
      | Ev_read data \<Rightarrow>
          if 0 < sn_reads (snd cs)
          then Some (Inr (fst cs, snd (session_read_handler (\<lambda>_. None :: unit option) (\<lambda>_. None) data (snd cs)))) else None
      | Ev_send msg end_session ok \<Rightarrow> Some (session_send_message below vm msg end_session ok cs)
      | Ev_datagram msg ok \<Rightarrow> Some (session_send_datagram below vm msg ok cs)
      | Ev_retry i ok \<Rightarrow> if i < length (sn_delayed (snd cs)) then Some (session_retry below vm i ok cs) else None
      | Ev_idle ec \<Rightarrow> if sn_timer (snd cs) then Some (Inr (fst cs, idle_handler ec (snd cs))) else None
      | Ev_close \<Rightarrow> Some (Inr (fst cs, session_close (snd cs))))"

fun session_run ::
  "(nat \<Rightarrow> string \<Rightarrow> bool) \<Rightarrow> variables_map \<Rightarrow> session_event list \<Rightarrow> chaos \<times> session \<Rightarrow> (chaos \<times> session) res option" where
  "session_run below vm [] cs = Some (Inr cs)"
| "session_run below vm (ev # evs) cs =
     (case session_event below vm ev cs of
        None \<Rightarrow> None
      | Some (Inl e) \<Rightarrow> Some (Inl e)
      | Some (Inr cs) \<Rightarrow> session_run below vm evs cs)"

text \<open>The events that start a read, and those that end one.\<close>

definition starts_read :: "session_event \<Rightarrow> bool" where
  "starts_read ev \<longleftrightarrow> ev = Ev_accepted False \<or> (\<exists>msg. ev = Ev_send msg False True)"

definition ends_read :: "session_event \<Rightarrow> bool" where
  "ends_read ev \<longleftrightarrow> (\<exists>data. ev = Ev_read data)"

lemma event_reads:
  assumes "chaos_enabled vm = Inr False" "sn_delayed (snd cs) = []" "session_event below vm ev cs = Some (Inr cs')"
  shows "sn_reads (snd cs') + (if ends_read ev then 1 else 0) = sn_reads (snd cs) + (if starts_read ev then 1 else 0)
     \<and> sn_delayed (snd cs') = []"
  using assms
  by (cases cs; cases ev)
    (auto simp: session_event_def accept_handler_def session_read_handler_def session_send_message_def session_send_datagram_def
      session_close_def do_read_def start_idle_timeout_def idle_handler_def no_chaos starts_read_def ends_read_def Let_def
      split: if_splits option.splits)

text \<open>
  C32: the reads of a session without chaos testing. A session reads on only when the program answers: the number of
  outstanding reads is one for the completed accept, plus one for every message sent that does not
  end the session, minus the reads that have completed. So a message that is not answered leaves the
  session without a read and nothing that the peer sends later is seen, and a second answer to one message
  leaves two reads outstanding on one websocket.
\<close>

theorem session_reads:
  assumes "chaos_enabled vm = Inr False"
    and "session_run below vm evs (ch, session_start (new_session sid opened t)) = Some (Inr (ch', sn))"
  shows "sn_reads sn + length (filter ends_read evs) = length (filter starts_read evs)"
proof -
  have "session_run below vm evs cs = Some (Inr (ch', sn)) \<Longrightarrow> sn_delayed (snd cs) = []
      \<Longrightarrow> sn_reads sn + length (filter ends_read evs) = sn_reads (snd cs) + length (filter starts_read evs)" for cs
  proof (induction evs arbitrary: cs)
    case (Cons ev evs)
    then obtain cs1 where e: "session_event below vm ev cs = Some (Inr cs1)" and r: "session_run below vm evs cs1 = Some (Inr (ch', sn))"
      by (auto split: option.splits sum.splits)
    note step = event_reads [OF assms(1) Cons.prems(2) e]
    from Cons.IH [OF r] step show ?case by (auto split: if_splits)
  qed simp
  from this [OF assms(2)] show ?thesis by (simp add: session_start_def new_session_def)
qed

theorem session_reads_witness:
  "\<exists>ch' sn. session_run (\<lambda>_ _. False) [] [Ev_accepted False, Ev_read (Some ''m''), Ev_send ''a'' False True, Ev_send ''b'' False True]
        (\<lparr>ch_started = False, ch_crash_timer = False, ch_crashed = False, ch_draws = 0\<rparr>, session_start (new_session 1 False 0))
      = Some (Inr (ch', sn)) \<and> sn_reads sn = 2"
proof -
  let ?evs = "[Ev_accepted False, Ev_read (Some ''m''), Ev_send ''a'' False True, Ev_send ''b'' False True]"
  let ?cs = "(\<lparr>ch_started = False, ch_crash_timer = False, ch_crashed = False, ch_draws = 0\<rparr>, session_start (new_session 1 False 0))"
  have d: "chaos_enabled [] = Inr False" by (simp add: chaos_enabled_def get_bool_def get_as_def)
  have "\<exists>ch' sn. session_run (\<lambda>_ _. False) [] ?evs ?cs = Some (Inr (ch', sn))"
    by (simp add: session_event_def session_start_def new_session_def accept_handler_def do_read_def start_idle_timeout_def
        session_read_handler_def session_send_message_def no_chaos [OF d])
  then obtain ch' sn where r: "session_run (\<lambda>_ _. False) [] ?evs ?cs = Some (Inr (ch', sn))" by blast
  from session_reads [OF d r] have "sn_reads sn = 2" by (simp add: ends_read_def starts_read_def)
  with r show ?thesis by blast
qed

end
