(* ===== verification/Node.thy ===== *)
theory Node
  imports Session
begin

text \<open>
  The message router of a daemon, \<open>node/node.cpp\<close>: components register handlers, sessions deliver what
  they read, and messages to other nodes are signed and sent over new sessions. A handler is a value of
  the type parameter \<open>'h\<close>; calling it is an effect. A JSON document is what the router looks at: the
  member \<open>bzn-api\<close>, if there is one, as text or as the error of reading it as text.

  The router holds the lock of its tables while a handler runs, so that handlers run one after the other.
\<close>

section \<open>State\<close>

record json_doc =
  jd_api :: "string res option"
  jd_text :: string

datatype 'h node_effect =
    N_json 'h json_doc session_id
  | N_proto 'h envelope session_id
  | N_close session_id
  | N_reschedule u32 endpoint string
  | N_connect endpoint string
  | N_handshake endpoint string
  | N_session session_id bool
  | N_session_send session_id string

record 'h node =
  nd_options :: variables_map
  nd_crypto :: crypto
  nd_chaos :: chaos
  nd_message_map :: "(string \<times> 'h) list"
  nd_protobuf_map :: "(payload_kind \<times> 'h) list"
  nd_session_counter :: session_id
  nd_started :: bool
  nd_accepting :: bool
  nd_effects :: "'h node_effect list"

definition n_emit :: "'h node_effect list \<Rightarrow> 'h node \<Rightarrow> 'h node" where
  "n_emit es nd = nd\<lparr>nd_effects := nd_effects nd @ es\<rparr>"

definition new_router :: "variables_map \<Rightarrow> crypto \<Rightarrow> chaos \<Rightarrow> 'h node" where
  "new_router vm cr ch = \<lparr>nd_options = vm, nd_crypto = cr, nd_chaos = ch, nd_message_map = [], nd_protobuf_map = [],
     nd_session_counter = 0, nd_started = False, nd_accepting = False, nd_effects = []\<rparr>"

section \<open>Operations\<close>

definition do_accept :: "'h node \<Rightarrow> 'h node" where
  "do_accept nd = nd\<lparr>nd_accepting := True\<rparr>"

definition node_start :: "'h node \<Rightarrow> 'h node" where
  "node_start nd = (if nd_started nd then nd else do_accept (nd\<lparr>nd_started := True\<rparr>))"

text \<open>\<open>++session_id_counter\<close>, and the session is started; the flag says whether its websocket is open.\<close>

definition open_session :: "bool \<Rightarrow> 'h node \<Rightarrow> 'h node" where
  "open_session opened nd =
     (let sid = nd_session_counter nd + 1 in n_emit [N_session sid opened] (nd\<lparr>nd_session_counter := sid\<rparr>))"

definition node_accept_handler :: "bool \<Rightarrow> 'h node \<Rightarrow> 'h node" where
  "node_accept_handler ec nd =
     (let nd = nd\<lparr>nd_accepting := False\<rparr> in do_accept (if ec then nd else open_session False nd))"

definition register_for_message :: "string \<Rightarrow> 'h option \<Rightarrow> 'h node \<Rightarrow> bool \<times> 'h node" where
  "register_for_message msg_type msg_handler nd =
     (case msg_handler of
        None \<Rightarrow> (False, nd)
      | Some h \<Rightarrow>
          if map_of (nd_message_map nd) msg_type \<noteq> None then (False, nd)
          else (True, nd\<lparr>nd_message_map := (msg_type, h) # nd_message_map nd\<rparr>))"

definition register_for_protobuf :: "payload_kind \<Rightarrow> 'h option \<Rightarrow> 'h node \<Rightarrow> bool \<times> 'h node" where
  "register_for_protobuf type msg_handler nd =
     (case msg_handler of
        None \<Rightarrow> (False, nd)
      | Some h \<Rightarrow>
          if map_of (nd_protobuf_map nd) type \<noteq> None then (False, nd)
          else (True, nd\<lparr>nd_protobuf_map := (type, h) # nd_protobuf_map nd\<rparr>))"

definition priv_msg_handler :: "json_doc \<Rightarrow> session_id \<Rightarrow> 'h node \<Rightarrow> 'h node res" where
  "priv_msg_handler msg session nd =
     (case jd_api msg of
        None \<Rightarrow> Inr (n_emit [N_close session] nd)
      | Some api \<Rightarrow>
          bindE api (\<lambda>key.
            case map_of (nd_message_map nd) key of
              Some h \<Rightarrow> Inr (n_emit [N_json h msg session] nd)
            | None \<Rightarrow> Inr (n_emit [N_close session] nd)))"

definition priv_protobuf_handler :: "ec_lib \<Rightarrow> envelope \<Rightarrow> session_id \<Rightarrow> 'h node \<Rightarrow> 'h node res" where
  "priv_protobuf_handler L msg session nd =
     bindE (get_bool (nd_options nd) CRYPTO_ENABLED_INCOMING) (\<lambda>incoming.
     bindE (if incoming \<and> ev_sender msg \<noteq> [] then bindE (crypto_verify L msg) (\<lambda>ok. Inr (\<not> ok)) else Inr False) (\<lambda>drop.
       if drop then Inr nd
       else case map_of (nd_protobuf_map nd) (payload_case (ev_payload msg)) of
         Some h \<Rightarrow> Inr (n_emit [N_proto h msg session] nd)
       | None \<Rightarrow> Inr nd))"

definition send_message_str :: "(nat \<Rightarrow> string \<Rightarrow> bool) \<Rightarrow> endpoint \<Rightarrow> string \<Rightarrow> 'h node \<Rightarrow> 'h node res" where
  "send_message_str below ep msg nd =
     bindE (message_fate below (nd_options nd) (nd_chaos nd)) (\<lambda>(fate, ch).
       let nd = nd\<lparr>nd_chaos := ch\<rparr> in
       Inr (case fate of
              Delayed t \<Rightarrow> n_emit [N_reschedule t ep msg] nd
            | Dropped \<Rightarrow> nd
            | Passed \<Rightarrow> n_emit [N_connect ep msg] nd))"

text \<open>The completion handlers of the connect and of the handshake.\<close>

definition connect_handler :: "endpoint \<Rightarrow> string \<Rightarrow> bool \<Rightarrow> 'h node \<Rightarrow> 'h node" where
  "connect_handler ep msg ec nd = (if ec then nd else n_emit [N_handshake ep msg] nd)"

definition handshake_handler :: "string \<Rightarrow> bool \<Rightarrow> 'h node \<Rightarrow> 'h node" where
  "handshake_handler msg ec nd =
     (if ec then nd
      else let nd = open_session True nd in n_emit [N_session_send (nd_session_counter nd) msg] nd)"

definition send_json :: "(nat \<Rightarrow> string \<Rightarrow> bool) \<Rightarrow> endpoint \<Rightarrow> json_doc \<Rightarrow> 'h node \<Rightarrow> 'h node res" where
  "send_json below ep msg nd = send_message_str below ep (jd_text msg) nd"

definition send_envelope ::
  "ec_lib \<Rightarrow> (nat \<Rightarrow> string \<Rightarrow> bool) \<Rightarrow> (envelope \<Rightarrow> string) \<Rightarrow> endpoint \<Rightarrow> envelope \<Rightarrow> 'h node \<Rightarrow> 'h node res" where
  "send_envelope L below serialize ep msg nd =
     bindE (if ev_sender msg = [] then bindE (cr_uuid (nd_crypto nd)) (\<lambda>u. Inr (msg\<lparr>ev_sender := u\<rparr>)) else Inr msg) (\<lambda>msg.
     bindE (if ev_signature msg = []
            then bindE (get_bool (nd_options nd) CRYPTO_ENABLED_OUTGOING) (\<lambda>outgoing.
                   if outgoing then bindE (crypto_sign L (nd_crypto nd) msg) (\<lambda>(_, msg). Inr msg) else Inr msg)
            else Inr msg) (\<lambda>msg.
       send_message_str below ep (serialize msg) nd))"

text \<open>What a session does with the bytes it has read.\<close>

definition deliver ::
  "ec_lib \<Rightarrow> (string \<Rightarrow> json_doc option) \<Rightarrow> (string \<Rightarrow> envelope option) \<Rightarrow> string \<Rightarrow> session \<Rightarrow> 'h node \<Rightarrow> 'h node res" where
  "deliver L parse_json parse_envelope data sn nd =
     (case fst (session_read_handler parse_json parse_envelope (Some data) sn) of
        In_json msg \<Rightarrow> priv_msg_handler msg (sn_id sn) nd
      | In_proto msg \<Rightarrow> priv_protobuf_handler L msg (sn_id sn) nd
      | In_none \<Rightarrow> Inr nd)"

section \<open>Runs of the router\<close>

record router_lib =
  rl_ec :: ec_lib
  rl_below :: "nat \<Rightarrow> string \<Rightarrow> bool"
  rl_serialize :: "envelope \<Rightarrow> string"
  rl_json :: "string \<Rightarrow> json_doc option"
  rl_envelope :: "string \<Rightarrow> envelope option"

inductive router_step :: "router_lib \<Rightarrow> 'h node \<Rightarrow> 'h node \<Rightarrow> bool" for R where
  rs_start: "router_step R nd (node_start nd)"
| rs_accept: "nd_accepting nd \<Longrightarrow> router_step R nd (node_accept_handler ec nd)"
| rs_register: "router_step R nd (snd (register_for_message k h nd))"
| rs_register_proto: "router_step R nd (snd (register_for_protobuf c h nd))"
| rs_deliver: "deliver (rl_ec R) (rl_json R) (rl_envelope R) data sn nd = Inr nd' \<Longrightarrow> router_step R nd nd'"
| rs_send_json: "send_json (rl_below R) ep doc nd = Inr nd' \<Longrightarrow> router_step R nd nd'"
| rs_send: "send_envelope (rl_ec R) (rl_below R) (rl_serialize R) ep msg nd = Inr nd' \<Longrightarrow> router_step R nd nd'"
| rs_retry: "N_reschedule t ep data \<in> set (nd_effects nd) \<Longrightarrow> send_message_str (rl_below R) ep data nd = Inr nd'
    \<Longrightarrow> router_step R nd nd'"
| rs_connect: "N_connect ep data \<in> set (nd_effects nd) \<Longrightarrow> router_step R nd (connect_handler ep data ec nd)"
| rs_handshake: "N_handshake ep data \<in> set (nd_effects nd) \<Longrightarrow> router_step R nd (handshake_handler data ec nd)"

inductive router_run :: "router_lib \<Rightarrow> 'h node \<Rightarrow> 'h node \<Rightarrow> bool" for R where
  rr_refl: "router_run R nd nd"
| rr_step: "router_run R nd nd' \<Longrightarrow> router_step R nd' nd'' \<Longrightarrow> router_run R nd nd''"

text \<open>What may be called: the registered handler, for a message that was verified if it has a sender.\<close>

definition call_ok :: "ec_lib \<Rightarrow> 'h node \<Rightarrow> 'h node_effect \<Rightarrow> bool" where
  "call_ok L nd e =
     (case e of
        N_proto h msg _ \<Rightarrow>
          map_of (nd_protobuf_map nd) (payload_case (ev_payload msg)) = Some h
          \<and> (get_bool (nd_options nd) CRYPTO_ENABLED_INCOMING = Inr True \<longrightarrow> ev_sender msg = [] \<or> crypto_verify L msg = Inr True)
      | N_json h doc _ \<Rightarrow> (\<exists>k. jd_api doc = Some (Inr k) \<and> map_of (nd_message_map nd) k = Some h)
      | _ \<Rightarrow> True)"

definition router_ok :: "ec_lib \<Rightarrow> 'h node \<Rightarrow> bool" where
  "router_ok L nd \<longleftrightarrow> (\<forall>e \<in> set (nd_effects nd). call_ok L nd e)"

text \<open>A step adds effects that may be called, and never replaces a handler.\<close>

definition router_grows :: "ec_lib \<Rightarrow> 'h node \<Rightarrow> 'h node \<Rightarrow> bool" where
  "router_grows L nd nd' \<longleftrightarrow> nd_options nd' = nd_options nd
     \<and> map_of (nd_message_map nd) \<subseteq>\<^sub>m map_of (nd_message_map nd')
     \<and> map_of (nd_protobuf_map nd) \<subseteq>\<^sub>m map_of (nd_protobuf_map nd')
     \<and> (\<exists>es. nd_effects nd' = nd_effects nd @ es \<and> (\<forall>e \<in> set es. call_ok L nd' e))"

lemma router_grows_ok: "router_grows L nd nd' \<Longrightarrow> router_ok L nd \<Longrightarrow> router_ok L nd'"
  by (fastforce simp: router_grows_def router_ok_def call_ok_def map_le_def dom_def split: node_effect.splits)

lemma router_grows_refl [simp]: "router_grows L nd nd"
  by (simp add: router_grows_def)

lemma router_grows_trans: "router_grows L nd nd' \<Longrightarrow> router_grows L nd' nd'' \<Longrightarrow> router_grows L nd nd''"
  by (fastforce simp: router_grows_def call_ok_def map_le_def dom_def split: node_effect.splits)

lemma emit_grows:
  "(\<forall>e \<in> set es. call_ok L nd e) \<Longrightarrow> router_grows L nd (n_emit es nd)"
  by (auto simp: router_grows_def n_emit_def call_ok_def split: node_effect.splits)

lemma send_str_grows: "send_message_str below ep data nd = Inr nd' \<Longrightarrow> router_grows L nd nd'"
  by (auto simp: send_message_str_def router_grows_def n_emit_def call_ok_def Let_def split: fate.splits)

lemma register_grows: "router_grows L nd (snd (register_for_message k h nd))"
  and register_proto_grows: "router_grows L nd (snd (register_for_protobuf c h nd))"
  by (auto simp: register_for_message_def register_for_protobuf_def router_grows_def map_le_def split: option.splits)

lemma deliver_grows:
  assumes "deliver L pj pe data sn nd = Inr nd'"
  shows "router_grows L nd nd'"
proof (cases "fst (session_read_handler pj pe (Some data) sn)")
  case (In_json doc)
  then show ?thesis
    using assms by (auto simp: deliver_def priv_msg_handler_def call_ok_def split: option.splits intro!: emit_grows)
next
  case (In_proto msg)
  then have "priv_protobuf_handler L msg (sn_id sn) nd = Inr nd'" using assms by (simp add: deliver_def)
  then show ?thesis
    by (auto simp: priv_protobuf_handler_def call_ok_def split: option.splits if_splits intro!: emit_grows)
next
  case In_none
  then show ?thesis using assms by (auto simp: deliver_def router_grows_def)
qed

lemma open_session_grows: "router_grows L nd (open_session opened nd)"
  by (auto simp: open_session_def router_grows_def n_emit_def call_ok_def Let_def)

lemma router_step_grows: "router_step R nd nd' \<Longrightarrow> router_grows (rl_ec R) nd nd'"
proof (induction rule: router_step.induct)
  case (rs_start nd)
  then show ?case by (simp add: node_start_def do_accept_def router_grows_def)
next
  case (rs_accept nd ec)
  then show ?case using open_session_grows [of "rl_ec R" nd False]
    by (simp add: node_accept_handler_def do_accept_def open_session_def n_emit_def router_grows_def call_ok_def Let_def)
next
  case (rs_send ep msg nd nd')
  then show ?case by (auto simp: send_envelope_def intro: send_str_grows)
next
  case (rs_connect ep data nd ec)
  then show ?case by (simp add: connect_handler_def emit_grows call_ok_def)
next
  case (rs_handshake ep data nd ec)
  then show ?case
    by (auto simp: handshake_handler_def Let_def call_ok_def intro!: router_grows_trans [OF open_session_grows emit_grows])
qed (auto simp: send_json_def intro: register_grows register_proto_grows deliver_grows send_str_grows)

lemma router_run_ok: "router_run R nd nd' \<Longrightarrow> router_ok (rl_ec R) nd \<Longrightarrow> router_ok (rl_ec R) nd' \<and> router_grows (rl_ec R) nd nd'"
proof (induction rule: router_run.induct)
  case (rr_step nd nd' nd'')
  from router_step_grows [OF rr_step.hyps(2)] rr_step show ?case by (meson router_grows_ok router_grows_trans)
qed simp

text \<open>
  C15: what reaches a handler. In every run of a node that checks signatures, a protobuf message that a
  handler is called with either has no sender or carries a signature that verifies under the public
  key in its sender, and the handler is the one that was registered, first, for the type of its
  payload; and a JSON message goes to the handler registered for its \<open>bzn-api\<close>. JSON messages and
  messages without a sender are not checked at all.
\<close>

theorem delivered_messages_verified:
  assumes "get_bool vm CRYPTO_ENABLED_INCOMING = Inr True" and "router_run R (new_router vm cr ch) nd"
  shows "(N_proto h msg s \<in> set (nd_effects nd)
            \<longrightarrow> (ev_sender msg = [] \<or> crypto_verify (rl_ec R) msg = Inr True)
              \<and> map_of (nd_protobuf_map nd) (payload_case (ev_payload msg)) = Some h)
     \<and> (N_json h doc s \<in> set (nd_effects nd) \<longrightarrow> (\<exists>k. jd_api doc = Some (Inr k) \<and> map_of (nd_message_map nd) k = Some h))"
proof -
  have "router_ok (rl_ec R) (new_router vm cr ch)" by (simp add: router_ok_def new_router_def)
  from router_run_ok [OF assms(2) this] have ok: "router_ok (rl_ec R) nd"
    and "nd_options nd = vm" by (simp_all add: router_grows_def new_router_def)
  then have "call_ok (rl_ec R) nd e" if "e \<in> set (nd_effects nd)" for e using that by (simp add: router_ok_def)
  from this [of "N_proto h msg s"] this [of "N_json h doc s"] \<open>nd_options nd = vm\<close> assms(1) show ?thesis
    by (simp add: call_ok_def)
qed

text \<open>A configuration with signatures on, and a library whose serialisation reads back.\<close>

definition crypto_options :: variables_map where
  "crypto_options = [(CRYPTO_ENABLED_INCOMING, V_bool True, False), (CRYPTO_ENABLED_OUTGOING, V_bool True, False)]"

definition sample_signed :: envelope where
  "sample_signed = \<lparr>ev_sender = ''node'', ev_signature = ''sx'', ev_payload = P_pbft ''x''\<rparr>"

definition sample_router :: router_lib where
  "sample_router = \<lparr>rl_ec = sample_ec, rl_below = (\<lambda>_ _. False), rl_serialize = (\<lambda>_. ''bytes''),
     rl_json = (\<lambda>_. None), rl_envelope = (\<lambda>_. Some sample_signed)\<rparr>"

definition idle_chaos :: chaos where
  "idle_chaos = \<lparr>ch_started = False, ch_crash_timer = False, ch_crashed = False, ch_draws = 0\<rparr>"

lemma crypto_options_get:
  "get_bool crypto_options CRYPTO_ENABLED_INCOMING = Inr True" "get_bool crypto_options CRYPTO_ENABLED_OUTGOING = Inr True"
  "chaos_enabled crypto_options = Inr False"
  by (simp_all add: crypto_options_def get_bool_def get_as_def chaos_enabled_def option_names)

lemma sample_signed_verifies: "crypto_verify sample_ec sample_signed = Inr True"
  by (simp add: crypto_verify_def sample_ec_def sample_signed_def)

theorem delivered_messages_verified_witness:
  "\<exists>nd. router_run sample_router (new_router crypto_options \<lparr>cr_uuid = Inr ''me'', cr_key = None\<rparr> idle_chaos) nd
     \<and> N_proto (7::nat) sample_signed 1 \<in> set (nd_effects nd) \<and> crypto_verify sample_ec sample_signed = Inr True
     \<and> map_of (nd_protobuf_map nd) kPbft = Some 7"
proof -
  let ?n0 = "new_router crypto_options \<lparr>cr_uuid = Inr ''me'', cr_key = None\<rparr> idle_chaos :: nat node"
  let ?n1 = "snd (register_for_protobuf kPbft (Some 7) ?n0)"
  let ?n2 = "n_emit [N_proto 7 sample_signed 1] ?n1"
  have "deliver (rl_ec sample_router) (rl_json sample_router) (rl_envelope sample_router) ''bytes'' (new_session 1 False 0) ?n1 = Inr ?n2"
    using crypto_options_get(1) sample_signed_verifies
    by (simp add: deliver_def session_read_handler_def sample_router_def new_session_def priv_protobuf_handler_def
        register_for_protobuf_def new_router_def sample_signed_def)
  then have r: "router_run sample_router ?n0 ?n2"
    by (intro rr_step [OF rr_step [OF rr_refl rs_register_proto] rs_deliver])
  have e: "N_proto 7 sample_signed 1 \<in> set (nd_effects ?n2)" by (simp add: n_emit_def)
  have s: "ev_sender sample_signed \<noteq> []" "payload_case (ev_payload sample_signed) = kPbft" "rl_ec sample_router = sample_ec"
    by (simp_all add: sample_signed_def sample_router_def)
  note d = delivered_messages_verified [OF crypto_options_get(1) r, of 7 sample_signed 1]
  have "map_of (nd_protobuf_map ?n2) kPbft = Some 7" "crypto_verify sample_ec sample_signed = Inr True"
    using d e s by simp_all
  with r e show ?thesis by blast
qed

section \<open>From one node to another\<close>


text \<open>
  a message whose payload type has no rule for signatures stops a node that checks signatures. A
  status request, or a message without payload, with a readable public key as its sender makes the
  check raise an error that no caller handles, whatever handlers are registered; such a message without a sender
  is dispatched like any other.
\<close>

theorem status_request_raises:
  assumes "get_bool (nd_options nd) CRYPTO_ENABLED_INCOMING = Inr True" and "\<not> signable (payload_case (ev_payload msg))"
    and "ec_public L (PEM_PREFIX @ ev_sender msg @ PEM_SUFFIX) = Some key"
  shows "if ev_sender msg \<noteq> [] then (\<exists>what. priv_protobuf_handler L msg session nd = Inl (Runtime_error what))
     else priv_protobuf_handler L msg session nd
       = Inr (case map_of (nd_protobuf_map nd) (payload_case (ev_payload msg)) of
                Some h \<Rightarrow> n_emit [N_proto h msg session] nd | None \<Rightarrow> nd)"
  using assms by (cases "ev_payload msg") (auto simp: priv_protobuf_handler_def crypto_verify_def signable_def split: option.split)

text \<open>A serialisation that reads back, for the witness: fields with an end mark, then a tag and the payload.\<close>

fun enc_field :: "string \<Rightarrow> string" where
  "enc_field [] = ''0''"
| "enc_field (c # s) = CHR ''1'' # c # enc_field s"

fun dec_field :: "string \<Rightarrow> (string \<times> string) option" where
  "dec_field (x # c # s) = (if x = CHR ''0'' then Some ([], c # s) else map_option (\<lambda>(t, r). (c # t, r)) (dec_field s))"
| "dec_field [x] = (if x = CHR ''0'' then Some ([], []) else None)"
| "dec_field [] = None"

lemma dec_enc_field [simp]: "dec_field (enc_field s @ r) = Some (s, r)"
  by (induction s) (cases r; simp)+

fun enc_payload :: "payload \<Rightarrow> string" where
  "enc_payload P_not_set = ''0''"
| "enc_payload (P_pbft_request s) = CHR ''1'' # s"
| "enc_payload (P_database_response s) = CHR ''2'' # s"
| "enc_payload (P_json s) = CHR ''3'' # s"
| "enc_payload (P_audit s) = CHR ''4'' # s"
| "enc_payload (P_pbft s) = CHR ''5'' # s"
| "enc_payload (P_pbft_membership s) = CHR ''6'' # s"
| "enc_payload (P_status_request s) = CHR ''7'' # s"

definition dec_payload :: "string \<Rightarrow> payload" where
  "dec_payload r = (case r of [] \<Rightarrow> P_not_set | c # s \<Rightarrow>
     if c = CHR ''1'' then P_pbft_request s else if c = CHR ''2'' then P_database_response s
     else if c = CHR ''3'' then P_json s else if c = CHR ''4'' then P_audit s else if c = CHR ''5'' then P_pbft s
     else if c = CHR ''6'' then P_pbft_membership s else if c = CHR ''7'' then P_status_request s else P_not_set)"

lemma dec_enc_payload [simp]: "dec_payload (enc_payload p) = p"
  by (cases p) (simp_all add: dec_payload_def)

definition sample_serialize :: "envelope \<Rightarrow> string" where
  "sample_serialize e = enc_field (ev_sender e) @ enc_field (ev_signature e) @ enc_payload (ev_payload e)"

definition sample_parse_envelope :: "string \<Rightarrow> envelope option" where
  "sample_parse_envelope data =
     (case dec_field data of None \<Rightarrow> None
      | Some (u, r) \<Rightarrow> (case dec_field r of None \<Rightarrow> None
          | Some (s, q) \<Rightarrow> Some \<lparr>ev_sender = u, ev_signature = s, ev_payload = dec_payload q\<rparr>))"

lemma sample_serialize_reads_back: "sample_parse_envelope (sample_serialize e) = Some e"
  by (simp add: sample_parse_envelope_def sample_serialize_def)


theorem status_request_raises_witness:
  "\<exists>what. priv_protobuf_handler sample_ec \<lparr>ev_sender = ''node'', ev_signature = '''', ev_payload = P_status_request ''''\<rparr> 1
      (new_router crypto_options \<lparr>cr_uuid = Inr ''b'', cr_key = None\<rparr> idle_chaos :: nat node) = Inl (Runtime_error what)"
proof -
  let ?nd = "new_router crypto_options \<lparr>cr_uuid = Inr ''b'', cr_key = None\<rparr> idle_chaos :: nat node"
  let ?m = "\<lparr>ev_sender = ''node'', ev_signature = '''', ev_payload = P_status_request ''''\<rparr>"
  have "get_bool (nd_options ?nd) CRYPTO_ENABLED_INCOMING = Inr True" "\<not> signable (payload_case (ev_payload ?m))"
    "ec_public sample_ec (PEM_PREFIX @ ev_sender ?m @ PEM_SUFFIX) = Some (PEM_PREFIX @ ev_sender ?m @ PEM_SUFFIX)"
    by (simp_all add: new_router_def crypto_options_get signable_def sample_ec_def)
  from status_request_raises [OF this, of 1] show ?thesis by simp
qed

end
