(* ===== verification/Status.thy ===== *)
theory Status
  imports Node
begin

text \<open>
  The status component, \<open>status/status.cpp\<close>: it registers for status messages with the node and
  answers them with the version, the uptime and the status of the modules. A provider is \<open>None\<close> when
  its weak pointer cannot be locked, otherwise its name and the text of its status. The version and
  the commit are generated by the build and are arguments.
\<close>

section \<open>Model\<close>

record status_module =
  sm_providers :: "(string \<times> string) option list"
  sm_pbft_enabled :: bool
  sm_started :: bool

datatype status_value = S_text string | S_bool bool | S_modules "(string \<times> string) list"

record status_response =
  sr_swarm_version :: string
  sr_swarm_git_commit :: string
  sr_uptime :: string
  sr_pbft_enabled :: bool
  sr_module_status :: "(string \<times> string) list"

text \<open>\<open>get_uptime\<close>, from the seconds since the start; the duration is reduced by the days and then by the hours.\<close>

definition get_uptime :: "nat \<Rightarrow> string" where
  "get_uptime uptime =
     (let d = uptime div (3600 * 24); uptime = uptime - d * (3600 * 24);
          h = uptime div 3600; uptime = uptime - h * 3600;
          m = uptime div 60 in
      show_nat d @ '' days, '' @ show_nat h @ '' hours, '' @ show_nat m @ '' minutes'')"

definition query_modules :: "status_module \<Rightarrow> (string \<times> string) list" where
  "query_modules sm = List.map_filter (\<lambda>p. p) (sm_providers sm)"

text \<open>The members of the response: those of the request, with five members set.\<close>

definition handle_ws_status_messages ::
  "string \<Rightarrow> string \<Rightarrow> nat \<Rightarrow> (string, status_value) smap \<Rightarrow> status_module \<Rightarrow> (string, status_value) smap" where
  "handle_ws_status_messages version commit uptime ws_msg sm =
     (let response_msg = smap_set ''version'' (S_text version) ws_msg;
          response_msg = smap_set ''commit'' (S_text commit) response_msg;
          response_msg = smap_set ''uptime'' (S_text (get_uptime uptime)) response_msg;
          response_msg = smap_set ''module'' (S_modules (query_modules sm)) response_msg in
      smap_set ''pbft_enabled'' (S_bool (sm_pbft_enabled sm)) response_msg)"

definition handle_status_request_message :: "string \<Rightarrow> string \<Rightarrow> nat \<Rightarrow> status_module \<Rightarrow> status_response" where
  "handle_status_request_message version commit uptime sm =
     \<lparr>sr_swarm_version = version, sr_swarm_git_commit = commit, sr_uptime = get_uptime uptime,
      sr_pbft_enabled = sm_pbft_enabled sm, sr_module_status = query_modules sm\<rparr>"

definition status_start :: "'h \<Rightarrow> 'h \<Rightarrow> status_module \<Rightarrow> 'h node \<Rightarrow> (status_module \<times> 'h node) res" where
  "status_start h_json h_proto sm nd =
     (if sm_started sm then Inr (sm, nd)
      else let (ok, nd) = register_for_message ''status'' (Some h_json) nd in
        if \<not> ok then Inl (Runtime_error ''Unable to register for STATUS messages!'')
        else let (ok, nd) = register_for_protobuf kStatusRequest (Some h_proto) nd in
          if \<not> ok then Inl (Runtime_error ''Unable to register for STATUS REQUEST messages!'')
          else Inr (sm\<lparr>sm_started := True\<rparr>, nd))"

section \<open>Properties\<close>

text \<open>The three numbers are the uptime rounded down to minutes, in mixed radix.\<close>

lemma uptime_parts:
  "\<exists>d h m s. get_uptime n = show_nat d @ '' days, '' @ show_nat h @ '' hours, '' @ show_nat m @ '' minutes''
     \<and> n = ((d * 24 + h) * 60 + m) * 60 + s \<and> h < 24 \<and> m < 60 \<and> s < 60"
proof -
  define d a where "d = n div 86400" and "a = n mod 86400"
  define h b where "h = a div 3600" and "b = a mod 3600"
  define m c where "m = b div 60" and "c = b mod 60"
  have a: "n - d * 86400 = a" and "a - h * 3600 = b"
    by (simp_all add: d_def a_def h_def b_def minus_div_mult_eq_mod)
  then have "n - (d * 86400 + h * 3600) = b" by (simp add: diff_diff_left [symmetric])
  with a have "get_uptime n = show_nat d @ '' days, '' @ show_nat h @ '' hours, '' @ show_nat m @ '' minutes''"
    by (simp add: get_uptime_def Let_def d_def [symmetric] h_def [symmetric] m_def [symmetric])
  moreover have "n = d * 86400 + a" "a = h * 3600 + b" "b = m * 60 + c"
    by (simp_all add: d_def a_def h_def b_def m_def c_def)
  then have "n = ((d * 24 + h) * 60 + m) * 60 + c" by (simp add: algebra_simps)
  moreover have "h < 24" "m < 60" "c < 60"
    by (simp_all add: h_def m_def c_def a_def b_def less_mult_imp_div_less)
  ultimately show ?thesis by blast
qed

text \<open>Once started, status messages of both kinds reach the status component, as long as its node runs.\<close>

lemma status_requests_reach_handler:
  assumes "status_start h_json h_proto sm nd = Inr (sm', nd')" "\<not> sm_started sm" "router_ok (rl_ec R) nd'" "router_run R nd' nd''"
    and "jd_api doc = Some (Inr ''status'')" "ev_sender msg = []" "payload_case (ev_payload msg) = kStatusRequest"
    and "get_bool (nd_options nd'') CRYPTO_ENABLED_INCOMING = Inr incoming"
  shows "priv_msg_handler doc s nd'' = Inr (n_emit [N_json h_json doc s] nd'')
     \<and> priv_protobuf_handler (rl_ec R) msg s nd'' = Inr (n_emit [N_proto h_proto msg s] nd'')"
proof -
  have "map_of (nd_message_map nd') ''status'' = Some h_json" "map_of (nd_protobuf_map nd') kStatusRequest = Some h_proto"
    using assms(1,2) by (auto simp: status_start_def register_for_message_def register_for_protobuf_def Let_def split: if_splits)
  then have "map_of (nd_message_map nd'') ''status'' = Some h_json" "map_of (nd_protobuf_map nd'') kStatusRequest = Some h_proto"
    using router_run_ok [OF assms(4,3)] by (auto simp: router_grows_def map_le_def dom_def)
  then show ?thesis
    using assms(5-) by (simp add: priv_msg_handler_def priv_protobuf_handler_def)
qed

end
