(* ===== verification/Audit_Module.thy ===== *)
theory Audit_Module
  imports Messages
begin

text \<open>
  The audit module, \<open>audit/audit.cpp\<close>: every node listens to the status and commit notifications of
  the others and reports what cannot happen if consensus works (two leaders of one term, two
  different entries at one index) and what should not last (no leader, a leader without progress).

  The record \<open>audit\<close> has the member variables. Of a timer it has which handler waits on it:
  \<open>alive_wait\<close> for \<open>leader_alive_timer\<close>, which the Raft and the PBFT mode share, and
  \<open>progress_wait\<close> for \<open>leader_progress_timer\<close>. What is sent to the monitor is appended to
  \<open>stats\<close>, and the sessions that were closed to \<open>closed_sessions\<close>. Decoding a message is a parameter.

  Detection of conflicts is the same for leaders, Raft commits, primaries and PBFT commits; it is
  proved once, in the locale \<open>conflict_monitor\<close>, of which the four handlers are interpretations.
\<close>

section \<open>State\<close>

datatype alive_wait = No_wait | Leader_alive_wait | Primary_alive_wait

record audit =
  au_uuid :: uuid_t
  recorded_errors :: "string list"
  leader_dead_count :: u32
  primary_dead_count :: u32
  leader_stuck_count :: u32
  recorded_leaders :: "(u64, uuid_t) smap"
  recorded_raft_commits :: "(u64, string) smap"
  recorded_primaries :: "(u64, uuid_t) smap"
  recorded_pbft_commits :: "(u64, string) smap"
  alive_wait :: alive_wait
  progress_wait :: bool
  last_leader :: uuid_t
  last_leader_commit_index :: u64
  leader_has_uncommitted_entries :: bool
  forgotten_error_count :: u64
  monitor_endpoint :: "endpoint option"
  statsd_namespace_prefix :: string
  mem_size :: u64
  use_pbft :: bool
  stats :: "string list"
  closed_sessions :: "session_id list"

definition LEADER_CONFLICT_METRIC_NAME :: string where "LEADER_CONFLICT_METRIC_NAME = ''raft.safety.leader_conflict''"
definition RAFT_COMMIT_CONFLICT_METRIC_NAME :: string where "RAFT_COMMIT_CONFLICT_METRIC_NAME = ''raft.safety.commit_conflict''"
definition LEADER_STUCK_METRIC_NAME :: string where "LEADER_STUCK_METRIC_NAME = ''raft.liveness.leader_stuck''"
definition NO_LEADER_METRIC_NAME :: string where "NO_LEADER_METRIC_NAME = ''raft.liveness.no_leader''"
definition RAFT_COMMIT_METRIC_NAME :: string where "RAFT_COMMIT_METRIC_NAME = ''raft.stats.commit_heard''"
definition NEW_LEADER_METRIC_NAME :: string where "NEW_LEADER_METRIC_NAME = ''raft.stats.new_leader_heard''"
definition PBFT_COMMIT_METRIC_NAME :: string where "PBFT_COMMIT_METRIC_NAME = ''pbft.stats.commit_heard''"
definition PRIMARY_HEARD_METRIC_NAME :: string where "PRIMARY_HEARD_METRIC_NAME = ''pbft.stats.primary_heard''"
definition FAILURE_DETECTED_METRIC_NAME :: string where "FAILURE_DETECTED_METRIC_NAME = ''pbft.stats.failure_detected''"
definition PBFT_COMMIT_CONFLICT_METRIC_NAME :: string where "PBFT_COMMIT_CONFLICT_METRIC_NAME = ''pbft.safety.commit_conflict''"
definition PRIMARY_CONFLICT_METRIC_NAME :: string where "PRIMARY_CONFLICT_METRIC_NAME = ''pbft.safety.primary_conflict''"
definition NO_PRIMARY_METRIC_NAME :: string where "NO_PRIMARY_METRIC_NAME = ''pbft.liveness.no_primary''"
definition STATSD_COUNTER_FORMAT :: string where "STATSD_COUNTER_FORMAT = '':1|c''"

definition new_audit :: "endpoint option \<Rightarrow> uuid_t \<Rightarrow> u64 \<Rightarrow> bool \<Rightarrow> audit" where
  "new_audit monitor u max_size pbft =
     \<lparr>au_uuid = u, recorded_errors = [], leader_dead_count = 0, primary_dead_count = 0, leader_stuck_count = 0,
      recorded_leaders = [], recorded_raft_commits = [], recorded_primaries = [], recorded_pbft_commits = [],
      alive_wait = No_wait, progress_wait = False, last_leader = '''', last_leader_commit_index = 0,
      leader_has_uncommitted_entries = False, forgotten_error_count = 0, monitor_endpoint = monitor,
      statsd_namespace_prefix = ''com.bluzelle.swarm.singleton.node.'' @ u @ ''.'', mem_size = max_size,
      use_pbft = pbft, stats = [], closed_sessions = []\<rparr>"

section \<open>Errors and memory\<close>

definition error_count :: "audit \<Rightarrow> u64" where
  "error_count st = word_of_nat (length (recorded_errors st)) + forgotten_error_count st"

text \<open>\<open>while (c.size() > mem_size) c.erase(c.begin())\<close>.\<close>

fun erase_first :: "nat \<Rightarrow> 'a list \<Rightarrow> 'a list" where
  "erase_first n [] = []"
| "erase_first n (x # xs) = (if n < length (x # xs) then erase_first n xs else x # xs)"

definition trim :: "audit \<Rightarrow> audit" where
  "trim st =
     (let n = unat (mem_size st); errors = erase_first n (recorded_errors st) in
      st\<lparr>recorded_errors := errors,
         forgotten_error_count := forgotten_error_count st + word_of_nat (length (recorded_errors st) - length errors),
         recorded_leaders := erase_first n (recorded_leaders st),
         recorded_raft_commits := erase_first n (recorded_raft_commits st)\<rparr>)"

definition current_memory_size :: "audit \<Rightarrow> nat" where
  "current_memory_size st =
     length (recorded_raft_commits st) + length (recorded_errors st) + length (recorded_leaders st)"

definition send_to_monitor :: "string \<Rightarrow> audit \<Rightarrow> audit" where
  "send_to_monitor stat st = (case monitor_endpoint st of None \<Rightarrow> st | Some _ \<Rightarrow> st\<lparr>stats := stats st @ [stat]\<rparr>)"

definition report_error :: "string \<Rightarrow> string \<Rightarrow> audit \<Rightarrow> audit" where
  "report_error metric_name description st =
     trim (send_to_monitor (statsd_namespace_prefix st @ metric_name @ STATSD_COUNTER_FORMAT)
       (st\<lparr>recorded_errors := recorded_errors st @ [description]\<rparr>))"

section \<open>Timers\<close>

definition reset_primary_alive_timer :: "audit \<Rightarrow> audit" where
  "reset_primary_alive_timer st = st\<lparr>primary_dead_count := 0, alive_wait := Primary_alive_wait\<rparr>"

definition reset_leader_alive_timer :: "audit \<Rightarrow> audit" where
  "reset_leader_alive_timer st = st\<lparr>leader_dead_count := 0, alive_wait := Leader_alive_wait\<rparr>"

definition reset_leader_progress_timer :: "audit \<Rightarrow> audit" where
  "reset_leader_progress_timer st = st\<lparr>leader_stuck_count := 0, progress_wait := True\<rparr>"

definition clear_leader_progress_timer :: "audit \<Rightarrow> audit" where
  "clear_leader_progress_timer st = st\<lparr>leader_stuck_count := 0, progress_wait := False\<rparr>"

text \<open>In the handlers \<open>ec\<close> says that the timer was cancelled.\<close>

definition handle_leader_alive_timeout :: "bool \<Rightarrow> audit \<Rightarrow> audit" where
  "handle_leader_alive_timeout ec st =
     (if ec then st
      else let n = leader_dead_count st + 1;
               st = report_error NO_LEADER_METRIC_NAME (''No leader alive ['' @ show_nat (unat n) @ '']'')
                 (st\<lparr>leader_dead_count := n\<rparr>);
               st = clear_leader_progress_timer st in
           st\<lparr>leader_has_uncommitted_entries := False, alive_wait := Leader_alive_wait\<rparr>)"

definition handle_primary_alive_timeout :: "bool \<Rightarrow> audit \<Rightarrow> audit" where
  "handle_primary_alive_timeout ec st =
     (if ec then st
      else let n = primary_dead_count st + 1;
               st = report_error NO_PRIMARY_METRIC_NAME (''No primary alive ['' @ show_nat (unat n) @ '']'')
                 (st\<lparr>primary_dead_count := n\<rparr>) in
           st\<lparr>alive_wait := Primary_alive_wait\<rparr>)"

definition handle_leader_progress_timeout :: "bool \<Rightarrow> audit \<Rightarrow> audit" where
  "handle_leader_progress_timeout ec st =
     (if ec then st
      else let n = leader_stuck_count st + 1;
               st = report_error LEADER_STUCK_METRIC_NAME
                 (''Leader alive but not making progress ['' @ show_nat (unat n) @ '']'')
                 (st\<lparr>leader_stuck_count := n\<rparr>) in
           st\<lparr>progress_wait := True\<rparr>)"

definition audit_start :: "audit \<Rightarrow> audit" where
  "audit_start st = (if use_pbft st then reset_primary_alive_timer st else reset_leader_alive_timer st)"

section \<open>Messages\<close>

definition quoted :: "string \<Rightarrow> string" where
  "quoted s = [CHR 0x27] @ s @ [CHR 0x27]"

definition handle_primary_status :: "primary_status \<Rightarrow> audit \<Rightarrow> audit" where
  "handle_primary_status s st =
     (if \<not> use_pbft st then st
      else reset_primary_alive_timer
        (case map_of (recorded_primaries st) (ps_view s) of
           None \<Rightarrow>
             (let st = send_to_monitor (PRIMARY_HEARD_METRIC_NAME @ STATSD_COUNTER_FORMAT) st in
              trim (st\<lparr>recorded_primaries := smap_set (ps_view s) (ps_primary s) (recorded_primaries st)\<rparr>))
         | Some p \<Rightarrow>
             if p \<noteq> ps_primary s
             then report_error PRIMARY_CONFLICT_METRIC_NAME
               (''Conflicting primary elected! '' @ quoted p @ '' is the recorded primary of view ''
                @ to_string (ps_view s) @ '', but '' @ quoted (ps_primary s)
                @ '' claims to be the primary of the same view.'') st
             else st))"

definition handle_leader_made_progress :: "leader_status \<Rightarrow> audit \<Rightarrow> audit" where
  "handle_leader_made_progress s st =
     (if ls_current_commit_index s = ls_current_log_index s
      then (clear_leader_progress_timer st)\<lparr>leader_has_uncommitted_entries := False\<rparr>
      else (reset_leader_progress_timer st)\<lparr>leader_has_uncommitted_entries := True\<rparr>)"

definition handle_leader_data :: "leader_status \<Rightarrow> audit \<Rightarrow> audit" where
  "handle_leader_data s st =
     (let st =
        (if ls_leader s \<noteq> last_leader st
         then handle_leader_made_progress s (st\<lparr>last_leader := ls_leader s\<rparr>)
         else if last_leader_commit_index st < ls_current_commit_index s
         then handle_leader_made_progress s st
         else if ls_current_commit_index s < ls_current_log_index s \<and> \<not> leader_has_uncommitted_entries st
         then (reset_leader_progress_timer st)\<lparr>leader_has_uncommitted_entries := True\<rparr>
         else st) in
      st\<lparr>last_leader_commit_index := ls_current_commit_index s\<rparr>)"

definition handle_leader_status :: "leader_status \<Rightarrow> audit \<Rightarrow> audit" where
  "handle_leader_status s st =
     (if use_pbft st then st
      else handle_leader_data s (reset_leader_alive_timer
        (case map_of (recorded_leaders st) (ls_term s) of
           None \<Rightarrow>
             (let st = send_to_monitor (NEW_LEADER_METRIC_NAME @ STATSD_COUNTER_FORMAT) st in
              trim (st\<lparr>recorded_leaders := smap_set (ls_term s) (ls_leader s) (recorded_leaders st)\<rparr>))
         | Some l \<Rightarrow>
             if l \<noteq> ls_leader s
             then report_error LEADER_CONFLICT_METRIC_NAME
               (''Conflicting leader elected! '' @ quoted l @ '' is the recorded leader of term ''
                @ to_string (ls_term s) @ '', but '' @ quoted (ls_leader s)
                @ '' claims to be the leader of the same term.'') st
             else st)))"

definition handle_raft_commit :: "raft_commit_notification \<Rightarrow> audit \<Rightarrow> audit" where
  "handle_raft_commit c st =
     (if use_pbft st then st
      else let st = send_to_monitor (RAFT_COMMIT_METRIC_NAME @ STATSD_COUNTER_FORMAT) st in
        case map_of (recorded_raft_commits st) (rc_log_index c) of
          None \<Rightarrow> trim (st\<lparr>recorded_raft_commits := smap_set (rc_log_index c) (rc_operation c) (recorded_raft_commits st)\<rparr>)
        | Some m \<Rightarrow>
            if m \<noteq> rc_operation c
            then report_error RAFT_COMMIT_CONFLICT_METRIC_NAME
              (''Conflicting commit detected! '' @ quoted m @ '' is the recorded entry at index ''
               @ to_string (rc_log_index c) @ '', but '' @ quoted (rc_operation c)
               @ '' has been committed with the same index.'') st
            else st)"

definition handle_pbft_commit :: "pbft_commit_notification \<Rightarrow> audit \<Rightarrow> audit" where
  "handle_pbft_commit c st =
     (if \<not> use_pbft st then st
      else let st = send_to_monitor (PBFT_COMMIT_METRIC_NAME @ STATSD_COUNTER_FORMAT) st in
        case map_of (recorded_pbft_commits st) (pc_sequence_number c) of
          None \<Rightarrow> trim (st\<lparr>recorded_pbft_commits := smap_set (pc_sequence_number c) (pc_operation c) (recorded_pbft_commits st)\<rparr>)
        | Some m \<Rightarrow>
            if m \<noteq> pc_operation c
            then report_error PBFT_COMMIT_CONFLICT_METRIC_NAME
              (''Conflicting commit detected! '' @ quoted m @ '' is the recorded entry at sequence ''
               @ to_string (pc_sequence_number c) @ '', but '' @ quoted (pc_operation c)
               @ '' has been committed with the same sequence.'') st
            else st)"

definition handle_failure_detected :: "audit \<Rightarrow> audit" where
  "handle_failure_detected st =
     (if \<not> use_pbft st then st
      else send_to_monitor (FAILURE_DETECTED_METRIC_NAME @ STATSD_COUNTER_FORMAT) st)"

text \<open>\<open>audit::handle\<close>; \<open>decode\<close> stands for the base64 and protobuf decoding of the member \<open>audit-data\<close>.\<close>

definition audit_handle :: "(string \<Rightarrow> audit_message) \<Rightarrow> string \<Rightarrow> session_id \<Rightarrow> audit \<Rightarrow> audit" where
  "audit_handle decode audit_data session st =
     (let st =
        (case decode audit_data of
           Audit_raft_commit c \<Rightarrow> handle_raft_commit c st
         | Audit_leader_status s \<Rightarrow> handle_leader_status s st
         | Audit_pbft_commit c \<Rightarrow> handle_pbft_commit c st
         | Audit_primary_status s \<Rightarrow> handle_primary_status s st
         | Audit_failure_detected _ \<Rightarrow> handle_failure_detected st
         | Audit_not_set \<Rightarrow> st) in
      st\<lparr>closed_sessions := closed_sessions st @ [session]\<rparr>)"

lemmas timer_defs = reset_primary_alive_timer_def reset_leader_alive_timer_def reset_leader_progress_timer_def
  clear_leader_progress_timer_def

section \<open>Memory\<close>

lemma erase_first_drop: "erase_first n xs = drop (length xs - n) xs"
  by (induction xs) (auto simp: Suc_diff_le)

lemma erase_first_length [simp]: "length (erase_first n xs) = min n (length xs)"
  by (simp add: erase_first_drop)

lemma erase_first_all [simp]: "length xs \<le> n \<Longrightarrow> erase_first n xs = xs"
  by (simp add: erase_first_drop)

lemma smap_ok_erase_first [simp]: "smap_ok m \<Longrightarrow> smap_ok (erase_first n m)"
  by (simp add: smap_ok_def erase_first_drop drop_map [symmetric] sorted_wrt_drop)

definition mem_ok :: "u64 \<Rightarrow> audit \<Rightarrow> bool" where
  "mem_ok m st \<longleftrightarrow> mem_size st = m \<and> length (recorded_errors st) \<le> unat m
     \<and> length (recorded_leaders st) \<le> unat m \<and> length (recorded_raft_commits st) \<le> unat m"

lemma mem_ok_trim [simp]: "mem_size st = m \<Longrightarrow> mem_ok m (trim st)"
  by (simp add: mem_ok_def trim_def Let_def)

lemma send_to_monitor_keeps [simp]:
  "mem_size (send_to_monitor x st) = mem_size st"
  "recorded_errors (send_to_monitor x st) = recorded_errors st"
  "recorded_leaders (send_to_monitor x st) = recorded_leaders st"
  "recorded_raft_commits (send_to_monitor x st) = recorded_raft_commits st"
  "recorded_primaries (send_to_monitor x st) = recorded_primaries st"
  "recorded_pbft_commits (send_to_monitor x st) = recorded_pbft_commits st"
  "forgotten_error_count (send_to_monitor x st) = forgotten_error_count st"
  "use_pbft (send_to_monitor x st) = use_pbft st"
  "progress_wait (send_to_monitor x st) = progress_wait st"
  "leader_has_uncommitted_entries (send_to_monitor x st) = leader_has_uncommitted_entries st"
  "last_leader (send_to_monitor x st) = last_leader st"
  "last_leader_commit_index (send_to_monitor x st) = last_leader_commit_index st"
  by (simp_all add: send_to_monitor_def split: option.split)

lemma mem_ok_report [simp]: "mem_size st = m \<Longrightarrow> mem_ok m (report_error metric d st)"
  by (simp add: report_error_def)

text \<open>Fields that memory does not depend on.\<close>

lemma mem_ok_other [simp]:
  "mem_ok m (st\<lparr>alive_wait := a\<rparr>) \<longleftrightarrow> mem_ok m st" "mem_ok m (st\<lparr>progress_wait := b\<rparr>) \<longleftrightarrow> mem_ok m st"
  "mem_ok m (st\<lparr>leader_dead_count := n\<rparr>) \<longleftrightarrow> mem_ok m st" "mem_ok m (st\<lparr>primary_dead_count := n\<rparr>) \<longleftrightarrow> mem_ok m st"
  "mem_ok m (st\<lparr>leader_stuck_count := n\<rparr>) \<longleftrightarrow> mem_ok m st" "mem_ok m (st\<lparr>last_leader := l\<rparr>) \<longleftrightarrow> mem_ok m st"
  "mem_ok m (st\<lparr>leader_has_uncommitted_entries := b\<rparr>) \<longleftrightarrow> mem_ok m st"
  "mem_ok m (st\<lparr>last_leader_commit_index := i\<rparr>) \<longleftrightarrow> mem_ok m st"
  "mem_ok m (st\<lparr>closed_sessions := c\<rparr>) \<longleftrightarrow> mem_ok m st"
  "mem_ok m (send_to_monitor x st) \<longleftrightarrow> mem_ok m st"
  by (simp_all add: mem_ok_def)

lemma mem_ok_size: "mem_ok m st \<Longrightarrow> mem_size st = m"
  by (simp add: mem_ok_def)

inductive audit_step :: "audit \<Rightarrow> audit \<Rightarrow> bool" where
  starting: "audit_step st (audit_start st)"
| message: "audit_step st (audit_handle decode d session st)"
| leader_alive: "alive_wait st = Leader_alive_wait \<Longrightarrow> audit_step st (handle_leader_alive_timeout ec st)"
| primary_alive: "alive_wait st = Primary_alive_wait \<Longrightarrow> audit_step st (handle_primary_alive_timeout ec st)"
| progress: "progress_wait st \<Longrightarrow> audit_step st (handle_leader_progress_timeout ec st)"

inductive_cases audit_stepE: "audit_step st st'"

abbreviation audit_run :: "audit \<Rightarrow> audit \<Rightarrow> bool" where
  "audit_run \<equiv> audit_step\<^sup>*\<^sup>*"

lemma mem_ok_leader_data [simp]: "mem_ok m (handle_leader_data s st) \<longleftrightarrow> mem_ok m st"
  by (simp add: handle_leader_data_def handle_leader_made_progress_def timer_defs Let_def)

lemma mem_ok_handle: "mem_ok m st \<Longrightarrow> mem_ok m (audit_handle decode d session st)"
  by (auto simp: audit_handle_def handle_raft_commit_def handle_leader_status_def handle_pbft_commit_def
      handle_primary_status_def handle_failure_detected_def timer_defs Let_def mem_ok_size
      split: audit_message.split option.split)

lemma mem_ok_step: "audit_step st st' \<Longrightarrow> mem_ok m st \<Longrightarrow> mem_ok m st'"
  by (elim audit_stepE)
    (auto simp: mem_ok_handle audit_start_def handle_leader_alive_timeout_def handle_primary_alive_timeout_def
      handle_leader_progress_timeout_def timer_defs Let_def mem_ok_size)

section \<open>Detection of conflicts\<close>

text \<open>How many entries of a list contradict the first one with their key; \<open>m\<close> has the first ones so far.\<close>

fun conflicts :: "('k \<rightharpoonup> 'v) \<Rightarrow> ('k \<times> 'v) list \<Rightarrow> nat" where
  "conflicts m [] = 0"
| "conflicts m ((k, v) # es) =
     (case m k of None \<Rightarrow> conflicts (m(k \<mapsto> v)) es | Some w \<Rightarrow> (if w = v then 0 else 1) + conflicts m es)"

definition agree :: "('k \<times> 'v) list \<Rightarrow> bool" where
  "agree es \<longleftrightarrow> (\<forall>k v v'. (k, v) \<in> set es \<and> (k, v') \<in> set es \<longrightarrow> v = v')"

lemma conflicts_le: "conflicts m es \<le> length es"
  by (induction m es rule: conflicts.induct) (auto simp del: fun_upd_apply split: option.split)

lemma agree_Cons: "agree ((k, v) # es) \<longleftrightarrow> (\<forall>v'. (k, v') \<in> set es \<longrightarrow> v' = v) \<and> agree es"
  unfolding agree_def by (metis Pair_inject list.set_intros set_ConsD)

lemma conflicts_zero:
  "conflicts m es = 0 \<longleftrightarrow> (\<forall>k v w. (k, v) \<in> set es \<and> m k = Some w \<longrightarrow> w = v) \<and> agree es"
proof (induction m es rule: conflicts.induct)
  case (2 m k v es)
  show ?case
  proof (cases "m k")
    case None
    then have u: "(m(k \<mapsto> v)) k' = Some w \<longleftrightarrow> k' = k \<and> w = v \<or> m k' = Some w" for k' w by auto
    have "(\<forall>k' v' w. (k', v') \<in> set es \<and> (m(k \<mapsto> v)) k' = Some w \<longrightarrow> w = v')
       \<longleftrightarrow> (\<forall>v'. (k, v') \<in> set es \<longrightarrow> v' = v) \<and> (\<forall>k' v' w. (k', v') \<in> set es \<and> m k' = Some w \<longrightarrow> w = v')"
      unfolding u by blast
    moreover have "(\<forall>k' v' w. (k', v') \<in> set ((k, v) # es) \<and> m k' = Some w \<longrightarrow> w = v')
       \<longleftrightarrow> (\<forall>k' v' w. (k', v') \<in> set es \<and> m k' = Some w \<longrightarrow> w = v')"
      using None by fastforce
    ultimately show ?thesis
      unfolding conflicts.simps None option.case 2(1) [OF None] agree_Cons by (simp only: conj_ac)
  next
    case (Some w)
    have "(\<forall>k' v' w. (k', v') \<in> set ((k, v) # es) \<and> m k' = Some w \<longrightarrow> w = v')
       \<longleftrightarrow> w = v \<and> (\<forall>k' v' w. (k', v') \<in> set es \<and> m k' = Some w \<longrightarrow> w = v')"
      using Some by fastforce
    moreover have "(\<forall>v'. (k, v') \<in> set es \<longrightarrow> v' = v)"
      if "w = v" "\<forall>k' v' w. (k', v') \<in> set es \<and> m k' = Some w \<longrightarrow> w = v'"
      using that Some by fastforce
    ultimately show ?thesis
      using 2(2) [OF Some] unfolding agree_Cons by (simp add: Some) blast
  qed
qed (simp add: agree_def)

locale conflict_monitor =
  fixes step :: "'e \<Rightarrow> 's \<Rightarrow> 's"
    and entry :: "'e \<Rightarrow> 'k \<times> 'v"
    and recorded :: "'s \<Rightarrow> 'k \<rightharpoonup> 'v"
    and errors :: "'s \<Rightarrow> u64"
    and inv :: "'s \<Rightarrow> bool"
    and room :: "nat \<Rightarrow> bool"
  assumes inv_step: "inv s \<Longrightarrow> inv (step e s)"
    and finite_recorded: "inv s \<Longrightarrow> finite (dom (recorded s))"
    and records: "inv s \<Longrightarrow> entry e = (k, v) \<Longrightarrow> recorded s k = None \<Longrightarrow> room (card (insert k (dom (recorded s))))
      \<Longrightarrow> recorded (step e s) = (recorded s)(k \<mapsto> v) \<and> errors (step e s) = errors s"
    and accepts: "inv s \<Longrightarrow> entry e = (k, v) \<Longrightarrow> recorded s k = Some v
      \<Longrightarrow> recorded (step e s) = recorded s \<and> errors (step e s) = errors s"
    and reports: "inv s \<Longrightarrow> entry e = (k, v) \<Longrightarrow> recorded s k = Some w \<Longrightarrow> w \<noteq> v
      \<Longrightarrow> recorded (step e s) = recorded s \<and> errors (step e s) = errors s + 1"
    and room_mono: "room n \<Longrightarrow> n' \<le> n \<Longrightarrow> room n'"
begin

lemma counts:
  "inv s \<Longrightarrow> room (card (dom (recorded s) \<union> fst ` entry ` set es))
    \<Longrightarrow> errors (fold step es s) = errors s + word_of_nat (conflicts (recorded s) (map entry es))
      \<and> dom (recorded (fold step es s)) = dom (recorded s) \<union> fst ` entry ` set es"
proof (induction es arbitrary: s)
  case (Cons e es)
  obtain k v where e: "entry e = (k, v)" by (cases "entry e")
  note step = Cons.IH [OF inv_step [OF Cons.prems(1)]]
  show ?case
  proof (cases "recorded s k")
    case None
    have "card (insert k (dom (recorded s))) \<le> card (dom (recorded s) \<union> fst ` entry ` set (e # es))"
      using finite_recorded [OF Cons.prems(1)] e by (intro card_mono) auto
    then have r: "recorded (step e s) = (recorded s)(k \<mapsto> v)" "errors (step e s) = errors s"
      using records [OF Cons.prems(1) e None] room_mono [OF Cons.prems(2)] by auto
    with step [of e] Cons.prems(2) e None show ?thesis by (simp add: insert_commute del: fun_upd_apply)
  next
    case (Some w)
    then have d: "k \<in> dom (recorded s)" by auto
    show ?thesis
    proof (cases "w = v")
      case True
      with step [of e] accepts [OF Cons.prems(1) e] Some Cons.prems(2) e d show ?thesis by (simp add: insert_absorb)
    next
      case False
      with step [of e] reports [OF Cons.prems(1) e Some] Some Cons.prems(2) e d show ?thesis by (simp add: insert_absorb)
    qed
  qed
qed simp

lemma detects:
  assumes "inv s" "recorded s = Map.empty" "errors s = 0" "room (card (fst ` entry ` set es))" "length es < 2 ^ 64"
  shows "errors (fold step es s) = word_of_nat (conflicts Map.empty (map entry es))
     \<and> (errors (fold step es s) = 0 \<longleftrightarrow> agree (map entry es))"
proof -
  have n: "errors (fold step es s) = word_of_nat (conflicts Map.empty (map entry es))"
    using counts [OF assms(1), of es] assms(2-4) by simp
  have "conflicts Map.empty (map entry es) < 2 ^ 64"
    using conflicts_le [of "Map.empty" "map entry es"] assms(5) by simp
  then have "errors (fold step es s) = 0 \<longleftrightarrow> conflicts Map.empty (map entry es) = 0"
    using of_nat_u64_inject [of _ 0] unfolding n by simp
  with n show ?thesis by (simp add: conflicts_zero)
qed

end

text \<open>What the four handlers keep besides what they record.\<close>

definition maps_ok :: "u64 \<Rightarrow> bool \<Rightarrow> audit \<Rightarrow> bool" where
  "maps_ok m pbft st \<longleftrightarrow> mem_ok m st \<and> use_pbft st = pbft \<and> smap_ok (recorded_leaders st)
     \<and> smap_ok (recorded_raft_commits st) \<and> smap_ok (recorded_primaries st) \<and> smap_ok (recorded_pbft_commits st)"

lemma report_error_keeps [simp]:
  "mem_ok (mem_size st) st \<Longrightarrow> recorded_leaders (report_error metric d st) = recorded_leaders st"
  "mem_ok (mem_size st) st \<Longrightarrow> recorded_raft_commits (report_error metric d st) = recorded_raft_commits st"
  "recorded_primaries (report_error metric d st) = recorded_primaries st"
  "recorded_pbft_commits (report_error metric d st) = recorded_pbft_commits st"
  "use_pbft (report_error metric d st) = use_pbft st"
  "mem_size (report_error metric d st) = mem_size st"
  by (simp_all add: report_error_def trim_def mem_ok_def Let_def)

lemma trim_keeps [simp]:
  "recorded_primaries (trim st) = recorded_primaries st" "recorded_pbft_commits (trim st) = recorded_pbft_commits st"
  "use_pbft (trim st) = use_pbft st" "mem_size (trim st) = mem_size st"
  "recorded_leaders (trim st) = erase_first (unat (mem_size st)) (recorded_leaders st)"
  "recorded_raft_commits (trim st) = erase_first (unat (mem_size st)) (recorded_raft_commits st)"
  by (simp_all add: trim_def Let_def)

lemma error_count_trim [simp]: "error_count (trim st) = error_count st"
  by (simp add: error_count_def trim_def Let_def of_nat_diff)

lemma error_count_report: "error_count (report_error metric d st) = error_count st + 1"
  by (simp add: report_error_def) (simp add: error_count_def)

lemma error_count_other [simp]:
  "error_count (send_to_monitor x st) = error_count st"
  "error_count (st\<lparr>recorded_leaders := l\<rparr>) = error_count st" "error_count (st\<lparr>recorded_raft_commits := c\<rparr>) = error_count st"
  "error_count (st\<lparr>recorded_primaries := l\<rparr>) = error_count st" "error_count (st\<lparr>recorded_pbft_commits := c\<rparr>) = error_count st"
  "error_count (reset_leader_alive_timer st) = error_count st" "error_count (reset_primary_alive_timer st) = error_count st"
  "error_count (handle_leader_data s st) = error_count st"
  by (simp_all add: error_count_def timer_defs handle_leader_data_def handle_leader_made_progress_def Let_def)

lemma leader_data_keeps [simp]:
  "recorded_leaders (handle_leader_data s st) = recorded_leaders st"
  "recorded_raft_commits (handle_leader_data s st) = recorded_raft_commits st"
  "recorded_primaries (handle_leader_data s st) = recorded_primaries st"
  "recorded_pbft_commits (handle_leader_data s st) = recorded_pbft_commits st"
  "use_pbft (handle_leader_data s st) = use_pbft st"
  by (simp_all add: handle_leader_data_def handle_leader_made_progress_def timer_defs Let_def)

lemma timers_keep [simp]:
  "recorded_leaders (reset_leader_alive_timer st) = recorded_leaders st"
  "recorded_raft_commits (reset_leader_alive_timer st) = recorded_raft_commits st"
  "recorded_primaries (reset_leader_alive_timer st) = recorded_primaries st"
  "recorded_pbft_commits (reset_leader_alive_timer st) = recorded_pbft_commits st"
  "use_pbft (reset_leader_alive_timer st) = use_pbft st"
  "mem_ok m (reset_leader_alive_timer st) \<longleftrightarrow> mem_ok m st"
  "recorded_leaders (reset_primary_alive_timer st) = recorded_leaders st"
  "recorded_raft_commits (reset_primary_alive_timer st) = recorded_raft_commits st"
  "recorded_primaries (reset_primary_alive_timer st) = recorded_primaries st"
  "recorded_pbft_commits (reset_primary_alive_timer st) = recorded_pbft_commits st"
  "use_pbft (reset_primary_alive_timer st) = use_pbft st"
  "mem_ok m (reset_primary_alive_timer st) \<longleftrightarrow> mem_ok m st"
  by (simp_all add: timer_defs)

lemmas maps_ok_simps = maps_ok_def Let_def mem_ok_size error_count_report

lemma set_new_fits:
  assumes "smap_ok m" "map_of m k = None" "card (insert k (dom (map_of m))) \<le> n"
  shows "length (smap_set k v m) \<le> n"
proof -
  have "k \<notin> fst ` set m" using assms(2) by (simp add: map_of_eq_None_iff)
  moreover have "length m = card (fst ` set m)"
    using assms(1) by (simp add: umap_size umap_ok_def smap_ok_distinct)
  ultimately show ?thesis
    using assms(1,3) by (simp add: length_smap_set dom_map_of_conv_image_fst)
qed

interpretation raft_commits: conflict_monitor handle_raft_commit "\<lambda>c. (rc_log_index c, rc_operation c)"
  "\<lambda>st. map_of (recorded_raft_commits st)" error_count "maps_ok m False" "\<lambda>n. n \<le> unat m" for m
proof unfold_locales
  fix s e
  show "maps_ok m False (handle_raft_commit e s)" if "maps_ok m False s"
    using that by (auto simp: handle_raft_commit_def maps_ok_simps split: option.split)
qed (auto simp: handle_raft_commit_def maps_ok_simps set_new_fits finite_dom_map_of)

interpretation leaders: conflict_monitor handle_leader_status "\<lambda>s. (ls_term s, ls_leader s)"
  "\<lambda>st. map_of (recorded_leaders st)" error_count "maps_ok m False" "\<lambda>n. n \<le> unat m" for m
proof unfold_locales
  fix s e
  show "maps_ok m False (handle_leader_status e s)" if "maps_ok m False s"
    using that by (auto simp: handle_leader_status_def maps_ok_simps split: option.split)
qed (auto simp: handle_leader_status_def maps_ok_simps set_new_fits finite_dom_map_of)

interpretation pbft_commits: conflict_monitor handle_pbft_commit "\<lambda>c. (pc_sequence_number c, pc_operation c)"
  "\<lambda>st. map_of (recorded_pbft_commits st)" error_count "maps_ok m True" "\<lambda>n. True" for m
proof unfold_locales
  fix s e
  show "maps_ok m True (handle_pbft_commit e s)" if "maps_ok m True s"
    using that by (auto simp: handle_pbft_commit_def maps_ok_simps split: option.split)
qed (auto simp: handle_pbft_commit_def maps_ok_simps finite_dom_map_of)

interpretation primaries: conflict_monitor handle_primary_status "\<lambda>s. (ps_view s, ps_primary s)"
  "\<lambda>st. map_of (recorded_primaries st)" error_count "maps_ok m True" "\<lambda>n. True" for m
proof unfold_locales
  fix s e
  show "maps_ok m True (handle_primary_status e s)" if "maps_ok m True s"
    using that by (auto simp: handle_primary_status_def maps_ok_simps split: option.split)
qed (auto simp: handle_primary_status_def maps_ok_simps finite_dom_map_of)

lemma new_audit_ok: "maps_ok m pbft (new_audit mon u m pbft) \<and> error_count (new_audit mon u m pbft) = 0"
  by (simp add: maps_ok_def mem_ok_def new_audit_def error_count_def)

section \<open>The progress timer\<close>

definition wait_ok :: "audit \<Rightarrow> bool" where
  "wait_ok st \<longleftrightarrow> (progress_wait st \<longleftrightarrow> leader_has_uncommitted_entries st)"

lemma wait_fields [simp]:
  "progress_wait (trim st) = progress_wait st"
  "leader_has_uncommitted_entries (trim st) = leader_has_uncommitted_entries st"
  "last_leader (trim st) = last_leader st" "last_leader_commit_index (trim st) = last_leader_commit_index st"
  "progress_wait (report_error metric d st) = progress_wait st"
  "leader_has_uncommitted_entries (report_error metric d st) = leader_has_uncommitted_entries st"
  "last_leader (report_error metric d st) = last_leader st"
  "last_leader_commit_index (report_error metric d st) = last_leader_commit_index st"
  by (simp_all add: trim_def report_error_def Let_def)

lemma wait_ok_leader_data: "wait_ok st \<Longrightarrow> wait_ok (handle_leader_data s st)"
  by (simp add: wait_ok_def handle_leader_data_def handle_leader_made_progress_def timer_defs Let_def)

lemma wait_ok_other [simp]:
  "wait_ok (trim st) \<longleftrightarrow> wait_ok st" "wait_ok (report_error metric d st) \<longleftrightarrow> wait_ok st"
  "wait_ok (send_to_monitor x st) \<longleftrightarrow> wait_ok st" "wait_ok (reset_leader_alive_timer st) \<longleftrightarrow> wait_ok st"
  "wait_ok (reset_primary_alive_timer st) \<longleftrightarrow> wait_ok st"
  "wait_ok (st\<lparr>recorded_leaders := l\<rparr>) \<longleftrightarrow> wait_ok st" "wait_ok (st\<lparr>recorded_raft_commits := c\<rparr>) \<longleftrightarrow> wait_ok st"
  "wait_ok (st\<lparr>recorded_primaries := l\<rparr>) \<longleftrightarrow> wait_ok st" "wait_ok (st\<lparr>recorded_pbft_commits := c\<rparr>) \<longleftrightarrow> wait_ok st"
  "wait_ok (st\<lparr>closed_sessions := cl\<rparr>) \<longleftrightarrow> wait_ok st"
  by (simp_all add: wait_ok_def timer_defs)

lemma wait_ok_handle: "wait_ok st \<Longrightarrow> wait_ok (audit_handle decode d session st)"
  by (cases "decode d")
    (simp_all add: audit_handle_def handle_leader_status_def handle_raft_commit_def handle_pbft_commit_def
      handle_primary_status_def handle_failure_detected_def wait_ok_leader_data Let_def split: option.split)

lemma wait_ok_step: "audit_step st st' \<Longrightarrow> wait_ok st \<Longrightarrow> wait_ok st'"
proof (elim audit_stepE)
  fix decode d session assume "wait_ok st" "st' = audit_handle decode d session st"
  then show "wait_ok st'" by (simp add: wait_ok_handle)
qed (simp_all add: wait_ok_def audit_start_def handle_leader_alive_timeout_def handle_primary_alive_timeout_def
      handle_leader_progress_timeout_def timer_defs Let_def)

lemma run_ok:
  assumes "audit_run (new_audit mon u m pbft) st"
  shows "mem_ok m st \<and> wait_ok st"
  using assms
proof (induction rule: rtranclp_induct)
  case base
  then show ?case by (simp add: mem_ok_def wait_ok_def new_audit_def)
qed (auto intro: mem_ok_step wait_ok_step)

section \<open>Properties\<close>

text \<open>
  C27: The audit module reports exactly the contradictions among what it hears. Of any sequence of Raft
  commit notifications, leader announcements, PBFT commit notifications or primary announcements, the
  error count is the number of those that contradict the first one for the same index, term, sequence
  number or view, and it is zero if and only if no two of them contradict each other. In the Raft mode
  this holds as long as no more indices or terms occur than \<open>mem_size\<close> lets the module remember.
\<close>

theorem audit_detects_conflicts:
  fixes cs :: "raft_commit_notification list" and ls :: "leader_status list"
    and ps :: "pbft_commit_notification list" and vs :: "primary_status list"
  assumes "card (rc_log_index ` set cs) \<le> unat m" "card (ls_term ` set ls) \<le> unat m"
    and "length cs < 2 ^ 64" "length ls < 2 ^ 64" "length ps < 2 ^ 64" "length vs < 2 ^ 64"
    and raft: "raft = new_audit mon u m False" and pbft: "pbft = new_audit mon u m True"
  shows "(let es = map (\<lambda>c. (rc_log_index c, rc_operation c)) cs; n = error_count (fold handle_raft_commit cs raft) in
           n = word_of_nat (conflicts Map.empty es) \<and> (n = 0 \<longleftrightarrow> agree es))
     \<and> (let es = map (\<lambda>s. (ls_term s, ls_leader s)) ls; n = error_count (fold handle_leader_status ls raft) in
           n = word_of_nat (conflicts Map.empty es) \<and> (n = 0 \<longleftrightarrow> agree es))
     \<and> (let es = map (\<lambda>c. (pc_sequence_number c, pc_operation c)) ps; n = error_count (fold handle_pbft_commit ps pbft) in
           n = word_of_nat (conflicts Map.empty es) \<and> (n = 0 \<longleftrightarrow> agree es))
     \<and> (let es = map (\<lambda>s. (ps_view s, ps_primary s)) vs; n = error_count (fold handle_primary_status vs pbft) in
           n = word_of_nat (conflicts Map.empty es) \<and> (n = 0 \<longleftrightarrow> agree es))"
proof -
  let ?P = "\<lambda>n es. n = word_of_nat (conflicts Map.empty es) \<and> (n = 0 \<longleftrightarrow> agree es)"
  have ok: "maps_ok m False raft" "error_count raft = 0" "maps_ok m True pbft" "error_count pbft = 0"
    using new_audit_ok raft pbft by auto
  have e: "recorded_raft_commits raft = []" "recorded_leaders raft = []" "recorded_pbft_commits pbft = []"
    "recorded_primaries pbft = []"
    by (simp_all add: raft pbft new_audit_def)
  have d1: "?P (error_count (fold handle_raft_commit cs raft)) (map (\<lambda>c. (rc_log_index c, rc_operation c)) cs)"
    by (rule raft_commits.detects [OF ok(1) _ ok(2)]) (use assms(1,3) in \<open>simp_all add: e image_image\<close>)
  have d2: "?P (error_count (fold handle_leader_status ls raft)) (map (\<lambda>s. (ls_term s, ls_leader s)) ls)"
    by (rule leaders.detects [OF ok(1) _ ok(2)]) (use assms(2,4) in \<open>simp_all add: e image_image\<close>)
  have d3: "?P (error_count (fold handle_pbft_commit ps pbft)) (map (\<lambda>c. (pc_sequence_number c, pc_operation c)) ps)"
    by (rule pbft_commits.detects [OF ok(3) _ ok(4)]) (use assms(5) in \<open>simp_all add: e\<close>)
  have d4: "?P (error_count (fold handle_primary_status vs pbft)) (map (\<lambda>s. (ps_view s, ps_primary s)) vs)"
    by (rule primaries.detects [OF ok(3) _ ok(4)]) (use assms(6) in \<open>simp_all add: e\<close>)
  show ?thesis unfolding Let_def by (rule conjI [OF d1 conjI [OF d2 conjI [OF d3 d4]]])
qed

text \<open>
  C28: In the Raft mode the memory of the audit module is bounded: in every state it reaches, the errors,
  leaders and commits it remembers are at most \<open>mem_size\<close> each. The PBFT maps have no such bound:
  every sequence number heard of stays recorded.
\<close>

theorem audit_memory:
  assumes "audit_run (new_audit mon u m pbft) st"
  shows "length (recorded_errors st) \<le> unat m \<and> length (recorded_leaders st) \<le> unat m
     \<and> length (recorded_raft_commits st) \<le> unat m \<and> current_memory_size st \<le> 3 * unat m
     \<and> dom (map_of (recorded_pbft_commits (fold handle_pbft_commit cs (new_audit mon u m True)))) = pc_sequence_number ` set cs"
proof -
  have "recorded_pbft_commits (new_audit mon u m True) = []" by (simp add: new_audit_def)
  then have "dom (map_of (recorded_pbft_commits (fold handle_pbft_commit cs (new_audit mon u m True)))) = pc_sequence_number ` set cs"
    using pbft_commits.counts [of m "new_audit mon u m True" cs] new_audit_ok by (simp add: image_image)
  with run_ok [OF assms] show ?thesis by (simp add: mem_ok_def current_memory_size_def)
qed

text \<open>
  The timer that reports a leader without progress. When a leader's status arrives, the timer runs
  afterwards if and only if the leader has uncommitted entries, except that a running timer is left
  running when the leader is the same and its commit index has not grown. Whenever the leader changes
  or has committed something, the count of timeouts starts again at zero.
\<close>

theorem leader_progress_timer:
  assumes "audit_run (new_audit mon u m False) st" and "\<not> use_pbft st"
    and "ls_current_commit_index s \<le> ls_current_log_index s"
  shows "let st' = handle_leader_status s st;
             advanced = (ls_leader s \<noteq> last_leader st \<or> last_leader_commit_index st < ls_current_commit_index s);
             uncommitted = (ls_current_commit_index s < ls_current_log_index s) in
         (progress_wait st' \<longleftrightarrow> (if advanced then uncommitted else progress_wait st \<or> uncommitted))
       \<and> (advanced \<longrightarrow> leader_stuck_count st' = 0)
       \<and> last_leader st' = ls_leader s \<and> last_leader_commit_index st' = ls_current_commit_index s"
proof -
  let ?st = "case map_of (recorded_leaders st) (ls_term s) of
           None \<Rightarrow>
             (let st = send_to_monitor (NEW_LEADER_METRIC_NAME @ STATSD_COUNTER_FORMAT) st in
              trim (st\<lparr>recorded_leaders := smap_set (ls_term s) (ls_leader s) (recorded_leaders st)\<rparr>))
         | Some l \<Rightarrow>
             if l \<noteq> ls_leader s
             then report_error LEADER_CONFLICT_METRIC_NAME
               (''Conflicting leader elected! '' @ quoted l @ '' is the recorded leader of term ''
                @ to_string (ls_term s) @ '', but '' @ quoted (ls_leader s)
                @ '' claims to be the leader of the same term.'') st
             else st"
  have f: "progress_wait ?st = progress_wait st" "last_leader ?st = last_leader st"
    "leader_has_uncommitted_entries ?st = progress_wait st" "last_leader_commit_index ?st = last_leader_commit_index st"
    using run_ok [OF assms(1)] by (simp_all add: wait_ok_def Let_def split: option.split)
  have "handle_leader_status s st = handle_leader_data s (reset_leader_alive_timer ?st)"
    using assms(2) by (simp add: handle_leader_status_def)
  with f assms(3) show ?thesis
    by (auto simp: Let_def handle_leader_data_def handle_leader_made_progress_def timer_defs)
qed

section \<open>Small instances\<close>

theorem audit_detects_conflicts_witness:
  "error_count (fold handle_leader_status
      [\<lparr>ls_term = 1, ls_leader = ''a'', ls_current_log_index = 0, ls_current_commit_index = 0\<rparr>,
       \<lparr>ls_term = 1, ls_leader = ''b'', ls_current_log_index = 0, ls_current_commit_index = 0\<rparr>]
      (new_audit None ''n'' 5 False)) = 1"
proof -
  let ?ls = "[\<lparr>ls_term = 1, ls_leader = ''a'', ls_current_log_index = 0, ls_current_commit_index = 0\<rparr>,
       \<lparr>ls_term = 1, ls_leader = ''b'', ls_current_log_index = 0, ls_current_commit_index = 0\<rparr>]"
  have "error_count (fold handle_leader_status ?ls (new_audit None ''n'' 5 False))
      = word_of_nat (conflicts Map.empty (map (\<lambda>s. (ls_term s, ls_leader s)) ?ls))"
    using audit_detects_conflicts [of "[]" 5 ?ls "[]" "[]" _ None "''n''"] unfolding Let_def by simp
  then show ?thesis by simp
qed

lemma sample_audit_run: "audit_run (new_audit None ''n'' 2 False) (audit_start (new_audit None ''n'' 2 False))"
  by (rule r_into_rtranclp) (rule audit_step.starting)

theorem audit_memory_witness:
  "current_memory_size (audit_start (new_audit None ''n'' 2 False)) \<le> 6"
  using audit_memory [OF sample_audit_run, of "[]"] by simp

theorem leader_progress_timer_witness:
  "progress_wait (handle_leader_status \<lparr>ls_term = 1, ls_leader = ''a'', ls_current_log_index = 3, ls_current_commit_index = 2\<rparr>
     (audit_start (new_audit None ''n'' 2 False)))"
  using leader_progress_timer [OF sample_audit_run,
      of "\<lparr>ls_term = 1, ls_leader = ''a'', ls_current_log_index = 3, ls_current_commit_index = 2\<rparr>"]
  by (simp add: Let_def audit_start_def timer_defs new_audit_def)

end
