(* ===== verification/Wiring.thy ===== *)
theory Wiring
  imports Status Audit_Module Pbft_Safety Http
begin

text \<open>
  How the components of a daemon are connected. The \<open>start\<close> function of each component registers its
  handlers with the node and starts its timers (\<open>audit.cpp\<close>, \<open>pbft.cpp\<close>, \<open>raft.cpp\<close>, \<open>raft_crud.cpp\<close>,
  \<open>server.cpp\<close>, \<open>status.cpp\<close>), in the order in which \<open>main\<close> calls them; and the messages a PBFT replica
  broadcasts go through the node as bytes. A handler is named by the member function that is bound.
\<close>

section \<open>Starting the components\<close>

datatype handler =
    Audit_handle
  | Pbft_handle_bzn_message
  | Pbft_handle_membership_message
  | Pbft_handle_database_message
  | Raft_handle_ws_raft_messages
  | Raft_crud_handle_ws_crud_messages
  | Status_handle_ws_status_messages
  | Status_handle_status_request_message

text \<open>Each object starts once; the objects here are those of \<open>main\<close>, which have not been started.\<close>

definition audit_component_start :: "audit \<times> handler node \<Rightarrow> audit \<times> handler node" where
  "audit_component_start = (\<lambda>(a, nd).
     (audit_start a, snd (register_for_message ''audit'' (Some Audit_handle) nd)))"

text \<open>
  The execute handler and the failure handler that \<open>pbft::start\<close> registers are \<open>execute_handler\<close> and
  \<open>handle_failure\<close>; the results of the registrations with the node are not looked at.
\<close>

definition pbft_start :: "pbft \<times> handler node \<Rightarrow> pbft \<times> handler node" where
  "pbft_start = (\<lambda>(p, nd).
     let nd = snd (register_for_protobuf kPbft (Some Pbft_handle_bzn_message) nd);
         nd = snd (register_for_protobuf kPbftMembership (Some Pbft_handle_membership_message) nd);
         nd = snd (register_for_message ''database'' (Some Pbft_handle_database_message) nd)
     in (emit [Heartbeat_wait] p, nd))"

definition raft_component_start :: "raft \<times> handler node \<Rightarrow> raft \<times> handler node" where
  "raft_component_start = (\<lambda>(r, nd).
     (start r, snd (register_for_message ''raft'' (Some Raft_handle_ws_raft_messages) nd)))"

definition raft_crud_start :: "handler node \<Rightarrow> handler node res" where
  "raft_crud_start nd =
     (let (ok, nd) = register_for_message ''database'' (Some Raft_crud_handle_ws_crud_messages) nd in
      if \<not> ok then Inl (Runtime_error ''Unable to register for DATABASE messages!'') else Inr nd)"

definition pbft_get_name :: string where "pbft_get_name = ''pbft''"
definition raft_get_name :: string where "raft_get_name = ''raft''"

text \<open>The last calls of the two branches of \<open>main\<close>; \<open>crud::start\<close> is empty.\<close>

definition start_pbft_components ::
  "status_module \<Rightarrow> pbft \<times> handler node \<Rightarrow> (pbft \<times> status_module \<times> handler node) res" where
  "start_pbft_components sm = (\<lambda>s.
     let (p, nd) = pbft_start s in
     bindE (status_start Status_handle_ws_status_messages Status_handle_status_request_message sm nd) (\<lambda>(sm, nd).
       Inr (p, sm, nd)))"

definition start_raft_components ::
  "status_module \<Rightarrow> http_server \<Rightarrow> raft \<times> handler node \<Rightarrow> (raft \<times> http_server \<times> status_module \<times> handler node) res" where
  "start_raft_components sm hs = (\<lambda>(r, nd).
     let hs = http_server_start hs in
     bindE (raft_crud_start nd) (\<lambda>nd.
     let (r, nd) = raft_component_start (r, nd) in
     bindE (status_start Status_handle_ws_status_messages Status_handle_status_request_message sm nd) (\<lambda>(sm, nd).
       Inr (r, hs, sm, nd))))"

section \<open>What is registered\<close>

text \<open>The handler of every \<open>bzn-api\<close> and of every payload type, by the stack and by whether the audit is on.\<close>

definition api_table :: "bool \<Rightarrow> bool \<Rightarrow> string \<Rightarrow> handler option" where
  "api_table pbft audit_on k =
     (if k = ''status'' then Some Status_handle_ws_status_messages
      else if k = ''database'' then Some (if pbft then Pbft_handle_database_message else Raft_crud_handle_ws_crud_messages)
      else if k = ''raft'' \<and> \<not> pbft then Some Raft_handle_ws_raft_messages
      else if k = ''audit'' \<and> audit_on then Some Audit_handle
      else None)"

definition payload_table :: "bool \<Rightarrow> payload_kind \<Rightarrow> handler option" where
  "payload_table pbft c =
     (if c = kStatusRequest then Some Status_handle_status_request_message
      else if c = kPbft \<and> pbft then Some Pbft_handle_bzn_message
      else if c = kPbftMembership \<and> pbft then Some Pbft_handle_membership_message
      else None)"

definition wired :: "bool \<Rightarrow> bool \<Rightarrow> handler node \<Rightarrow> bool" where
  "wired pbft audit_on nd \<longleftrightarrow> map_of (nd_message_map nd) = api_table pbft audit_on
     \<and> map_of (nd_protobuf_map nd) = payload_table pbft"

lemmas wiring_defs = audit_component_start_def pbft_start_def raft_component_start_def raft_crud_start_def
  start_pbft_components_def start_raft_components_def status_start_def register_for_message_def register_for_protobuf_def

text \<open>On a new node no registration is refused: the starts succeed and register exactly the table.\<close>

lemma pbft_components_wired:
  fixes nd :: "handler node"
  assumes "nd_message_map nd = (if audit_on then [(''audit'', Audit_handle)] else [])" "nd_protobuf_map nd = []" "\<not> sm_started sm"
  shows "\<exists>p' sm' nd'. start_pbft_components sm (p, nd) = Inr (p', sm', nd') \<and> wired True audit_on nd'
     \<and> sm_started sm' \<and> p' = emit [Heartbeat_wait] p \<and> nd_options nd' = nd_options nd \<and> nd_effects nd' = nd_effects nd
     \<and> nd_accepting nd' = nd_accepting nd"
  using assms by (auto simp: wiring_defs wired_def api_table_def payload_table_def fun_eq_iff)

lemma raft_components_wired:
  fixes nd :: "handler node"
  assumes "nd_message_map nd = (if audit_on then [(''audit'', Audit_handle)] else [])" "nd_protobuf_map nd = []" "\<not> sm_started sm"
  shows "\<exists>hs' sm' nd'. start_raft_components sm hs (r, nd) = Inr (start r, hs', sm', nd') \<and> wired False audit_on nd'
     \<and> sm_started sm' \<and> hs' = http_server_start hs \<and> nd_options nd' = nd_options nd \<and> nd_effects nd' = nd_effects nd
     \<and> nd_accepting nd' = nd_accepting nd"
  using assms by (auto simp: wiring_defs wired_def api_table_def payload_table_def fun_eq_iff Let_def)

text \<open>A wired node goes on dispatching by the table, whatever it sends and receives.\<close>

lemma wired_run:
  assumes "wired pbft audit_on nd" "router_ok (rl_ec R) nd" "router_run R nd nd'"
  shows "api_table pbft audit_on k = Some h \<Longrightarrow> jd_api doc = Some (Inr k)
       \<Longrightarrow> priv_msg_handler doc s nd' = Inr (n_emit [N_json h doc s] nd')"
    and "payload_table pbft (payload_case (ev_payload msg)) = Some h
       \<Longrightarrow> get_bool (nd_options nd) CRYPTO_ENABLED_INCOMING = Inr incoming
       \<Longrightarrow> (incoming \<and> ev_sender msg \<noteq> [] \<longrightarrow> crypto_verify (rl_ec R) msg = Inr True)
       \<Longrightarrow> priv_protobuf_handler (rl_ec R) msg s nd' = Inr (n_emit [N_proto h msg s] nd')"
proof -
  have g: "router_grows (rl_ec R) nd nd'" using router_run_ok [OF assms(3,2)] by blast
  then have m: "map_of (nd_message_map nd) k = Some h \<Longrightarrow> map_of (nd_message_map nd') k = Some h"
    "map_of (nd_protobuf_map nd) c = Some h \<Longrightarrow> map_of (nd_protobuf_map nd') c = Some h" "nd_options nd' = nd_options nd" for k h c
    by (auto simp: router_grows_def map_le_def dom_def)
  show "priv_msg_handler doc s nd' = Inr (n_emit [N_json h doc s] nd')"
    if "api_table pbft audit_on k = Some h" "jd_api doc = Some (Inr k)"
    using that assms(1) m(1) by (simp add: wired_def priv_msg_handler_def)
  show "priv_protobuf_handler (rl_ec R) msg s nd' = Inr (n_emit [N_proto h msg s] nd')"
    if "payload_table pbft (payload_case (ev_payload msg)) = Some h" "get_bool (nd_options nd) CRYPTO_ENABLED_INCOMING = Inr incoming"
      "incoming \<and> ev_sender msg \<noteq> [] \<longrightarrow> crypto_verify (rl_ec R) msg = Inr True"
    using that assms(1) m(2,3) by (auto simp: wired_def priv_protobuf_handler_def)
qed

section \<open>Votes on the wire\<close>

text \<open>
  \<open>wrap_message\<close> serialises what a replica broadcasts: a PBFT message goes into an envelope with the
  sender and without signature, an audit message into a JSON document. \<open>broadcast\<close> hands the bytes to
  \<open>send_message_str\<close>, which sends them as they are. Protobuf and jsoncpp are the fields of \<open>wire_lib\<close>.
\<close>

record wire_lib =
  wl_pbft :: "pbft_msg \<Rightarrow> string"
  wl_envelope :: "envelope \<Rightarrow> string"
  wl_audit :: "audit_message \<Rightarrow> string"

definition vote_envelope :: "wire_lib \<Rightarrow> uuid_t \<Rightarrow> pbft_msg \<Rightarrow> envelope" where
  "vote_envelope WL u m = \<lparr>ev_sender = u, ev_signature = '''', ev_payload = P_pbft (wl_pbft WL m)\<rparr>"

definition wire_bytes :: "wire_lib \<Rightarrow> wire \<Rightarrow> string" where
  "wire_bytes WL w = (case w of Wire_pbft u m \<Rightarrow> wl_envelope WL (vote_envelope WL u m) | Wire_audit a \<Rightarrow> wl_audit WL a)"

primrec transmit :: "(nat \<Rightarrow> string \<Rightarrow> bool) \<Rightarrow> wire_lib \<Rightarrow> wire \<Rightarrow> peer_address_t list \<Rightarrow> 'h node \<Rightarrow> 'h node res" where
  "transmit below WL w [] nd = Inr nd"
| "transmit below WL w (peer # peers) nd =
     bindE (send_message_str below (make_endpoint peer) (wire_bytes WL w) nd) (transmit below WL w peers)"

lemma transmit_connects:
  "chaos_enabled (nd_options nd) = Inr False
   \<Longrightarrow> transmit below WL w peers nd = Inr (n_emit (map (\<lambda>p. N_connect (make_endpoint p) (wire_bytes WL w)) peers) nd)"
  by (induction peers arbitrary: nd) (simp_all add: send_message_str_def no_chaos n_emit_def)


definition sample_wire :: wire_lib where
  "sample_wire = \<lparr>wl_pbft = (\<lambda>_. ''v''), wl_envelope = sample_serialize, wl_audit = (\<lambda>_. '''')\<rparr>"

definition sample_wired :: "handler node" where
  "sample_wired = snd (snd (projr (start_pbft_components \<lparr>sm_providers = [], sm_pbft_enabled = True, sm_started = False\<rparr>
     (projr (sample_run 0), new_router crypto_options \<lparr>cr_uuid = Inr ''b'', cr_key = None\<rparr> idle_chaos))))"


end
