(* ===== verification/Rocksdb_Storage.thy ===== *)
theory Rocksdb_Storage
  imports Crud "HOL-Library.Sublist"
begin

text \<open>
  \<open>storage/rocksdb_storage.cpp\<close>: the persistent storage of the Raft stack. RocksDB itself is the
  parameter \<open>rocksdb\<close>, a table of the calls the code makes; the locale \<open>rocksdb_api\<close> states what its
  documentation promises of them: an ordered map from byte strings to byte strings, whose writes
  report whether they were made and whose iterators visit the keys in bytewise order.

  The code puts every database into one RocksDB key space, under the key \<open>uuid + key\<close>. So it keeps
  databases apart only if no name of one is a prefix of another's; \<open>named\<close> is a set of names for which
  this holds, for instance the names of a fixed length. For such names \<open>rocksdb_storage\<close> implements the
  contract of the storage interface.
\<close>

section \<open>RocksDB\<close>

record 'd rocksdb =
  rdb_Open :: "string \<Rightarrow> uuid_t \<Rightarrow> string + 'd" \<comment> \<open>state directory and file name; a failed status as text\<close>
  rdb_Put :: "'d \<Rightarrow> string \<Rightarrow> value_t \<Rightarrow> bool \<times> 'd"
  rdb_Get :: "'d \<Rightarrow> string \<Rightarrow> value_t option"
  rdb_Delete :: "'d \<Rightarrow> string \<Rightarrow> bool \<times> 'd"
  rdb_Seek :: "'d \<Rightarrow> string \<Rightarrow> (string \<times> value_t) list" \<comment> \<open>what an iterator visits from \<open>Seek\<close> on\<close>

section \<open>Operations\<close>

definition generate_key :: "uuid_t \<Rightarrow> key_t \<Rightarrow> string" where
  "generate_key u k = u @ k"

definition new_rocksdb_storage :: "'d rocksdb \<Rightarrow> string \<Rightarrow> uuid_t \<Rightarrow> 'd res" where
  "new_rocksdb_storage R state_dir u =
     (case rdb_Open R state_dir u of
        Inl e \<Rightarrow> Inl (Runtime_error (''Could not open database: '' @ e))
      | Inr d \<Rightarrow> Inr d)"

text \<open>The loop \<open>for (iter->Seek(uuid); iter->Valid() && iter->key().starts_with(uuid); iter->Next())\<close>.\<close>

definition entries_of :: "'d rocksdb \<Rightarrow> 'd \<Rightarrow> uuid_t \<Rightarrow> (string \<times> value_t) list" where
  "entries_of R d u = takeWhile (\<lambda>e. prefix u (fst e)) (rdb_Seek R d u)"

definition rocks_has :: "'d rocksdb \<Rightarrow> 'd \<Rightarrow> uuid_t \<Rightarrow> key_t \<Rightarrow> bool" where
  "rocks_has R d u k = list_ex (\<lambda>e. fst e = generate_key u k) (entries_of R d u)"

definition rocks_create :: "'d rocksdb \<Rightarrow> 'd \<Rightarrow> uuid_t \<Rightarrow> key_t \<Rightarrow> value_t \<Rightarrow> storage_result \<times> 'd" where
  "rocks_create R d u k v =
     (if MAX_VALUE_SIZE < length v then (value_too_large, d)
      else if MAX_KEY_SIZE < length k then (key_too_large, d)
      else if \<not> rocks_has R d u k
      then (let (s, d) = rdb_Put R d (generate_key u k) v in (if \<not> s then not_saved else result_ok, d))
      else (exists, d))"

definition rocks_read :: "'d rocksdb \<Rightarrow> 'd \<Rightarrow> uuid_t \<Rightarrow> key_t \<Rightarrow> value_t option" where
  "rocks_read R d u k = rdb_Get R d (generate_key u k)"

definition rocks_update :: "'d rocksdb \<Rightarrow> 'd \<Rightarrow> uuid_t \<Rightarrow> key_t \<Rightarrow> value_t \<Rightarrow> storage_result \<times> 'd" where
  "rocks_update R d u k v =
     (if MAX_VALUE_SIZE < length v then (value_too_large, d)
      else if rocks_has R d u k
      then (let (s, d) = rdb_Put R d (generate_key u k) v in (if \<not> s then not_saved else result_ok, d))
      else (not_found, d))"

definition rocks_remove :: "'d rocksdb \<Rightarrow> 'd \<Rightarrow> uuid_t \<Rightarrow> key_t \<Rightarrow> storage_result \<times> 'd" where
  "rocks_remove R d u k =
     (if rocks_has R d u k
      then (let (s, d) = rdb_Delete R d (generate_key u k) in (if \<not> s then not_found else result_ok, d))
      else (not_found, d))"

definition rocks_get_keys :: "'d rocksdb \<Rightarrow> 'd \<Rightarrow> uuid_t \<Rightarrow> key_t list" where
  "rocks_get_keys R d u = map (\<lambda>e. drop (length u) (fst e)) (entries_of R d u)"

definition rocks_get_size :: "'d rocksdb \<Rightarrow> 'd \<Rightarrow> uuid_t \<Rightarrow> nat \<times> nat" where
  "rocks_get_size R d u =
     fold (\<lambda>record (keys, size). (keys + 1, size + length (snd record))) (entries_of R d u) (0, 0)"

definition rocks_vt :: "'d rocksdb \<Rightarrow> 'd storage_vt" where
  "rocks_vt R = \<lparr>vt_create = rocks_create R, vt_read = rocks_read R, vt_update = rocks_update R,
     vt_remove = rocks_remove R, vt_get_keys = rocks_get_keys R, vt_has = rocks_has R,
     vt_get_size = rocks_get_size R\<rparr>"

section \<open>What RocksDB promises\<close>

locale rocksdb_api =
  fixes R :: "'d rocksdb"
    and ok :: "'d \<Rightarrow> bool"
    and contents :: "'d \<Rightarrow> string \<rightharpoonup> value_t"
  assumes put_contents: "ok d \<Longrightarrow> contents (snd (rdb_Put R d x v))
      = (if fst (rdb_Put R d x v) then (contents d)(x \<mapsto> v) else contents d)"
    and put_ok: "ok d \<Longrightarrow> ok (snd (rdb_Put R d x v))"
    and delete_contents: "ok d \<Longrightarrow> contents (snd (rdb_Delete R d x))
      = (if fst (rdb_Delete R d x) then (contents d)(x := None) else contents d)"
    and delete_ok: "ok d \<Longrightarrow> ok (snd (rdb_Delete R d x))"
    and get_contents: "ok d \<Longrightarrow> rdb_Get R d x = contents d x"
    and seek_sorted: "ok d \<Longrightarrow> sorted_wrt (<) (map fst (rdb_Seek R d x))"
    and seek_contents: "ok d \<Longrightarrow> set (rdb_Seek R d x) = {(y, v). contents d y = Some v \<and> x \<le> y}"

text \<open>Strings that start with \<open>u\<close> follow one another in the bytewise order, from \<open>u\<close> on.\<close>

lemma prefix_between: "prefix u z \<Longrightarrow> u \<le> y \<Longrightarrow> y \<le> z \<Longrightarrow> prefix u (y :: string)"
proof (induction u arbitrary: y z)
  case (Cons c u)
  from Cons.prems(1) obtain z' where z: "z = c # z'" "prefix u z'" by (auto simp: prefix_def)
  with Cons.prems(2,3) obtain y' where y: "y = c # y'" "u \<le> y'" "y' \<le> z'"
    by (cases y) (auto simp: Cons_le_Cons)
  with Cons.IH [OF z(2) y(2,3)] show ?case by simp
qed simp

lemma prefix_le: "prefix u y \<Longrightarrow> u \<le> (y :: string)"
proof (induction u arbitrary: y)
  case (Cons c u)
  then show ?case by (cases y) (auto simp: Cons_le_Cons)
qed simp

lemma takeWhile_prefix:
  "sorted_wrt (<) (map fst es) \<Longrightarrow> \<forall>e \<in> set es. u \<le> fst e
    \<Longrightarrow> takeWhile (\<lambda>e. prefix u (fst e)) es = filter (\<lambda>e. prefix u (fst e :: string)) es"
proof (induction es)
  case (Cons e es)
  have "\<not> prefix u (fst e') " if "e' \<in> set es" "\<not> prefix u (fst e)" for e'
    using that Cons.prems prefix_between [of u "fst e'" "fst e"] by force
  with Cons show ?case by (auto simp: filter_empty_conv)
qed simp

definition rocks_abs :: "('d \<Rightarrow> string \<rightharpoonup> value_t) \<Rightarrow> (uuid_t \<Rightarrow> bool) \<Rightarrow> 'd \<Rightarrow> kv" where
  "rocks_abs contents named d u k = (if named u then contents d (generate_key u k) else None)"

text \<open>Database names of which none is a prefix of another.\<close>

definition prefix_free :: "(uuid_t \<Rightarrow> bool) \<Rightarrow> bool" where
  "prefix_free named \<longleftrightarrow> (\<forall>u u'. named u \<and> named u' \<and> prefix u u' \<longrightarrow> u = u')"

lemma generate_key_inj:
  assumes "prefix_free named" "named u" "named u'" "generate_key u k = generate_key u' k'"
  shows "u = u' \<and> k = k'"
proof -
  have "prefix u (u' @ k')" "prefix u' (u' @ k')" using assms(4) unfolding generate_key_def by (metis prefixI)+
  then have "prefix u u' \<or> prefix u' u" by (metis prefix_same_cases)
  then have "u = u'" using assms(1-3) by (auto simp: prefix_free_def)
  with assms(4) show ?thesis by (simp add: generate_key_def)
qed

context rocksdb_api
begin

lemma entries_of_filter:
  assumes "ok d"
  shows "entries_of R d u = filter (\<lambda>e. prefix u (fst e)) (rdb_Seek R d u)"
  unfolding entries_of_def
  by (rule takeWhile_prefix) (use assms seek_sorted [OF assms] in \<open>auto simp: seek_contents\<close>)

lemma entries_of_set: "ok d \<Longrightarrow> set (entries_of R d u) = {(generate_key u k, v) | k v. contents d (generate_key u k) = Some v}"
  by (auto simp: entries_of_filter seek_contents generate_key_def prefix_def prefix_le [of u])

lemma entries_of_distinct: "ok d \<Longrightarrow> distinct (map fst (entries_of R d u))"
  using seek_sorted [of d u] by (simp add: entries_of_filter distinct_map_filter strict_sorted_iff)

lemma has_contents: "ok d \<Longrightarrow> rocks_has R d u k \<longleftrightarrow> contents d (generate_key u k) \<noteq> None"
  by (auto simp: rocks_has_def list_ex_iff entries_of_set generate_key_def)

lemma keys_contents:
  assumes "ok d"
  shows "distinct (rocks_get_keys R d u) \<and> set (rocks_get_keys R d u) = {k. contents d (generate_key u k) \<noteq> None}"
proof -
  have "\<forall>x \<in> fst ` set (entries_of R d u). x = generate_key u (drop (length u) x)"
    by (auto simp: entries_of_set [OF assms] generate_key_def)
  then have "inj_on (drop (length u)) (fst ` set (entries_of R d u))"
    by (metis inj_onI)
  then have "distinct (map (drop (length u)) (map fst (entries_of R d u)))"
    using entries_of_distinct [OF assms] by (simp add: distinct_map comp_inj_on)
  moreover have "set (rocks_get_keys R d u) = {k. contents d (generate_key u k) \<noteq> None}"
    by (force simp: rocks_get_keys_def entries_of_set [OF assms] generate_key_def)
  ultimately show ?thesis by (simp add: rocks_get_keys_def comp_def)
qed

lemma size_contents:
  assumes "ok d"
  shows "rocks_get_size R d u = (length (rocks_get_keys R d u),
     \<Sum>k\<leftarrow>rocks_get_keys R d u. length (the (contents d (generate_key u k))))"
proof -
  have "(\<Sum>e\<leftarrow>entries_of R d u. length (snd e))
      = (\<Sum>e\<leftarrow>entries_of R d u. length (the (contents d (generate_key u (drop (length u) (fst e))))))"
    using entries_of_set [OF assms] by (intro arg_cong [of _ _ sum_list] map_cong) (auto simp: generate_key_def)
  then show ?thesis by (simp add: rocks_get_size_def mem_get_size_fold rocks_get_keys_def comp_def)
qed

lemmas write_contents = put_contents delete_contents has_contents

lemma write_ok:
  "ok d \<Longrightarrow> ok (snd (rocks_create R d u k v))"
  "ok d \<Longrightarrow> ok (snd (rocks_update R d u k v))"
  "ok d \<Longrightarrow> ok (snd (rocks_remove R d u k))"
  by (simp_all add: rocks_create_def rocks_update_def rocks_remove_def case_prod_beta Let_def put_ok delete_ok)

lemma databases_alias:
  assumes "ok d"
  shows "rocks_read R d (u @ x) k = rocks_read R d u (x @ k)
       \<and> (rocks_has R d (u @ x) k \<longleftrightarrow> rocks_has R d u (x @ k))
       \<and> (rocks_has R d (u @ x) k \<and> length v \<le> MAX_VALUE_SIZE \<and> length x + length k \<le> MAX_KEY_SIZE
            \<longrightarrow> rocks_create R d u (x @ k) v = (exists, d))
       \<and> (fst (rocks_remove R d u (x @ k)) = result_ok
            \<longrightarrow> rocks_read R (snd (rocks_remove R d u (x @ k))) (u @ x) k = None)"
proof -
  have g: "generate_key (u @ x) k = generate_key u (x @ k)" by (simp add: generate_key_def)
  then show ?thesis
    using assms by (auto simp: rocks_read_def rocks_create_def rocks_remove_def get_contents has_contents
        delete_contents delete_ok case_prod_beta Let_def)
qed

end

locale rocksdb_names = rocksdb_api R ok contents for R :: "'d rocksdb" and ok contents +
  fixes named :: "uuid_t \<Rightarrow> bool"
  assumes names_apart: "prefix_free named"
begin

lemma abs_put:
  "ok d \<Longrightarrow> named u \<Longrightarrow> rocks_abs contents named (snd (rdb_Put R d (generate_key u k) v))
     = (if fst (rdb_Put R d (generate_key u k) v) then kv_put u k (Some v) (rocks_abs contents named d)
        else rocks_abs contents named d)"
  by (auto simp: fun_eq_iff rocks_abs_def put_contents dest: generate_key_inj [OF names_apart])

lemma abs_delete:
  "ok d \<Longrightarrow> named u \<Longrightarrow> rocks_abs contents named (snd (rdb_Delete R d (generate_key u k)))
     = (if fst (rdb_Delete R d (generate_key u k)) then kv_put u k None (rocks_abs contents named d)
        else rocks_abs contents named d)"
  by (auto simp: fun_eq_iff rocks_abs_def delete_contents dest: generate_key_inj [OF names_apart])

end

sublocale rocksdb_names \<subseteq> rocks: storage_spec "rocks_vt R" ok "rocks_abs contents named" named
proof unfold_locales
  fix d u k v assume d: "ok d" "named u"
  let ?abs = "rocks_abs contents named"
  have h: "rocks_has R d u k \<longleftrightarrow> ?abs d u k \<noteq> None"
    using d by (simp add: has_contents rocks_abs_def)
  show "create_spec (?abs d) u k v (fst (vt_create (rocks_vt R) d u k v)) (?abs (snd (vt_create (rocks_vt R) d u k v)))"
    using h abs_put [OF d] by (simp add: rocks_vt_def rocks_create_def create_spec_def case_prod_beta Let_def)
  show "update_spec (?abs d) u k v (fst (vt_update (rocks_vt R) d u k v)) (?abs (snd (vt_update (rocks_vt R) d u k v)))"
    using h abs_put [OF d] by (simp add: rocks_vt_def rocks_update_def update_spec_def case_prod_beta Let_def)
  show "remove_spec (?abs d) u k (fst (vt_remove (rocks_vt R) d u k)) (?abs (snd (vt_remove (rocks_vt R) d u k)))"
    using h abs_delete [OF d] by (simp add: rocks_vt_def rocks_remove_def remove_spec_def case_prod_beta Let_def)
  show "vt_has (rocks_vt R) d u k \<longleftrightarrow> ?abs d u k \<noteq> None" using h by (simp add: rocks_vt_def)
  show "vt_read (rocks_vt R) d u k = ?abs d u k"
    using d by (simp add: rocks_vt_def rocks_read_def get_contents rocks_abs_def)
  have dom: "dom (?abs d u) = {k. contents d (generate_key u k) \<noteq> None}"
    using d by (auto simp: rocks_abs_def dom_def)
  with keys_contents [OF d(1), of u]
  show keys: "distinct (vt_get_keys (rocks_vt R) d u) \<and> set (vt_get_keys (rocks_vt R) d u) = dom (?abs d u)"
    by (simp add: rocks_vt_def)
  have "card (dom (?abs d u)) = length (rocks_get_keys R d u)"
    using keys by (simp add: rocks_vt_def) (metis distinct_card)
  moreover have "(\<Sum>k\<leftarrow>rocks_get_keys R d u. length (the (contents d (generate_key u k))))
      = (\<Sum>k\<in>dom (?abs d u). length (the (?abs d u k)))"
    using keys d(2) by (simp add: rocks_vt_def rocks_abs_def sum_list_distinct_conv_sum_set)
  ultimately show "vt_get_size (rocks_vt R) d u = (card (dom (?abs d u)), \<Sum>k\<in>dom (?abs d u). length (the (?abs d u k)))"
    using size_contents [OF d(1), of u] by (simp add: rocks_vt_def)
qed (simp_all add: rocks_vt_def write_ok)

context rocksdb_names
begin

lemma storage_contract:
  assumes "ok d" "named u"
  shows "create_spec (rocks_abs contents named d) u k v (fst (rocks_create R d u k v))
           (rocks_abs contents named (snd (rocks_create R d u k v)))
       \<and> update_spec (rocks_abs contents named d) u k v (fst (rocks_update R d u k v))
           (rocks_abs contents named (snd (rocks_update R d u k v)))
       \<and> remove_spec (rocks_abs contents named d) u k (fst (rocks_remove R d u k))
           (rocks_abs contents named (snd (rocks_remove R d u k)))
       \<and> rocks_read R d u k = rocks_abs contents named d u k
       \<and> (rocks_has R d u k \<longleftrightarrow> rocks_abs contents named d u k \<noteq> None)
       \<and> distinct (rocks_get_keys R d u) \<and> set (rocks_get_keys R d u) = dom (rocks_abs contents named d u)
       \<and> rocks_get_size R d u = (card (dom (rocks_abs contents named d u)),
           \<Sum>k\<in>dom (rocks_abs contents named d u). length (the (rocks_abs contents named d u k)))"
  using rocks.create_refines [OF assms] rocks.update_refines [OF assms] rocks.remove_refines [OF assms]
    rocks.read_refines [OF assms] rocks.has_refines [OF assms] rocks.keys_refines [OF assms]
    rocks.size_refines [OF assms]
  by (simp add: rocks_vt_def)

end

section \<open>A reference instance\<close>

text \<open>The documented interface on an association list that iterators sort.\<close>

definition list_db :: "(string, value_t) umap rocksdb" where
  "list_db = \<lparr>rdb_Open = (\<lambda>_ _. Inr []), rdb_Put = (\<lambda>d x v. (True, AList.update x v d)), rdb_Get = map_of,
     rdb_Delete = (\<lambda>d x. (True, AList.delete x d)), rdb_Seek = (\<lambda>d x. sort_key fst (filter (\<lambda>e. x \<le> fst e) d))\<rparr>"

lemma umap_ok_set: "umap_ok d \<Longrightarrow> e \<in> set d \<longleftrightarrow> map_of d (fst e) = Some (snd e)"
  by (cases e) (auto simp: umap_ok_def)

interpretation list_db: rocksdb_api list_db umap_ok map_of
proof unfold_locales
  fix d :: "(string, value_t) umap" and x assume d: "umap_ok d"
  show "sorted_wrt (<) (map fst (rdb_Seek list_db d x))"
    using d by (auto simp: list_db_def strict_sorted_iff umap_ok_def distinct_map intro: inj_on_subset)
  show "set (rdb_Seek list_db d x) = {(y, v). map_of d y = Some v \<and> x \<le> y}"
    by (auto simp: list_db_def umap_ok_set [OF d])
qed (auto simp: list_db_def)

lemma fixed_length_prefix_free: "prefix_free (\<lambda>u. length u = n)"
  by (auto simp: prefix_free_def prefix_def)

interpretation list_names: rocksdb_names list_db umap_ok map_of "\<lambda>u. length u = n" for n
  by unfold_locales (rule fixed_length_prefix_free)

section \<open>Properties\<close>



text \<open>
  Databases whose names are prefixes of each other share records: the record \<open>k\<close> of database \<open>u @ x\<close> is
  also the record \<open>x @ k\<close> of database \<open>u\<close>. A client of one reads what was stored in the other,
  is refused the creation of a key it never created, and removes the other's record.
\<close>

theorem rocksdb_databases_alias:
  assumes "rocksdb_api R ok contents" and "ok d"
  shows "rocks_read R d (u @ x) k = rocks_read R d u (x @ k)
       \<and> (rocks_has R d (u @ x) k \<longleftrightarrow> rocks_has R d u (x @ k))
       \<and> (rocks_has R d (u @ x) k \<and> length v \<le> MAX_VALUE_SIZE \<and> length x + length k \<le> MAX_KEY_SIZE
            \<longrightarrow> rocks_create R d u (x @ k) v = (exists, d))
       \<and> (fst (rocks_remove R d u (x @ k)) = result_ok
            \<longrightarrow> rocks_read R (snd (rocks_remove R d u (x @ k))) (u @ x) k = None)"
  using rocksdb_api.databases_alias [OF assms] .

theorem rocksdb_databases_alias_witness:
  "rocks_create list_db (snd (rocks_create list_db [] ''ab'' ''c'' ''v'')) ''a'' ''bc'' ''w''
     = (exists, snd (rocks_create list_db [] ''ab'' ''c'' ''v''))"
proof -
  let ?d = "snd (rocks_create list_db [] ''ab'' ''c'' ''v'')"
  have d: "?d = [(''abc'', ''v'')]"
    by (simp add: rocks_create_def rocks_has_def entries_of_def list_db_def generate_key_def
        MAX_VALUE_SIZE_def MAX_KEY_SIZE_def)
  have "rocks_has list_db ?d (''a'' @ ''b'') ''c''" unfolding d by code_simp
  moreover have "umap_ok ?d" unfolding d by (simp add: umap_ok_def)
  ultimately show ?thesis
    using rocksdb_databases_alias [OF list_db.rocksdb_api_axioms, of ?d "''a''" "''b''" "''c''" "''w''"]
    by (simp add: MAX_VALUE_SIZE_def MAX_KEY_SIZE_def)
qed

end
