(* ===== verification/Raft_Restart.thy ===== *)
theory Raft_Restart
  imports Raft_Crud Rocksdb_Storage
begin

text \<open>
  What the Raft stack does with its storage at start-up: \<open>main.cpp\<close> opens a storage, which after a
  restart is the RocksDB database the node had before, and calls \<open>raft::initialize_storage_from_log\<close>,
  which replays the whole log on it. Later the same entries are committed again, because the commit
  index restarts at 1.

  The replay is followed on the abstract store by \<open>kv_apply\<close>, for any storage whose writes do not
  fail (locale \<open>reliable_storage\<close>). One record of the store is a cell, and the writes of a log act on
  each cell on their own.
\<close>

section \<open>Storages whose writes do not fail\<close>

definition kv_apply :: "database_msg \<Rightarrow> kv \<Rightarrow> kv" where
  "kv_apply msg m =
     (let u = db_uuid (db_header msg) in
      case db_body msg of
        Db_create k v \<Rightarrow>
          if MAX_VALUE_SIZE < length v \<or> MAX_KEY_SIZE < length k \<or> m u k \<noteq> None then m else kv_put u k (Some v) m
      | Db_update k v \<Rightarrow> if MAX_VALUE_SIZE < length v \<or> m u k = None then m else kv_put u k (Some v) m
      | Db_delete k \<Rightarrow> kv_put u k None m
      | _ \<Rightarrow> m)"

locale reliable_storage = storage_spec vt inv abs named for vt :: "'s storage_vt" and inv abs named +
  assumes create_saved: "inv s \<Longrightarrow> named u \<Longrightarrow> fst (vt_create vt s u k v) \<noteq> not_saved"
    and update_saved: "inv s \<Longrightarrow> named u \<Longrightarrow> fst (vt_update vt s u k v) \<noteq> not_saved"
    and remove_done: "inv s \<Longrightarrow> named u \<Longrightarrow> abs s u k \<noteq> None \<Longrightarrow> fst (vt_remove vt s u k) = result_ok"
begin

lemma apply_abs:
  assumes s: "inv s" and named: "named (db_uuid (db_header msg))"
  shows "inv (apply_to_storage vt msg s) \<and> abs (apply_to_storage vt msg s) = kv_apply msg (abs s)"
proof (cases "db_body msg")
  case (Db_create k v)
  then show ?thesis
    using create_refines [OF s named, of k v] create_saved [OF s named, of k v] create_inv [OF s]
    by (auto simp: apply_to_storage_def kv_apply_def create_spec_def split: if_splits)
next
  case (Db_update k v)
  then show ?thesis
    using update_refines [OF s named, of k v] update_saved [OF s named, of k v] update_inv [OF s]
    by (auto simp: apply_to_storage_def kv_apply_def update_spec_def split: if_splits)
next
  case (Db_delete k)
  let ?u = "db_uuid (db_header msg)"
  have "kv_put ?u k None (abs s) = abs s" if "abs s ?u k = None"
    using that by (auto simp: fun_eq_iff)
  then show ?thesis
    using Db_delete remove_refines [OF s named, of k] remove_done [OF s named, of k] remove_inv [OF s]
    by (auto simp: apply_to_storage_def kv_apply_def remove_spec_def split: if_splits)
qed (simp_all add: apply_to_storage_def kv_apply_def s)

lemma fold_apply_abs:
  "inv s \<Longrightarrow> \<forall>msg \<in> set msgs. named (db_uuid (db_header msg))
    \<Longrightarrow> inv (fold (apply_to_storage vt) msgs s) \<and> abs (fold (apply_to_storage vt) msgs s) = fold kv_apply msgs (abs s)"
  by (induction msgs arbitrary: s) (simp_all add: apply_abs)

end

interpretation mem: reliable_storage mem_vt mem_inv mem_abs "\<lambda>_. True"
proof unfold_locales
  fix s u k
  show "fst (vt_remove mem_vt s u k) = result_ok" if "mem_abs s u k \<noteq> None"
    using that by (auto simp: mem_vt_def mem_remove_def mem_abs_def split: option.splits)
qed (auto simp: mem_vt_def mem_create_def mem_update_def Let_def split: option.splits)

text \<open>RocksDB with writes that succeed.\<close>

locale rocksdb_writable = rocksdb_names R ok contents named for R :: "'d rocksdb" and ok contents named +
  assumes puts: "ok d \<Longrightarrow> fst (rdb_Put R d x v)" and deletes: "ok d \<Longrightarrow> fst (rdb_Delete R d x)"

sublocale rocksdb_writable \<subseteq> reliable: reliable_storage "rocks_vt R" ok "rocks_abs contents named" named
  by unfold_locales
    (auto simp: rocks_vt_def rocks_create_def rocks_update_def rocks_remove_def case_prod_beta Let_def puts deletes
      has_contents rocks_abs_def)

interpretation list_writable: rocksdb_writable list_db umap_ok map_of "\<lambda>u. length u = n" for n
  by unfold_locales (simp_all add: list_db_def)

section \<open>One record\<close>

text \<open>What a message does to the record \<open>k\<close> of the database \<open>u\<close>.\<close>

definition cell_apply :: "uuid_t \<Rightarrow> key_t \<Rightarrow> database_msg \<Rightarrow> value_t option \<Rightarrow> value_t option" where
  "cell_apply u k msg c =
     (if db_uuid (db_header msg) \<noteq> u then c
      else case db_body msg of
        Db_create k' v \<Rightarrow> if k' = k \<and> length v \<le> MAX_VALUE_SIZE \<and> length k \<le> MAX_KEY_SIZE \<and> c = None then Some v else c
      | Db_update k' v \<Rightarrow> if k' = k \<and> length v \<le> MAX_VALUE_SIZE \<and> c \<noteq> None then Some v else c
      | Db_delete k' \<Rightarrow> if k' = k then None else c
      | _ \<Rightarrow> c)"

lemma kv_apply_cell: "kv_apply msg m u k = cell_apply u k msg (m u k)"
  by (cases "db_body msg") (auto simp: kv_apply_def cell_apply_def Let_def)

lemma fold_kv_apply: "fold kv_apply msgs m u k = fold (cell_apply u k) msgs (m u k)"
  by (induction msgs arbitrary: m) (simp_all add: kv_apply_cell)

text \<open>
  A message that leaves the record in a state that does not depend on whether it was there: a
  removal, or a creation after which it is there.
\<close>

definition settles :: "uuid_t \<Rightarrow> key_t \<Rightarrow> database_msg \<Rightarrow> bool" where
  "settles u k msg \<longleftrightarrow> db_uuid (db_header msg) = u \<and>
     (case db_body msg of
        Db_create k' v \<Rightarrow> k' = k \<and> length v \<le> MAX_VALUE_SIZE \<and> length k \<le> MAX_KEY_SIZE
      | Db_delete k' \<Rightarrow> k' = k
      | _ \<Rightarrow> False)"

text \<open>Every update in the log comes after a creation or removal of the record.\<close>

fun updates_settled :: "database_msg list \<Rightarrow> database_msg list \<Rightarrow> bool" where
  "updates_settled before [] = True"
| "updates_settled before (msg # msgs) =
     ((case db_body msg of Db_update k v \<Rightarrow> list_ex (settles (db_uuid (db_header msg)) k) before | _ \<Rightarrow> True)
      \<and> updates_settled (msg # before) msgs)"

text \<open>
  The action of a log on a record: it gives one result whatever the record was, or it fills it if it
  was not there.
\<close>

definition cell_action :: "uuid_t \<Rightarrow> key_t \<Rightarrow> database_msg list \<Rightarrow> (value_t option \<Rightarrow> value_t option) \<Rightarrow> bool" where
  "cell_action u k before f \<longleftrightarrow>
     (\<exists>w. \<forall>c. f c = w)
     \<or> (\<exists>g. (\<forall>c. f c = (case c of None \<Rightarrow> g | Some x \<Rightarrow> Some x)) \<and> (g = None \<longrightarrow> \<not> list_ex (settles u k) before))"

lemma cell_action_idem: "cell_action u k before f \<Longrightarrow> f (f c) = f c"
  unfolding cell_action_def by (elim disjE exE conjE) (simp, cases c, auto split: option.split)

lemma cell_action_step:
  assumes f: "cell_action u k before f"
    and upd: "case db_body msg of Db_update k v \<Rightarrow> list_ex (settles (db_uuid (db_header msg)) k) before | _ \<Rightarrow> True"
  shows "cell_action u k (msg # before) (\<lambda>c. cell_apply u k msg (f c))"
  using f unfolding cell_action_def
proof (elim disjE exE conjE)
  fix g assume g: "\<forall>c. f c = (case c of None \<Rightarrow> g | Some x \<Rightarrow> Some x)" "g = None \<longrightarrow> \<not> list_ex (settles u k) before"
  show "(\<exists>w. \<forall>c. cell_apply u k msg (f c) = w)
     \<or> (\<exists>g. (\<forall>c. cell_apply u k msg (f c) = (case c of None \<Rightarrow> g | Some x \<Rightarrow> Some x))
         \<and> (g = None \<longrightarrow> \<not> list_ex (settles u k) (msg # before)))"
    using g upd
    by (cases "db_body msg"; cases g) (auto simp: cell_apply_def settles_def split: option.split)
qed auto

lemma cell_actions:
  "cell_action u k before f \<Longrightarrow> updates_settled before msgs
    \<Longrightarrow> \<exists>before'. cell_action u k before' (\<lambda>c. fold (cell_apply u k) msgs (f c))"
proof (induction msgs arbitrary: before f)
  case (Cons msg msgs)
  from Cons.IH [OF cell_action_step [OF Cons.prems(1)]] Cons.prems(2) show ?case by simp
qed auto

lemma kv_apply_idem:
  assumes "updates_settled [] msgs"
  shows "fold kv_apply msgs (fold kv_apply msgs m) = fold kv_apply msgs m"
proof (intro ext)
  fix u k
  have "cell_action u k [] (\<lambda>c. c)" by (auto simp: cell_action_def split: option.split)
  from cell_actions [OF this assms] show "fold kv_apply msgs (fold kv_apply msgs m) u k = fold kv_apply msgs m u k"
    unfolding fold_kv_apply using cell_action_idem by blast
qed

section \<open>The replay\<close>

text \<open>The database requests in a log.\<close>

definition logged_request :: "raft_lib \<Rightarrow> log_entry \<Rightarrow> database_msg option" where
  "logged_request X e =
     (case le_msg e of
        Msg_database w \<Rightarrow> (case parse_bzn X w of Some (Bzn_db m) \<Rightarrow> Some m | _ \<Rightarrow> None)
      | _ \<Rightarrow> None)"

definition logged_requests :: "raft_lib \<Rightarrow> log_entry list \<Rightarrow> database_msg list" where
  "logged_requests X es = List.map_filter (logged_request X) es"

lemma commit_storage_request:
  "commit_storage V X (le_msg e) s = (case logged_request X e of None \<Rightarrow> s | Some m \<Rightarrow> apply_to_storage V m s)"
  by (simp add: commit_storage_def logged_request_def bzn_db_def apply_to_storage_def default_database_msg_def Let_def
      split: entry_msg.split option.split bzn_msg.split)

lemma replay_requests:
  assumes "\<forall>e \<in> set es. typed_entry e"
  shows "replay_entries X V es s = Inr (fold (apply_to_storage V) (logged_requests X es) s)"
proof -
  have "fold (commit_storage V X) (map le_msg es) s = fold (apply_to_storage V) (logged_requests X es) s"
    by (induction es arbitrary: s)
      (simp_all add: logged_requests_def commit_storage_request List.map_filter_simps split: option.split)
  then show ?thesis by (simp add: replay_entries_typed [OF assms])
qed

context rocksdb_writable
begin

lemma replay_twice:
  assumes "ok d" and "\<forall>e \<in> set es. typed_entry e"
    and "\<forall>m \<in> set (logged_requests X es). named (db_uuid (db_header m))" "updates_settled [] (logged_requests X es)"
    and "replay_entries X (rocks_vt R) es d = Inr d'"
  shows "\<exists>d''. replay_entries X (rocks_vt R) es d' = Inr d'' \<and> ok d''
     \<and> rocks_abs contents named d'' = rocks_abs contents named d'"
  using assms(5) reliable.fold_apply_abs [OF assms(1,3)]
    reliable.fold_apply_abs [OF reliable.fold_apply_abs [OF assms(1,3), THEN conjunct1] assms(3)]
  by (simp add: replay_requests [OF assms(2)] kv_apply_idem [OF assms(4)])

lemma same_replay:
  assumes "ok d" "mem_inv s" and typed: "\<forall>e \<in> set es. typed_entry e"
    and n: "\<forall>m \<in> set (logged_requests X es). named (db_uuid (db_header m))"
    and eq: "\<forall>u k. named u \<longrightarrow> mem_read s u k = rocks_read R d u k"
  shows "\<exists>s' d'. replay_entries X mem_vt es s = Inr s' \<and> replay_entries X (rocks_vt R) es d = Inr d'
     \<and> (\<forall>u k. named u \<longrightarrow> mem_read s' u k = rocks_read R d' u k)"
proof -
  let ?ms = "logged_requests X es"
  let ?s = "fold (apply_to_storage mem_vt) ?ms s" and ?d = "fold (apply_to_storage (rocks_vt R)) ?ms d"
  have m: "mem_inv ?s" "mem_abs ?s = fold kv_apply ?ms (mem_abs s)"
    using mem.fold_apply_abs [OF assms(2)] by simp_all
  have r: "ok ?d" "rocks_abs contents named ?d = fold kv_apply ?ms (rocks_abs contents named d)"
    using reliable.fold_apply_abs [OF assms(1) n] by simp_all
  have "mem_abs ?s u k = rocks_abs contents named ?d u k" if "named u" for u k
    using eq that mem.read_refines [OF assms(2), of u k] rocks.read_refines [OF assms(1) that, of k]
    unfolding m r fold_kv_apply by (simp add: mem_vt_def rocks_vt_def)
  then have "mem_read ?s u k = rocks_read R ?d u k" if "named u" for u k
    using that mem.read_refines [OF m(1), of u k] rocks.read_refines [OF r(1) that, of k]
    by (simp add: mem_vt_def rocks_vt_def)
  then show ?thesis by (simp add: replay_requests [OF typed])
qed

end

section \<open>Properties\<close>


text \<open>
  The two storages a node can be started with are interchangeable: replaying a log on the in-memory
  storage and on RocksDB, from the same contents, both succeed and lead to the same contents, as long
  as RocksDB accepts the writes and no database name is a prefix of another.
\<close>

theorem replay_storage_independent:
  assumes "rocksdb_writable R ok contents named" "ok d" "mem_inv s"
    and "\<forall>e \<in> set es. typed_entry e"
    and "\<forall>m \<in> set (logged_requests X es). named (db_uuid (db_header m))"
    and "\<forall>u k. named u \<longrightarrow> mem_read s u k = rocks_read R d u k"
  shows "\<exists>s' d'. replay_entries X mem_vt es s = Inr s' \<and> replay_entries X (rocks_vt R) es d = Inr d'
     \<and> (\<forall>u k. named u \<longrightarrow> mem_read s' u k = rocks_read R d' u k)"
  using rocksdb_writable.same_replay [OF assms] .

section \<open>Small instances\<close>

lemma sample_requests:
  assumes "map le_msg es = [le_msg sample_first_entry, Msg_database ''m'']"
  shows "logged_requests sample_db_rlib es = [sample_create]"
proof -
  from assms obtain e e' where "es = [e, e']" "le_msg e = le_msg sample_first_entry" "le_msg e' = Msg_database ''m''"
    by auto
  then show ?thesis
    by (simp add: logged_requests_def logged_request_def List.map_filter_simps sample_db_rlib_def sample_first_entry_def)
qed

lemma sample_create_settled: "updates_settled [] [sample_create] \<and> length (db_uuid (db_header sample_create)) = 1"
  by (simp add: sample_create_def)


theorem replay_storage_independent_witness:
  "\<exists>s' d'. replay_entries sample_db_rlib mem_vt [sample_first_entry, sample_entry 1 0] [] = Inr s'
     \<and> replay_entries sample_db_rlib (rocks_vt list_db) [sample_first_entry, sample_entry 1 0] [] = Inr d'
     \<and> mem_read s' ''u'' ''k'' = rocks_read list_db d' ''u'' ''k''"
proof -
  let ?es = "[sample_first_entry, sample_entry 1 0]"
  have "map le_msg ?es = [le_msg sample_first_entry, Msg_database ''m'']" by (simp add: sample_entry_def)
  from sample_requests [OF this]
  have "\<forall>m \<in> set (logged_requests sample_db_rlib ?es). length (db_uuid (db_header m)) = 1"
    using sample_create_settled by simp
  moreover have "\<forall>e \<in> set ?es. typed_entry e"
    by (simp add: typed_entry_def sample_first_entry_def sample_entry_def)
  moreover have "umap_ok ([] :: (string, value_t) umap)" by (simp add: umap_ok_def)
  moreover have "\<forall>u k. length u = 1 \<longrightarrow> mem_read [] u k = rocks_read list_db [] u k"
    by (simp add: mem_read_def rocks_read_def list_db_def)
  ultimately show ?thesis
    using replay_storage_independent [OF list_writable.rocksdb_writable_axioms [of 1], of "[]" "[]" ?es sample_db_rlib]
    by fastforce
qed

end
