(* ===== verification/Daemon.thy ===== *)
theory Daemon
  imports Complex_Main Bootstrap Wiring Raft_Restart
begin

text \<open>
  The start of a daemon, \<open>main\<close> of \<open>swarm/main.cpp\<close>, with the balance check of \<open>ethereum/ethereum.cpp\<close>:
  the options are read, the peers are fetched, and one of the two stacks is built on the node
  and started. The record \<open>world\<close> holds what comes from outside: the command line and the files, the network, the
  libraries. Log sinks, signal handlers and worker threads are not modelled; what they read from the
  options is, because reading may fail. Balances are rational numbers.
\<close>

section \<open>Model\<close>

record 'd world =
  wd_convert :: "opt_type \<Rightarrow> string \<Rightarrow> opt_value option"
  wd_command_line :: "command_line option"
  wd_config :: "string \<Rightarrow> (string \<times> string) list option option" \<comment> \<open>the members of a configuration file\<close>
  wd_http_get :: "string \<Rightarrow> string \<Rightarrow> string res"
  wd_result :: "string \<Rightarrow> string res option" \<comment> \<open>\<open>msg["result"].asString()\<close> of a response; \<open>None\<close> if it is no JSON\<close>
  wd_double :: "string \<Rightarrow> rat option" \<comment> \<open>\<open>boost::lexical_cast<double>\<close>\<close>
  wd_peers :: peer_source
  wd_openssl :: openssl
  wd_base64 :: "string \<Rightarrow> string"
  wd_ec :: ec_lib
  wd_address :: "string \<Rightarrow> string + string"
  wd_resolve :: "string \<Rightarrow> string \<Rightarrow> string + endpoint"
  wd_pbft :: pbft_lib
  wd_raft :: raft_lib
  wd_state_file :: "string \<Rightarrow> uuid_t \<Rightarrow> string option"
  wd_rocksdb :: "'d rocksdb"
  wd_status_text :: "pbft_status res \<Rightarrow> string" \<comment> \<open>the JSON text of a report\<close>

datatype 'd storage_object = Mem_object mem_storage | Rocks_object 'd

datatype 'd stack = Pbft_stack pbft | Raft_stack raft "'d storage_object" endpoint http_server

record 'd daemon =
  dm_options :: variables_map
  dm_peers :: "peer_address_t list"
  dm_uuid :: uuid_t
  dm_listener :: endpoint
  dm_node :: "handler node"
  dm_status :: status_module
  dm_audit :: audit
  dm_audit_enabled :: bool
  dm_stack :: "'d stack"

datatype 'd startup = Exit_code nat | Running "'d daemon"

definition GET_ETHER_BALANCE_API :: "string \<Rightarrow> string \<Rightarrow> string" where
  "GET_ETHER_BALANCE_API address api_key = ''http://api.etherscan.io/api?module=account&action=balance&address='' @ address
     @ ''&tag=latest&apikey='' @ api_key"

definition get_ether_balance :: "'d world \<Rightarrow> string \<Rightarrow> string \<Rightarrow> rat res" where
  "get_ether_balance W address api_key =
     bindE (sync_get (wd_http_get W) (GET_ETHER_BALANCE_API address api_key)) (\<lambda>response.
       case wd_result W response of
         None \<Rightarrow> Inr 0
       | Some r \<Rightarrow>
           bindE r (\<lambda>txt.
             case wd_double W txt of
               None \<Rightarrow> Inl (Runtime_error ''bad_lexical_cast'')
             | Some balance \<Rightarrow> Inr (balance / 10 ^ 18)))"

text \<open>What \<open>init_logging\<close> and \<open>print_banner\<close> read.\<close>

definition init_logging :: "variables_map \<Rightarrow> unit res" where
  "init_logging vm =
     bindE (get_logfile_dir vm) (\<lambda>_. bindE (get_logfile_rotation_size vm) (\<lambda>_. bindE (get_log_to_stdout vm) (\<lambda>_.
     bindE (get_logfile_max_size vm) (\<lambda>_. bindE (get_debug_logging vm) (\<lambda>_. Inr ())))))"

definition print_banner :: "'d world \<Rightarrow> variables_map \<Rightarrow> unit res" where
  "print_banner W vm =
     bindE (options_get_uuid (wd_openssl W) (wd_base64 W) vm) (\<lambda>_. bindE (get_ethererum_address vm) (\<lambda>_.
     bindE (get_listener (wd_address W) vm) (\<lambda>_. bindE (get_http_port vm) (\<lambda>_. bindE (get_max_storage vm) (\<lambda>_.
     bindE (get_state_dir vm) (\<lambda>_. bindE (get_log_to_stdout vm) (\<lambda>_. Inr ())))))))"

definition build_storage :: "'d world \<Rightarrow> uuid_t \<Rightarrow> variables_map \<Rightarrow> 'd storage_object res" where
  "build_storage W uuid vm =
     bindE (get_mem_storage vm) (\<lambda>mem.
       if mem then Inr (Mem_object [])
       else bindE (get_state_dir vm) (\<lambda>dir. bindE (new_rocksdb_storage (wd_rocksdb W) dir uuid) (\<lambda>d. Inr (Rocks_object d))))"

definition replay_log :: "'d world \<Rightarrow> raft \<Rightarrow> 'd storage_object \<Rightarrow> 'd storage_object res" where
  "replay_log W r storage =
     (case storage of
        Mem_object s \<Rightarrow> bindE (initialize_storage_from_log (wd_raft W) mem_vt r s) (\<lambda>s. Inr (Mem_object s))
      | Rocks_object d \<Rightarrow> bindE (initialize_storage_from_log (wd_raft W) (rocks_vt (wd_rocksdb W)) r d) (\<lambda>d. Inr (Rocks_object d)))"

definition build_stack :: "'d world \<Rightarrow> peer_address_t list \<Rightarrow> uuid_t \<Rightarrow> endpoint \<Rightarrow> bool \<Rightarrow> variables_map \<Rightarrow> 'd stack res" where
  "build_stack W peers uuid listener audit_on vm =
     bindE (pbft_enabled vm) (\<lambda>pbft.
       if pbft then bindE (new_pbft (wd_pbft W) peers uuid) (\<lambda>p. Inr (Pbft_stack (p\<lparr>audit_enabled := audit_on\<rparr>)))
       else bindE (get_http_port vm) (\<lambda>http_port. bindE (get_state_dir vm) (\<lambda>dir. bindE (get_max_storage vm) (\<lambda>max_storage.
            bindE (peer_validation_enabled vm) (\<lambda>validation. bindE (get_signed_key vm) (\<lambda>key.
            bindE (new_raft (wd_raft W) peers uuid (wd_state_file W dir uuid) (unat max_storage) validation key) (\<lambda>r.
            bindE (build_storage W uuid vm) (\<lambda>storage.
            let r = r\<lparr>enable_audit := audit_on\<rparr> in
            bindE (replay_log W r storage) (\<lambda>storage.
              Inr (Raft_stack r storage (fst listener, http_port) \<lparr>hv_started = False, hv_accepting = False, hv_connections = []\<rparr>))))))))))"

text \<open>
  The status component is given the consensus object as its only provider; a provider stands for what
  the object reports when it is asked.
\<close>

definition status_provider :: "'d world \<Rightarrow> 'd stack \<Rightarrow> string \<times> string" where
  "status_provider W stack =
     (case stack of
        Pbft_stack p \<Rightarrow> (pbft_get_name, wd_status_text W (get_status p))
      | Raft_stack r _ _ _ \<Rightarrow> (raft_get_name, raft_get_status r))"

definition start_stack :: "'d world \<Rightarrow> 'd stack \<Rightarrow> handler node \<Rightarrow> ('d stack \<times> status_module \<times> handler node) res" where
  "start_stack W stack nd =
     (let sm = \<lparr>sm_providers = [Some (status_provider W stack)],
                sm_pbft_enabled = (case stack of Pbft_stack _ \<Rightarrow> True | Raft_stack _ _ _ _ \<Rightarrow> False), sm_started = False\<rparr> in
      case stack of
        Pbft_stack p \<Rightarrow> bindE (start_pbft_components sm (p, nd)) (\<lambda>(p, sm, nd). Inr (Pbft_stack p, sm, nd))
      | Raft_stack r storage ep hs \<Rightarrow>
          bindE (start_raft_components sm hs (r, nd)) (\<lambda>(r, hs, sm, nd). Inr (Raft_stack r storage ep hs, sm, nd)))"

text \<open>The objects \<open>main\<close> builds once the peers are known.\<close>

definition start_services :: "'d world \<Rightarrow> variables_map \<Rightarrow> peer_address_t list \<Rightarrow> 'd daemon res" where
  "start_services W vm peers =
     (let get_uuid = options_get_uuid (wd_openssl W) (wd_base64 W) vm in
      bindE (new_crypto (wd_ec W) get_uuid vm) (\<lambda>crypto.
      bindE (get_ws_idle_timeout vm) (\<lambda>_.
      bindE (get_listener (wd_address W) vm) (\<lambda>listener.
      bindE (get_monitor_endpoint (wd_resolve W) vm) (\<lambda>monitor.
      bindE get_uuid (\<lambda>uuid.
      bindE (get_audit_mem_size vm) (\<lambda>mem_size.
      bindE (pbft_enabled vm) (\<lambda>pbft.
      bindE (chaos_start vm \<lparr>ch_started = False, ch_crash_timer = False, ch_crashed = False, ch_draws = 0\<rparr>) (\<lambda>chaos.
      bindE (get_bool vm AUDIT_ENABLED) (\<lambda>audit_on.
      let (audit, nd) = (if audit_on then audit_component_start else id)
            (new_audit monitor uuid mem_size pbft, node_start (new_router vm crypto chaos)) in
      bindE (build_stack W peers uuid listener audit_on vm) (\<lambda>stack.
      bindE (start_stack W stack nd) (\<lambda>(stack, status, nd).
      bindE (print_banner W vm) (\<lambda>_.
        Inr \<lparr>dm_options = vm, dm_peers = peers, dm_uuid = uuid, dm_listener = listener, dm_node = nd, dm_status = status,
           dm_audit = audit, dm_audit_enabled = audit_on, dm_stack = stack\<rparr>)))))))))))))"

text \<open>The body of the try block of \<open>main\<close>, and \<open>main\<close> with its handler.\<close>

definition main_body :: "'d world \<Rightarrow> 'd startup res" where
  "main_body W =
     bindE (parse_command_line (wd_convert W) (wd_config W) (wd_command_line W) []) (\<lambda>(valid, vm).
     if \<not> valid then Inr (Exit_code 1)
     else
       bindE (init_logging vm) (\<lambda>_.
       bindE (get_ethererum_address vm) (\<lambda>address.
       bindE (get_ethererum_io_api_token vm) (\<lambda>api_token.
       bindE (get_ether_balance W address api_token) (\<lambda>eth_balance.
       if eth_balance = 0 then Inr (Exit_code 0)
       else
         bindE (peer_validation_enabled vm) (\<lambda>validation.
         bindE (get_bootstrap_peers_file vm) (\<lambda>peers_file.
         bindE (get_bootstrap_peers_url vm) (\<lambda>peers_url.
         bindE (init_peers (wd_peers W) validation peers_file peers_url []) (\<lambda>(ok, peers).
         if \<not> ok then Inl (Runtime_error ''Bootstrap peers initialization failed.'')
         else bindE (start_services W vm peers) (\<lambda>dm. Inr (Running dm)))))))))))"

definition swarm_main :: "'d world \<Rightarrow> 'd startup res" where
  "swarm_main W =
     (case main_body W of
        Inl (Undefined_behaviour what) \<Rightarrow> Inl (Undefined_behaviour what)
      | Inl _ \<Rightarrow> Inr (Exit_code 1)
      | r \<Rightarrow> r)"

section \<open>A daemon that runs\<close>

lemma listener_port:
  assumes "get_listener addr vm = Inr ep" shows "get_uint16 vm LISTENER_PORT = Inr (snd ep)"
  using assms by (auto simp: get_listener_def rethrow_def bindE_def split: sum.splits exn.splits)

definition stack_built :: "'d world \<Rightarrow> variables_map \<Rightarrow> peer_address_t list \<Rightarrow> uuid_t \<Rightarrow> bool \<Rightarrow> 'd stack \<Rightarrow> bool" where
  "stack_built W vm peers uuid audit_on stack \<longleftrightarrow>
     (case stack of
        Pbft_stack p \<Rightarrow> get_bool vm PBFT_ENABLED = Inr True \<and> (\<exists>p0. new_pbft (wd_pbft W) peers uuid = Inr p0 \<and> p = p0\<lparr>audit_enabled := audit_on\<rparr>)
      | Raft_stack r storage _ hs \<Rightarrow> get_bool vm PBFT_ENABLED = Inr False \<and> \<not> hv_started hs
          \<and> (\<exists>dir limit validation key r0. get_state_dir vm = Inr dir \<and> get_max_storage vm = Inr limit
               \<and> peer_validation_enabled vm = Inr validation \<and> get_signed_key vm = Inr key
               \<and> new_raft (wd_raft W) peers uuid (wd_state_file W dir uuid) (unat limit) validation key = Inr r0
               \<and> r = r0\<lparr>enable_audit := audit_on\<rparr>)
          \<and> (\<exists>s0. build_storage W uuid vm = Inr s0 \<and> replay_log W r s0 = Inr storage))"

lemma build_stack_built: "build_stack W peers uuid ep audit_on vm = Inr stack \<Longrightarrow> stack_built W vm peers uuid audit_on stack"
  by (auto simp: build_stack_def stack_built_def pbft_enabled_def Let_def split: if_splits)

text \<open>What starting a stack makes of it: the first timers run, and the HTTP server accepts.\<close>

definition stack_started :: "'d stack \<Rightarrow> 'd stack" where
  "stack_started stack =
     (case stack of
        Pbft_stack p \<Rightarrow> Pbft_stack (emit [Heartbeat_wait] p)
      | Raft_stack r storage ep hs \<Rightarrow> Raft_stack (start r) storage ep (http_server_start hs))"

definition is_pbft :: "'d stack \<Rightarrow> bool" where
  "is_pbft stack = (case stack of Pbft_stack _ \<Rightarrow> True | Raft_stack _ _ _ _ \<Rightarrow> False)"

lemma start_stack_total:
  assumes "nd_message_map nd = (if audit_on then [(''audit'', Audit_handle)] else [])" "nd_protobuf_map nd = []"
  shows "\<exists>sm nd'. start_stack W stack nd = Inr (stack_started stack, sm, nd') \<and> wired (is_pbft stack) audit_on nd'
     \<and> nd_options nd' = nd_options nd \<and> nd_effects nd' = nd_effects nd \<and> nd_accepting nd' = nd_accepting nd"
proof (cases stack)
  case (Pbft_stack p)
  with pbft_components_wired [OF assms, of "\<lparr>sm_providers = [Some (status_provider W stack)], sm_pbft_enabled = True, sm_started = False\<rparr>" p]
  show ?thesis by (auto simp: start_stack_def stack_started_def is_pbft_def)
next
  case (Raft_stack r storage ep hs)
  with raft_components_wired [OF assms, of "\<lparr>sm_providers = [Some (status_provider W stack)], sm_pbft_enabled = False, sm_started = False\<rparr>" hs r]
  show ?thesis by (auto simp: start_stack_def stack_started_def is_pbft_def)
qed

lemma services_facts:
  assumes "start_services W vm peers = Inr dm"
  shows "dm_options dm = vm" "dm_peers dm = peers" "get_listener (wd_address W) vm = Inr (dm_listener dm)"
    "options_get_uuid (wd_openssl W) (wd_base64 W) vm = Inr (dm_uuid dm)"
    "\<exists>stack. build_stack W peers (dm_uuid dm) (dm_listener dm) (dm_audit_enabled dm) vm = Inr stack
       \<and> dm_stack dm = stack_started stack \<and> wired (is_pbft stack) (dm_audit_enabled dm) (dm_node dm)
       \<and> nd_options (dm_node dm) = vm \<and> nd_effects (dm_node dm) = [] \<and> nd_accepting (dm_node dm)"
proof -
  from assms obtain crypto chaos audit audit' nd stack status audit_on where
    read: "get_listener (wd_address W) vm = Inr (dm_listener dm)" "options_get_uuid (wd_openssl W) (wd_base64 W) vm = Inr (dm_uuid dm)"
    and pair: "(if audit_on then audit_component_start else id) (audit, node_start (new_router vm crypto chaos)) = (audit', nd)"
    and built: "build_stack W peers (dm_uuid dm) (dm_listener dm) audit_on vm = Inr stack"
    and started: "start_stack W stack nd = Inr (dm_stack dm, status, dm_node dm)"
    and dm: "dm_options dm = vm" "dm_peers dm = peers" "dm_audit_enabled dm = audit_on"
    by (auto simp: start_services_def Let_def split: prod.splits)
  show "dm_options dm = vm" "dm_peers dm = peers" "get_listener (wd_address W) vm = Inr (dm_listener dm)"
    "options_get_uuid (wd_openssl W) (wd_base64 W) vm = Inr (dm_uuid dm)"
    using read dm by simp_all
  have "nd_message_map nd = (if audit_on then [(''audit'', Audit_handle)] else [])" "nd_protobuf_map nd = []"
    "nd_options nd = vm" "nd_effects nd = []" "nd_accepting nd"
    using pair
    by (auto simp: audit_component_start_def register_for_message_def node_start_def do_accept_def new_router_def split: if_splits)
  with start_stack_total [of nd audit_on W stack] started built dm(3)
  show "\<exists>stack. build_stack W peers (dm_uuid dm) (dm_listener dm) (dm_audit_enabled dm) vm = Inr stack
       \<and> dm_stack dm = stack_started stack \<and> wired (is_pbft stack) (dm_audit_enabled dm) (dm_node dm)
       \<and> nd_options (dm_node dm) = vm \<and> nd_effects (dm_node dm) = [] \<and> nd_accepting (dm_node dm)"
    by auto
qed

lemma running_services:
  assumes "swarm_main W = Inr (Running dm)"
  shows "\<exists>vm config_file validation peers_file url peers.
     options_parse (wd_convert W) True (wd_config W config_file) [] = Inr (True, vm)
     \<and> init_peers (wd_peers W) validation peers_file url [] = Inr (True, peers) \<and> start_services W vm peers = Inr dm"
proof -
  have "main_body W = Inr (Running dm)"
    using assms by (auto simp: swarm_main_def split: sum.splits exn.splits)
  then show ?thesis
    by (auto simp: main_body_def parse_command_line_def options_parse_def [of _ False] split: if_splits option.splits) metis
qed


text \<open>
  C24: in a daemon that comes up no registration of a handler is refused, and its node dispatches by one
  table: right after the start it has exactly the handlers of the stack that the options choose, with
  the audit among them if it is on; and however long the node has run, a JSON message with an api of
  the table goes to the handler of that api and an envelope with a payload type of the table to the
  handler of that type, provided its signature verifies where it is checked.
\<close>

theorem daemon_dispatch:
  assumes "swarm_main W = Inr (Running dm)" and "router_run R (dm_node dm) nd"
    and "get_bool (dm_options dm) CRYPTO_ENABLED_INCOMING = Inr incoming"
  shows "\<exists>pbft. get_bool (dm_options dm) PBFT_ENABLED = Inr pbft \<and> wired pbft (dm_audit_enabled dm) (dm_node dm)
     \<and> (\<forall>k h doc s. api_table pbft (dm_audit_enabled dm) k = Some h \<and> jd_api doc = Some (Inr k)
          \<longrightarrow> priv_msg_handler doc s nd = Inr (n_emit [N_json h doc s] nd))
     \<and> (\<forall>h msg s. payload_table pbft (payload_case (ev_payload msg)) = Some h
          \<and> (incoming \<and> ev_sender msg \<noteq> [] \<longrightarrow> crypto_verify (rl_ec R) msg = Inr True)
          \<longrightarrow> priv_protobuf_handler (rl_ec R) msg s nd = Inr (n_emit [N_proto h msg s] nd))"
proof -
  obtain vm peers where services: "start_services W vm peers = Inr dm" using running_services [OF assms(1)] by blast
  note f = services_facts [OF services]
  from f(5) obtain stack where built: "build_stack W peers (dm_uuid dm) (dm_listener dm) (dm_audit_enabled dm) vm = Inr stack"
    and w: "wired (is_pbft stack) (dm_audit_enabled dm) (dm_node dm)"
    and nd: "nd_options (dm_node dm) = vm" "nd_effects (dm_node dm) = []" by blast
  have ok: "router_ok (rl_ec R) (dm_node dm)" using nd(2) by (simp add: router_ok_def)
  have "get_bool vm PBFT_ENABLED = Inr (is_pbft stack)"
    using build_stack_built [OF built] by (auto simp: stack_built_def is_pbft_def split: stack.splits)
  with w wired_run [OF w ok assms(2)] assms(3) f(1) nd(1) show ?thesis by (intro exI [of _ "is_pbft stack"]) auto
qed

section \<open>An example\<close>

definition daemon_convert :: "opt_type \<Rightarrow> string \<Rightarrow> opt_value option" where
  "daemon_convert ty s = (if ty = T_bool then Some (V_bool (s = ''true'')) else sample_convert ty s)"

definition daemon_members :: "(string \<times> string) list" where
  "daemon_members = [(''bootstrap_file'', ''peers.json''), (''ethereum'', ''0x006eae''), (''ethereum_io_api_token'', ''abc''),
     (''listener_address'', ''127.0.0.1''), (''listener_port'', ''49152''), (''use_pbft'', ''true''), (''uuid'', ''me'')]"

definition daemon_store :: variables_map where
  "daemon_store = [(''bootstrap_file'', V_string ''peers.json'', False), (''ethereum'', V_string ''0x006eae'', False),
     (''ethereum_io_api_token'', V_string ''abc'', False), (''listener_address'', V_string ''127.0.0.1'', False),
     (''listener_port'', V_uint16 49152, False), (''use_pbft'', V_bool True, False), (''uuid'', V_string ''me'', False)]"

definition sample_world :: "unit world" where
  "sample_world = \<lparr>wd_convert = daemon_convert, wd_command_line = Some \<lparr>cl_help = False, cl_version = False, cl_config = None\<rparr>,
     wd_config = (\<lambda>f. if f = DEFAULT_CONFIG_FILE then Some (Some daemon_members) else None),
     wd_http_get = (\<lambda>_ _. Inr ''''), wd_result = (\<lambda>_. Some (Inr ''1'')), wd_double = (\<lambda>_. Some 1),
     wd_peers = \<lparr>ps_read_file = (\<lambda>_. Some ''''), ps_http_get = (\<lambda>_ _. Inr ''''), ps_parse = (\<lambda>_. Some [sample_json_peer]), ps_web = sample_web\<rparr>,
     wd_openssl = sample_ssl, wd_base64 = (\<lambda>s. s), wd_ec = sample_ec, wd_address = Inr, wd_resolve = (\<lambda>a p. Inr (a, 1)),
     wd_pbft = sample_lib, wd_raft = sample_rlib, wd_state_file = (\<lambda>_ _. None),
     wd_rocksdb = \<lparr>rdb_Open = (\<lambda>_ _. Inr ()), rdb_Put = (\<lambda>d _ _. (True, d)), rdb_Get = (\<lambda>_ _. None), rdb_Delete = (\<lambda>d _. (True, d)), rdb_Seek = (\<lambda>_ _. [])\<rparr>,
     wd_status_text = (\<lambda>_. '''')\<rparr>"

lemma daemon_known: "known_members daemon_members = Inr daemon_members"
  by code_simp

lemma daemon_stored: "store_values daemon_convert daemon_members [] = Inr daemon_store"
  by (simp add: daemon_members_def daemon_store_def daemon_convert_def sample_convert_def find_option_def build_options_def
      option_names digit_val_def)

abbreviation daemon_vm :: variables_map where "daemon_vm \<equiv> store_defaults daemon_store"


lemmas getters = get_string_def get_bool_def get_uint16_def get_uint64_def get_as_def store_defaults_lookup daemon_store_def
  build_options_def option_names

lemma daemon_options:
  "pbft_enabled daemon_vm = Inr True" "get_ethererum_address daemon_vm = Inr ''0x006eae''"
  "get_ethererum_io_api_token daemon_vm = Inr ''abc''" "get_bootstrap_peers_file daemon_vm = Inr ''peers.json''"
  "get_bootstrap_peers_url daemon_vm = Inr ''''" "get_debug_logging daemon_vm = Inr False" "get_log_to_stdout daemon_vm = Inr False"
  "get_ws_idle_timeout daemon_vm = Inr 0" "get_audit_mem_size daemon_vm = Inr 10000" "get_state_dir daemon_vm = Inr ''./.state/''"
  "get_logfile_dir daemon_vm = Inr ''logs/''" "get_http_port daemon_vm = Inr 8080" "peer_validation_enabled daemon_vm = Inr False"
  "get_string daemon_vm MAX_STORAGE = Inr ''2G''" "get_string daemon_vm LOGFILE_MAX_SIZE = Inr ''512K''"
  "get_string daemon_vm LOGFILE_ROTATION_SIZE = Inr ''64K''" "get_bool daemon_vm AUDIT_ENABLED = Inr False"
  "get_bool daemon_vm CHAOS_ENABLED = Inr False" "get_bool daemon_vm CRYPTO_ENABLED_OUTGOING = Inr True"
  "get_string daemon_vm NODE_PRIVATEKEY_FILE = Inr ''.state/private-key.pem''" "get_string daemon_vm NODE_UUID = Inr ''me''"
  "get_string daemon_vm LISTENER_ADDRESS = Inr ''127.0.0.1''" "get_uint16 daemon_vm LISTENER_PORT = Inr 49152"
  "opt_has daemon_vm NODE_UUID" "\<not> opt_has daemon_vm MONITOR_PORT"
  by (simp_all add: option_getters getters opt_has_def)

lemma daemon_config: "handle_config_file_options daemon_convert (Some (Some daemon_members)) [] = Inr daemon_vm"
proof -
  have "notify daemon_vm = Inr ()"
    by (simp add: notify_def store_defaults_lookup) (simp add: build_options_def daemon_store_def option_names)
  then show ?thesis by (simp add: handle_config_file_options_def daemon_known daemon_stored)
qed

lemma daemon_sizes: "get_max_storage daemon_vm = Inr 2147483648" "get_logfile_max_size daemon_vm = Inr 524288"
  "get_logfile_rotation_size daemon_vm = Inr 65536"
  by (simp_all add: get_max_storage_def get_logfile_max_size_def get_logfile_rotation_size_def daemon_options parse_size_def
      size_suffix_def digit_val_def cast_digits_u64_def BYTE_SUFFIXES_def)

lemma daemon_valid: "validate_options daemon_vm = Inr True"
proof -
  have "get_string daemon_vm ETHERERUM = Inr ''0x006eae''" using daemon_options(2) by (simp add: get_ethererum_address_def)
  moreover have "opt_has daemon_vm BOOTSTRAP_PEERS_FILE" "defaulted daemon_vm NODE_PUBKEY_FILE"
    by (simp_all add: opt_has_def defaulted_def getters)
  ultimately show ?thesis by (simp add: validate_options_def daemon_options is_hex_notation_def hex_val_def)
qed

lemma daemon_init_peers: "\<exists>peers. init_peers (wd_peers sample_world) False ''peers.json'' '''' [] = Inr (True, peers) \<and> peers \<noteq> []"
  by (simp add: init_peers_def fetch_peers_from_file_def ingest_json_def sample_world_def sample_json_peer_def read_peer_def
      member_or_unknown_def peers_insert_def Let_def)

lemma daemon_services:
  assumes "peers \<noteq> []"
  shows "\<exists>dm. start_services sample_world daemon_vm peers = Inr dm \<and> dm_uuid dm = ''me''"
proof -
  have u: "options_get_uuid s b daemon_vm = Inr ''me''" for s b by (simp add: options_get_uuid_def daemon_options)
  have c: "\<exists>cr. new_crypto L uu daemon_vm = Inr cr" for L uu
    by (simp add: new_crypto_def load_private_key_def daemon_options)
  have l: "get_listener Inr daemon_vm = Inr (''127.0.0.1'', 49152)"
    by (simp add: get_listener_def daemon_options asio_call_def rethrow_def)
  have m: "get_monitor_endpoint r daemon_vm = Inr None" for r by (simp add: get_monitor_endpoint_def daemon_options)
  have ch: "chaos_start daemon_vm x = Inr x" for x by (simp add: chaos_start_def chaos_enabled_def daemon_options)
  have b: "print_banner sample_world daemon_vm = Inr ()"
    by (simp add: print_banner_def u l daemon_options daemon_sizes sample_world_def)
  have "\<exists>p. new_pbft X peers ''me'' = Inr p" for X using assms by (simp add: new_pbft_def)
  then obtain p where "new_pbft (wd_pbft sample_world) peers ''me'' = Inr p" by blast
  then have s: "\<exists>st. build_stack sample_world peers ''me'' ep au daemon_vm = Inr st" for ep au
    by (simp add: build_stack_def daemon_options)
  have st: "\<exists>st sm nd'. start_stack sample_world stack (node_start (new_router daemon_vm cr ch)) = Inr (st, sm, nd')" for stack cr ch
    using start_stack_total [of "node_start (new_router daemon_vm cr ch)" False sample_world stack]
    by (auto simp: node_start_def do_accept_def new_router_def)
  have w: "wd_address sample_world = Inr" by (simp add: sample_world_def)
  obtain cr where cr: "new_crypto (wd_ec sample_world) (Inr ''me'') daemon_vm = Inr cr" using c by blast
  obtain stack where stack: "build_stack sample_world peers ''me'' (''127.0.0.1'', 49152) False daemon_vm = Inr stack" using s by blast
  obtain stk sm nd' where "start_stack sample_world stack (node_start (new_router daemon_vm cr
      \<lparr>ch_started = False, ch_crash_timer = False, ch_crashed = False, ch_draws = 0\<rparr>)) = Inr (stk, sm, nd')" using st by blast
  then show ?thesis by (simp add: start_services_def u l m ch b w daemon_options cr stack)
qed

lemma sample_daemon: "\<exists>dm. swarm_main sample_world = Inr (Running dm) \<and> dm_uuid dm = ''me'' \<and> dm_options dm = daemon_vm"
proof -
  obtain peers where p: "init_peers (wd_peers sample_world) False ''peers.json'' '''' [] = Inr (True, peers)" "peers \<noteq> []"
    using daemon_init_peers by blast
  obtain dm where dm: "start_services sample_world daemon_vm peers = Inr dm" "dm_uuid dm = ''me''"
    using daemon_services [OF p(2)] by blast
  have "options_parse daemon_convert True (Some (Some daemon_members)) [] = Inr (True, daemon_vm)"
    by (simp add: options_parse_def daemon_config daemon_valid)
  then have parse: "parse_command_line (wd_convert sample_world) (wd_config sample_world) (wd_command_line sample_world) [] = Inr (True, daemon_vm)"
    by (simp add: sample_world_def parse_command_line_def handle_command_line_options_def)
  have "url_match (GET_ETHER_BALANCE_API ''0x006eae'' ''abc'') \<noteq> None" by code_simp
  then have "get_ether_balance sample_world ''0x006eae'' ''abc'' = Inr (1 / 10 ^ 18)"
    by (auto simp: get_ether_balance_def sync_get_def sample_world_def)
  then have "main_body sample_world = Inr (Running dm)"
    by (simp add: main_body_def parse init_logging_def daemon_options daemon_sizes p(1) dm(1))
  then show ?thesis using dm(2) services_facts(1) [OF dm(1)] by (simp add: swarm_main_def)
qed


theorem daemon_dispatch_witness:
  "\<exists>dm. swarm_main sample_world = Inr (Running dm)
     \<and> priv_msg_handler \<lparr>jd_api = Some (Inr ''database''), jd_text = ''''\<rparr> 1 (dm_node dm)
       = Inr (n_emit [N_json Pbft_handle_database_message \<lparr>jd_api = Some (Inr ''database''), jd_text = ''''\<rparr> 1] (dm_node dm))"
proof -
  obtain dm where r: "swarm_main sample_world = Inr (Running dm)" "dm_options dm = daemon_vm" using sample_daemon by blast
  have o: "get_bool daemon_vm PBFT_ENABLED = Inr True" "get_bool daemon_vm CRYPTO_ENABLED_INCOMING = Inr False"
    using daemon_options(1) by (simp_all add: pbft_enabled_def getters)
  have "api_table True (dm_audit_enabled dm) ''database'' = Some Pbft_handle_database_message"
    by (simp add: api_table_def)
  moreover have "\<exists>pbft. get_bool (dm_options dm) PBFT_ENABLED = Inr pbft
     \<and> (\<forall>k h doc s. api_table pbft (dm_audit_enabled dm) k = Some h \<and> jd_api doc = Some (Inr k)
          \<longrightarrow> priv_msg_handler doc s (dm_node dm) = Inr (n_emit [N_json h doc s] (dm_node dm)))"
    using daemon_dispatch [OF r(1) rr_refl, of False sample_router] r(2) o(2) by auto
  ultimately show ?thesis using r o(1) by fastforce
qed

end
