(* ===== verification/Spec2Isabelle.thy ===== *)
theory Spec2Isabelle
  imports Failure_Detector Pbft_Service Pbft_Progress Raft_Replication Http Daemon "HOL-Library.Multiset"
begin

text \<open>
  Verification of the core of swarmDB, a replicated key-value database. A daemon (\<open>swarm/main.cpp\<close>) runs
  one of two stacks. The PBFT stack tolerates Byzantine faults: \<open>pbft/\<close> orders the requests of clients and
  hands each agreed operation to a service, which executes it with \<open>crud/crud.cpp\<close> on a storage. The
  Raft stack tolerates crashes: \<open>raft/\<close> keeps a replicated log and commits its entries, and
  \<open>crud/raft_crud.cpp\<close> sends client requests to the log and applies what is committed.

  \<^bold>\<open>Theories and sources.\<close> Each theory opens with a description of its model.
    \<^item> \<open>Prelude\<close>: words of the widths the code uses, hash maps and ordered maps as association lists,
      the result type \<open>'a res\<close> with the errors of the code (a thrown exception, a JSON error, undefined
      behaviour), decimal numbers as text, generic lemmas.
    \<^item> \<open>Messages\<close>: the protobuf messages of \<open>proto/\<close> and the peer addresses of \<open>bootstrap/peer_address.hpp\<close>.
    \<^item> \<open>Quorum\<close>: counting arguments on overlapping quorums (locale \<open>quorum_size\<close>).
    \<^item> \<open>Storage\<close>: \<open>storage/storage_base.hpp\<close> as the table \<open>storage_vt\<close> of the virtual operations, its
      contract as the locale \<open>storage_spec\<close>, and \<open>storage/mem_storage.cpp\<close> as an interpretation of it.
    \<^item> \<open>Crud\<close>: \<open>crud/crud.cpp\<close>, the request handlers of the PBFT stack, over any storage.
    \<^item> \<open>Subscription\<close>: \<open>crud/subscription_manager.cpp\<close>.
    \<^item> \<open>Pbft_Operation\<close>: \<open>pbft/pbft_operation.cpp\<close>, one operation with its votes and phases.
    \<^item> \<open>Pbft_Config\<close>: \<open>pbft/pbft_configuration.cpp\<close> and \<open>pbft/pbft_config_store.cpp\<close>.
    \<^item> \<open>Failure_Detector\<close>: \<open>pbft/pbft_failure_detector.cpp\<close>.
    \<^item> \<open>Pbft_Service\<close>: \<open>pbft/dummy_pbft_service.cpp\<close> and \<open>pbft/database_pbft_service.cpp\<close>.
    \<^item> \<open>Pbft\<close>: \<open>pbft/pbft.cpp\<close>, the replica: one function per handler on the record \<open>pbft\<close>;
      \<open>Pbft_Invariant\<close> has the invariant of a replica, \<open>Pbft_Safety\<close> the group of replicas as a transition
      system with an adversary and the agreement theorem, \<open>Pbft_Properties\<close> the properties of single
      operations, \<open>Pbft_Progress\<close> that votes lead to execution.
    \<^item> \<open>Raft_Log\<close>: \<open>raft/raft_log.cpp\<close> and \<open>raft/log_entry.hpp\<close>, the entries in memory and their file.
    \<^item> \<open>Raft\<close>: \<open>raft/raft.cpp\<close>, the participant; \<open>Raft_Safety\<close> has its steps, their invariant (locale
      \<open>logged_entries\<close>) and what they keep; \<open>Raft_Replication\<close> replication, membership and terms.
    \<^item> \<open>Raft_Crud\<close>: \<open>crud/raft_crud.cpp\<close>, and a whole node of the Raft stack.
    \<^item> \<open>Rocksdb_Storage\<close>: \<open>storage/rocksdb_storage.cpp\<close> over the calls of RocksDB (locale \<open>rocksdb_api\<close>);
      \<open>Raft_Restart\<close>: restarting a node on the storage it left.
    \<^item> \<open>Http\<close>: \<open>http/connection.cpp\<close> and \<open>http/server.cpp\<close>, the HTTP interface of the Raft stack, and a node
      with both interfaces.
    \<^item> \<open>Options\<close>: \<open>options/\<close>, the declared options, the configuration file, validation, getters and sizes.
    \<^item> \<open>Utils\<close>: \<open>utils/crypto.cpp\<close> and \<open>utils/blacklist.cpp\<close>; \<open>Bootstrap\<close>: \<open>bootstrap/bootstrap_peers.cpp\<close>,
      \<open>utils/http_get.cpp\<close> and \<open>init_peers\<close> of \<open>swarm/main.cpp\<close>.
    \<^item> \<open>Message_Crypto\<close>: \<open>crypto/crypto.cpp\<close>, signatures on envelopes; \<open>Session\<close>: \<open>chaos/chaos.cpp\<close> and
      \<open>node/session.cpp\<close>; \<open>Node\<close>: \<open>node/node.cpp\<close>, the message router; \<open>Status\<close>: \<open>status/status.cpp\<close>.
    \<^item> \<open>Audit_Module\<close>: \<open>audit/audit.cpp\<close>, with the detection of conflicts as the locale \<open>conflict_monitor\<close>.
    \<^item> \<open>Wiring\<close>: the \<open>start\<close> functions of the components, which register their handlers with the node, and the
      bytes a replica broadcasts through it.
    \<^item> \<open>Daemon\<close>: \<open>main\<close> of \<open>swarm/main.cpp\<close> and \<open>ethereum/ethereum.cpp\<close>, from the command line to the running
      objects of the chosen stack.
    \<^item> this theory: properties that span the components.

  \<^bold>\<open>How the model corresponds to the code.\<close> An object's member variables are the fields of a record;
  a member function is a function that takes the record and returns it updated. What a function does
  to the outside (messages sent, timers started, callbacks posted, sessions closed) is appended to a
  list of effects in the record, in the order of the code. Third-party code is a parameter: SHA-256,
  JSON and protobuf text, signatures, random numbers, name resolution. The records \<open>pbft_lib\<close>,
  \<open>raft_lib\<close>, \<open>log_codec\<close> and the service environment hold these parameters; the hypotheses on them
  (injective hashes where two requests must be told apart, a text that reads back as what was printed)
  are premises of the theorems that need them. A member function that throws is \<open>Inl\<close> of the error; the
  model then has no resulting state, and theorems about steps speak of calls that return. Locks are not
  modelled: every handler runs to its end before the next.

  \<^bold>\<open>What is shown.\<close>
    \<^item> Agreement and execution (\<open>Pbft_Safety\<close>, \<open>Pbft_Service\<close>, here): correct replicas hand the same request
      to their services for a sequence number, services execute in sequence order whatever order the
      operations come in, and so the databases of correct replicas agree. The thresholds are analysed
      exactly (\<open>Pbft_Operation\<close>, \<open>Pbft_Properties\<close>): for which group sizes they are enough.
    \<^item> Progress (\<open>Pbft_Progress\<close>, here): whatever has happened before, a preprepare that is on the network
      can be executed by every correct replica whose window it is in, from the votes of the correct
      ones alone; each number is handed to the service once, and the service never refuses one.
    \<^item> Checkpoints, water marks, primaries and configurations of the replica, and its failure detector.
    \<^item> The storage refines a map; CRUD requests have the outcome the map says.
    \<^item> Raft: what is committed is the log, in order; a commit needs a majority; a leader has a majority of
      votes and a node votes once per term as long as its term does not change; a joint quorum turns
      into the single quorum that was asked for; the log file reads back as the log; the database is
      the replay of the committed log, whichever interface the requests come through, and a restart
      keeps it. RocksDB storage refines the same map as the in-memory storage, as long as no database
      name is a prefix of another.
    \<^item> The HTTP interface does on the leader what the websocket does.
    \<^item> Messages between nodes: what reaches a handler was verified or is anonymous, and a signed message
      is accepted at the other end; how many reads a session has outstanding. The votes of PBFT are not
      signed: they are dropped where signatures are checked and can be forged where they are not, so
      that the authentic senders of \<open>Pbft_Safety\<close> are an assumption on the network.
    \<^item> The configuration is well typed, the peers are well-formed, and a daemon that comes up runs the
      stack the configuration asks for, with every message type dispatched to its component.
    \<^item> The audit module reports exactly the contradictions it hears, in bounded memory on the Raft side.
    \<^item> The public key is put together from the contract's chunks, and the loop over them returns.
    \<^item> Where the code falls short of this, the theorem states what it does instead, for instance
      \<open>conflict_insert_breaks_restart\<close> and \<open>leader_stays_leader_in_later_term\<close>.

  \<^bold>\<open>Bounds and fuel.\<close> Loops are structural recursions or functions with a termination proof, except
  for the two commit loops of Raft (\<open>commit_range\<close>, \<open>commit_while\<close>), whose fuel is the distance between
  the loop counter and its bound, and two loops that are a \<open>partial_function\<close> and are shown to return:
  that of the database service, and the retrieval of the public key, as long as the numbers the
  contract answers have a bound. Indices and
  sequence numbers have the width of the code; \<open>small_log\<close> says that a Raft log has fewer than \<open>2 ^ 32\<close>
  entries, where its 32 bit indices would wrap.

  \<^bold>\<open>Not modelled.\<close> Network, timers and threads beyond the effects above; the locks; log sinks, signal
  handlers and worker threads of \<open>swarm/main.cpp\<close>; the setter of \<open>simple_options\<close>, which only tests call;
  the wrappers around boost asio and beast (\<open>include/boost_asio_beast.hpp\<close>), which only forward; getters
  and the members of the services that only write to the log.
  The manifest lists every part with its status.
\<close>

section \<open>Properties that span components\<close>

text \<open>A run of one replica that has posted one operation, for the witnesses.\<close>

lemma sample_posted:
  "\<exists>sys op. reachable sample_lib 1 {''a''} {} sys \<and> posted_list (nodes sys ''a'') = [op]
     \<and> op_sequence op = 1 \<and> op_request op = empty_db_request"
proof -
  obtain sys where sys: "reachable sample_lib 1 {''a''} {} sys" "sample_run 4 = Inr (nodes sys ''a'')"
    using sample_reachable by blast
  have "case sample_run 4 of Inr st \<Rightarrow> map (\<lambda>op. (op_sequence op, op_request op)) (posted_list st)
      = [(1, empty_db_request)] | Inl _ \<Rightarrow> False"
    by code_simp
  with sys(2) obtain op where op: "posted_list (nodes sys ''a'') = [op]" "op_sequence op = 1"
      "op_request op = empty_db_request"
    by auto
  with sys(1) show ?thesis by blast
qed

text \<open>
  C2: End to end. Let a group of \<open>3f + 1\<close> participants with at most \<open>f\<close> faulty run PBFT, and let two
  correct replicas feed what PBFT hands to them, in any order and possibly only in part, to their
  database services. Then the two services have executed the same requests in the same order, one
  possibly further than the other, and where they have executed equally many, their databases are
  identical. The requests PBFT has agreed on have to be told apart by their hashes.
\<close>

theorem replicated_execution:
  assumes "reachable X n C F sys" and "C \<inter> F = {}" "finite (C \<union> F)" "card (C \<union> F) = n"
    and "n mod 3 = 1" "n < 2 ^ 64" and "card F \<le> op_bound n" and "i \<in> C" "j \<in> C"
    and "inj_on (ShortDebugString X) (op_request ` (posted (nodes sys i) \<union> posted (nodes sys j)))"
    and "env_unstable e1 = mem_vt" "codec_ok (env_codec e1)" "new_database_service e1 [] c = Inr st1"
    and "env_unstable e2 = mem_vt" "codec_ok (env_codec e2)" "new_database_service e2 [] c = Inr st2"
    and "env_crud e1 = env_crud e2"
    and "snd ` set ops1 \<subseteq> posted (nodes sys i)" "snd ` set ops2 \<subseteq> posted (nodes sys j)"
    and "apply_all (database_app e1) st1 ops1 = Some st1'" "apply_all (database_app e2) st2 ops2 = Some st2'"
  shows "(prefix (ds_posted st1') (ds_posted st2') \<or> prefix (ds_posted st2') (ds_posted st1'))
     \<and> (database_applied_requests_count st1' = database_applied_requests_count st2'
          \<and> length (ds_posted st1') < 2 ^ 64 \<and> length (ds_posted st2') < 2 ^ 64
        \<longrightarrow> ds_crud st1' = ds_crud st2')"
proof -
  let ?P = "posted (nodes sys i) \<union> posted (nodes sys j)"
  have same: "op_request a = op_request b" if "a \<in> ?P" "b \<in> ?P" "op_sequence a = op_sequence b" for a b
  proof -
    have "\<exists>k \<in> C. a \<in> posted (nodes sys k)" "\<exists>l \<in> C. b \<in> posted (nodes sys l)"
      using that(1,2) assms(8,9) by auto
    then obtain k l where "k \<in> C" "l \<in> C" "a \<in> posted (nodes sys k)" "b \<in> posted (nodes sys l)"
      by (elim bexE)
    from posted_agree [OF assms(1-7) this that(3)]
    have "ShortDebugString X (op_request a) = ShortDebugString X (op_request b)"
      by (simp add: get_operation_key_def request_hash_def)
    with assms(10) that show ?thesis by (auto dest: inj_onD)
  qed
  define f where "f s = op_request (SOME op. op \<in> ?P \<and> op_sequence op = s)" for s
  have f: "op_request op = f (op_sequence op)" if "op \<in> ?P" for op
  proof -
    have "(SOME op'. op' \<in> ?P \<and> op_sequence op' = op_sequence op) \<in> ?P
        \<and> op_sequence (SOME op'. op' \<in> ?P \<and> op_sequence op' = op_sequence op) = op_sequence op"
      by (rule someI [of _ op]) (simp add: that [simplified])
    then show ?thesis unfolding f_def using same [OF that] by metis
  qed
  have "r = f s" if "(r, s) \<in> op_calls ops1 \<union> op_calls ops2" for r s
    using that f assms(18,19) by (force simp: op_calls_def)
  then show ?thesis
    using replicas_agree [OF assms(11-17,20,21)] by blast
qed

theorem replicated_execution_witness:
  "\<exists>sys op st'. reachable sample_lib 1 {''a''} {} sys \<and> op \<in> posted (nodes sys ''a'')
     \<and> apply_all (database_app sample_env) sample_service [(\<lambda>_. True, op)] = Some st'
     \<and> (prefix (ds_posted sample_service) (ds_posted st') \<or> prefix (ds_posted st') (ds_posted sample_service))"
proof -
  obtain sys op where sys: "reachable sample_lib 1 {''a''} {} sys"
    and op: "posted_list (nodes sys ''a'') = [op]" "op_sequence op = 1" "op_request op = empty_db_request"
    using sample_posted by blast
  then have posted: "posted (nodes sys ''a'') = {op}" using posted_list_set [of "nodes sys ''a''"] by simp
  have "mem_service_inv sample_env sample_service"
    using fresh_database_service(1) [OF sample_service_fresh sample_env_ok] .
  then obtain st' where "database_apply_operation sample_env (\<lambda>_. True) sample_service op = Some (Inr st')"
    using mem_apply_ok [of sample_env sample_service op "\<lambda>_. True"] op(2,3)
    by (auto simp: sample_service_def sample_env_def mem_read_def sample_codec_def empty_db_request_def
        default_request_def MAX_VALUE_SIZE_def)
  then have r: "apply_all (database_app sample_env) sample_service [(\<lambda>_. True, op)] = Some st'"
    by (simp add: database_app_def)
  have "prefix (ds_posted sample_service) (ds_posted st') \<or> prefix (ds_posted st') (ds_posted sample_service)"
    using replicated_execution [OF sys _ _ _ _ _ _ _ _ _ sample_env_ok sample_service_fresh sample_env_ok
        sample_service_fresh refl, of "''a''" "''a''" "[]" "[(\<lambda>_. True, op)]" sample_service st'] r posted
    by (simp add: op_bound_def)
  with sys posted r show ?thesis by blast
qed

text \<open>
  C5: A correct replica's database service never throws at what PBFT hands over, and executes all of it
  that has no gap before it. In a group of \<open>3f + 1\<close> participants with at most \<open>f\<close> faulty ones, let the
  service of a correct replica be given the operations that were posted to it, in any order, none of
  them larger than the store accepts. Then every call returns without an exception, the requests are
  executed with the numbers 1, 2, 3, ..., and once all numbers up to \<open>k\<close> have been posted, at
  least \<open>k\<close> requests have been executed.
\<close>

theorem service_executes_posted:
  assumes "reachable X n C F sys" and "C \<inter> F = {}" "finite (C \<union> F)" "card (C \<union> F) = n"
    and "n mod 3 = 1" "n < 2 ^ 64" and "card F \<le> op_bound n" and "i \<in> C"
    and "env_unstable e = mem_vt" "codec_ok (env_codec e)" "new_database_service e [] c = Inr st"
    and "mset (map snd ops) = mset (posted_list (nodes sys i))"
    and "\<forall>op \<in> set (posted_list (nodes sys i)). length (SerializeAsString (env_codec e) (op_request op)) \<le> MAX_VALUE_SIZE"
  shows "\<exists>st'. apply_all (database_app e) st ops = Some st'
     \<and> map snd (ds_posted st') = map (\<lambda>l. 1 + word_of_nat l) [0..<length (ds_posted st')]
     \<and> (\<forall>k < 2 ^ 64. (\<forall>l < k. 1 + word_of_nat l \<in> op_sequence ` posted (nodes sys i)) \<longrightarrow> k \<le> length (ds_posted st'))"
proof -
  note fresh = fresh_database_service [OF assms(11,9,10)]
  have set: "snd ` set ops = set (posted_list (nodes sys i))" using mset_eq_setD [OF assms(12)] by simp
  have "distinct (map op_sequence (posted_list (nodes sys i)))" by (rule posted_sequences_distinct [OF assms(1-8)])
  moreover have "mset (map op_sequence (map snd ops)) = mset (map op_sequence (posted_list (nodes sys i)))"
    using arg_cong [OF assms(12), of "image_mset op_sequence"] by (simp only: mset_map)
  ultimately have "distinct (map op_sequence (map snd ops))" using mset_eq_imp_distinct_iff by blast
  then have d: "distinct (map (\<lambda>c. op_sequence (snd c)) ops)" by (simp add: comp_def)
  have size: "\<forall>c \<in> set ops. length (SerializeAsString (env_codec e) (op_request (snd c))) \<le> MAX_VALUE_SIZE"
    using assms(13) set by blast
  have "known (database_view mem_abs e st) = {}" using fresh(2) by (simp add: known_def)
  then obtain st' where run: "apply_all (database_app e) st ops = Some st'"
    using distinct_apply_total [OF fresh(1) d size] by auto
  have numbers: "snd ` op_calls ops = op_sequence ` posted (nodes sys i)"
    unfolding op_calls_def posted_list_set [symmetric] set [symmetric] image_image by (simp add: case_prod_beta)
  obtain p where v: "database_view mem_abs e st' = (ds_posted st', ds_next st', p)" by (simp add: database_view_def)
  have "map snd (ds_posted st') = map (\<lambda>l. 1 + word_of_nat l) [0..<length (ds_posted st')]"
    by (rule mem.svc.fresh_run_ordered(1) [OF fresh(1,2) run v])
  moreover have "k \<le> length (ds_posted st')"
    if "k < 2 ^ 64" "\<forall>l < k. 1 + word_of_nat l \<in> op_sequence ` posted (nodes sys i)" for k
    by (rule mem.svc.fresh_run_complete [OF fresh(1,2) run v]) (simp_all only: numbers that)
  ultimately show ?thesis using run by blast
qed

theorem service_executes_posted_witness:
  "\<exists>sys op st'. reachable sample_lib 1 {''a''} {} sys \<and> posted_list (nodes sys ''a'') = [op]
     \<and> apply_all (database_app sample_env) sample_service [(\<lambda>_. True, op)] = Some st' \<and> 1 \<le> length (ds_posted st')"
proof -
  obtain sys op where sys: "reachable sample_lib 1 {''a''} {} sys"
    and op: "posted_list (nodes sys ''a'') = [op]" "op_sequence op = 1" "op_request op = empty_db_request"
    using sample_posted by blast
  then have posted: "posted (nodes sys ''a'') = {op}" using posted_list_set [of "nodes sys ''a''"] by simp
  have "length (SerializeAsString (env_codec sample_env) (op_request op)) \<le> MAX_VALUE_SIZE"
    using op(3) by (simp add: sample_env_def sample_codec_def empty_db_request_def default_request_def MAX_VALUE_SIZE_def)
  then have "\<exists>st'. apply_all (database_app sample_env) sample_service [(\<lambda>_. True, op)] = Some st'
     \<and> map snd (ds_posted st') = map (\<lambda>l. 1 + word_of_nat l) [0..<length (ds_posted st')]
     \<and> (\<forall>k < 2 ^ 64. (\<forall>l < k. 1 + word_of_nat l \<in> op_sequence ` posted (nodes sys ''a'')) \<longrightarrow> k \<le> length (ds_posted st'))"
    by (intro service_executes_posted [OF sys _ _ _ _ _ _ _ sample_env_ok sample_service_fresh])
      (simp_all add: op(1) op_bound_def)
  then obtain st' where st': "apply_all (database_app sample_env) sample_service [(\<lambda>_. True, op)] = Some st'"
    and "\<forall>k < 2 ^ 64. (\<forall>l < k. 1 + word_of_nat l \<in> op_sequence ` posted (nodes sys ''a'')) \<longrightarrow> k \<le> length (ds_posted st')"
    by blast
  from this(2) [rule_format, of 1] posted op(2) have "1 \<le> length (ds_posted st')" by simp
  with sys op(1) st' show ?thesis by blast
qed

end
